(* ===== verification/Prelude.thy ===== *)
theory Prelude
  imports Main "HOL-Library.Sublist" "HOL-Library.List_Lexorder" "HOL-Library.Char_ord"
begin

text \<open>
  Shared vocabulary of the development: Go's instants and durations, the
  string helpers of package \<open>strings\<close> the sources call, the keep-first-occurrence
  loop that recurs all over the sources, and small SQL tables as lists of rows.

  \<^item> An instant (\<open>time.Time\<close>) is an \<open>int\<close>, the nanoseconds since the Unix epoch; the zero
    \<open>time.Time\<close> (1 January of year 1) is the instant \<open>zero_time\<close>, and \<open>t.IsZero()\<close> is \<open>t = zero_time\<close>.
  \<^item> A \<open>time.Duration\<close> is an \<open>int\<close> number of nanoseconds; \<open>t.Sub(u)\<close> saturates at
    the bounds of \<open>int64\<close> as Go's does.
  \<^item> A string is a list of bytes. \<open>strings.ToLower\<close> and \<open>strings.TrimSpace\<close> are modelled
    on ASCII, which is all a host name, an ACME message or an identifier contains; a byte
    outside ASCII is left alone.
\<close>

section \<open>Collections\<close>

text \<open>
  \<open>rows\<close> rewrites a read of a table after a write of it; \<open>keeps\<close> are the introduction
  rules by which an operation keeps an invariant of the rows and of their keys.
\<close>

named_theorems rows \<open>reads of a table after a write\<close>
named_theorems keeps \<open>what a write keeps of a table\<close>

section \<open>Instants and durations\<close>

type_synonym instant = int
type_synonym duration = int

definition zero_time :: instant where
  "zero_time = - 62135596800000000000"

definition ns_second :: duration where "ns_second = 1000000000"
definition ns_minute :: duration where "ns_minute = 60 * 1000000000"
definition ns_hour :: duration where "ns_hour = 3600 * 1000000000"

lemmas ns_defs = ns_second_def ns_minute_def ns_hour_def

definition time_sub :: "instant \<Rightarrow> instant \<Rightarrow> duration" where
  "time_sub t u = max (- (2 ^ 63)) (min (2 ^ 63 - 1) (t - u))"

lemma time_sub_le: "u \<le> t \<Longrightarrow> time_sub t u \<le> t - u"
  by (simp add: time_sub_def max_def min_def)

lemma time_sub_nonneg: "u \<le> t \<Longrightarrow> 0 \<le> time_sub t u"
  by (simp add: time_sub_def max_def min_def)

lemma time_sub_neg: "t < u \<Longrightarrow> time_sub t u < 0"
  by (simp add: time_sub_def max_def min_def)

lemma time_sub_exact:
  "- (2 ^ 63) \<le> t - u \<Longrightarrow> t - u < 2 ^ 63 \<Longrightarrow> time_sub t u = t - u"
  by (simp add: time_sub_def max_def min_def)

section \<open>Strings\<close>

definition lower_char :: "char \<Rightarrow> char" where
  "lower_char c = (let n = (of_char c :: nat) in if 65 \<le> n \<and> n \<le> 90 then char_of (n + 32) else c)"

definition to_lower :: "string \<Rightarrow> string" where
  "to_lower s = map lower_char s"

lemma lower_char_idem [simp]: "lower_char (lower_char c) = lower_char c"
  by (auto simp: lower_char_def Let_def)

lemma to_lower_idem [simp]: "to_lower (to_lower s) = to_lower s"
  by (simp add: to_lower_def)

lemma to_lower_Nil [simp]: "to_lower [] = []"
  by (simp add: to_lower_def)

lemma to_lower_append [simp]: "to_lower (a @ b) = to_lower a @ to_lower b"
  by (simp add: to_lower_def)

lemma length_to_lower [simp]: "length (to_lower s) = length s"
  by (simp add: to_lower_def)

definition is_space :: "char \<Rightarrow> bool" where
  "is_space c \<longleftrightarrow> (let n = (of_char c :: nat) in n = 32 \<or> (9 \<le> n \<and> n \<le> 13))"

definition trim_space :: "string \<Rightarrow> string" where
  "trim_space s = rev (dropWhile is_space (rev (dropWhile is_space s)))"

lemma set_trim_space: "set (trim_space s) \<subseteq> set s"
proof -
  have "set (trim_space s) = set (dropWhile is_space (rev (dropWhile is_space s)))"
    by (simp add: trim_space_def)
  also have "\<dots> \<subseteq> set s" by (metis set_dropWhileD set_rev subsetI)
  finally show ?thesis .
qed

lemma trim_space_idem [simp]: "trim_space (trim_space s) = trim_space s"
proof -
  let ?t = "rev (dropWhile is_space (rev (dropWhile is_space s)))"
  have "dropWhile is_space ?t = ?t"
  proof (cases ?t)
    case Nil
    show ?thesis unfolding Nil by simp
  next
    case (Cons x xs)
    obtain zs where "dropWhile is_space s = ?t @ zs"
      by (metis rev_append rev_rev_ident takeWhile_dropWhile_id)
    then have "hd (dropWhile is_space s) = x" "dropWhile is_space s \<noteq> []" using Cons by auto
    then have "\<not> is_space x" using hd_dropWhile by blast
    then show ?thesis unfolding Cons by simp
  qed
  moreover have "dropWhile is_space (rev ?t) = rev ?t" by simp
  ultimately show ?thesis by (simp add: trim_space_def)
qed

text \<open>\<open>strings.TrimPrefix\<close> and \<open>strings.TrimSuffix\<close>.\<close>

definition trim_prefix :: "string \<Rightarrow> string \<Rightarrow> string" where
  "trim_prefix p s = (if prefix p s then drop (length p) s else s)"

definition trim_suffix :: "string \<Rightarrow> string \<Rightarrow> string" where
  "trim_suffix q s = (if suffix q s then take (length s - length q) s else s)"

lemma trim_prefix_append [simp]: "trim_prefix p (p @ s) = s"
  by (simp add: trim_prefix_def)

lemma trim_suffix_append [simp]: "trim_suffix q (s @ q) = s"
  by (simp add: trim_suffix_def suffix_def)

text \<open>\<open>strings.Index\<close> and \<open>strings.Contains\<close>: the first position a substring starts at.\<close>

fun index_of :: "string \<Rightarrow> string \<Rightarrow> nat option" where
  "index_of sub [] = (if sub = [] then Some 0 else None)"
| "index_of sub (c # s) =
     (if prefix sub (c # s) then Some 0 else map_option Suc (index_of sub s))"

definition contains :: "string \<Rightarrow> string \<Rightarrow> bool" where
  "contains s sub \<longleftrightarrow> index_of sub s \<noteq> None"

lemma index_of_None_iff: "index_of sub s = None \<longleftrightarrow> \<not> sublist sub s"
  by (induction s) (auto simp: sublist_Cons_right prefix_def split: if_splits)

lemma contains_iff_sublist: "contains s sub \<longleftrightarrow> sublist sub s"
  by (simp add: contains_def index_of_None_iff)

lemma index_of_append:
  assumes "\<And>i. i < length a \<Longrightarrow> \<not> prefix sub (drop i (a @ sub @ b))"
  shows "index_of sub (a @ sub @ b) = Some (length a)"
  using assms
proof (induction a)
  case Nil
  have "prefix sub (sub @ b)" by simp
  then show ?case by (cases "sub @ b") (simp_all del: same_prefix_nil)
next
  case (Cons c a)
  have "\<not> prefix sub (c # a @ sub @ b)"
    using Cons.prems [of 0] by simp
  moreover have "index_of sub (a @ sub @ b) = Some (length a)"
  proof (rule Cons.IH)
    fix i assume "i < length a"
    then show "\<not> prefix sub (drop i (a @ sub @ b))"
      using Cons.prems [of "Suc i"] by simp
  qed
  ultimately show ?case by simp
qed

text \<open>\<open>strings.Split\<close> on a one-byte separator, and \<open>strings.Join\<close>.\<close>

fun split_on :: "char \<Rightarrow> string \<Rightarrow> string list" where
  "split_on c [] = [[]]"
| "split_on c (x # xs) =
     (if x = c then [] # split_on c xs
      else case split_on c xs of [] \<Rightarrow> [[x]] | w # ws \<Rightarrow> (x # w) # ws)"

fun join_with :: "string \<Rightarrow> string list \<Rightarrow> string" where
  "join_with sep [] = []"
| "join_with sep [x] = x"
| "join_with sep (x # y # ys) = x @ sep @ join_with sep (y # ys)"

lemma split_on_not_Nil [simp]: "split_on c s \<noteq> []"
  by (induction s) (auto split: list.splits)

lemma split_on_pieces: "w \<in> set (split_on c s) \<Longrightarrow> c \<notin> set w"
proof (induction s arbitrary: w)
  case Nil
  then show ?case by simp
next
  case (Cons x xs)
  then show ?case by (auto split: if_splits list.splits)
qed

lemma join_split_on: "join_with [c] (split_on c s) = s"
proof (induction s)
  case Nil
  then show ?case by simp
next
  case (Cons x xs)
  obtain w ws where "split_on c xs = w # ws"
    by (cases "split_on c xs") auto
  with Cons show ?case by (cases ws) auto
qed

lemma split_on_append_sep: "c \<notin> set w \<Longrightarrow> split_on c (w @ c # s) = w # split_on c s"
  by (induction w) auto

lemma split_on_no_sep: "c \<notin> set w \<Longrightarrow> split_on c w = [w]"
  by (induction w) auto

lemma split_join:
  "ws \<noteq> [] \<Longrightarrow> \<forall>w \<in> set ws. c \<notin> set w \<Longrightarrow> split_on c (join_with [c] ws) = ws"
proof (induction ws)
  case Nil
  then show ?case by simp
next
  case (Cons x xs)
  then show ?case
    by (cases xs) (auto simp: split_on_no_sep split_on_append_sep)
qed

section \<open>Keeping the first occurrence\<close>

text \<open>
  The loop with a \<open>seen\<close> map that appends a value the first time it meets it. The
  order of first occurrence is kept, which is why it is not \<open>remdups\<close>.
\<close>

fun dedup_from :: "'a list \<Rightarrow> 'a list \<Rightarrow> 'a list" where
  "dedup_from seen [] = []"
| "dedup_from seen (x # xs) =
     (if x \<in> set seen then dedup_from seen xs else x # dedup_from (x # seen) xs)"

abbreviation dedup :: "'a list \<Rightarrow> 'a list" where
  "dedup \<equiv> dedup_from []"

lemma set_dedup_from: "set (dedup_from seen xs) = set xs - set seen"
  by (induction seen xs rule: dedup_from.induct) auto

lemma set_dedup [simp]: "set (dedup xs) = set xs"
  by (simp add: set_dedup_from)

lemma distinct_dedup_from: "distinct (dedup_from seen xs)"
  by (induction seen xs rule: dedup_from.induct) (auto simp: set_dedup_from)

lemma distinct_dedup [simp]: "distinct (dedup xs)"
  by (rule distinct_dedup_from)

lemma dedup_from_distinct:
  "distinct xs \<Longrightarrow> set xs \<inter> set seen = {} \<Longrightarrow> dedup_from seen xs = xs"
  by (induction xs arbitrary: seen) auto

lemma dedup_distinct: "distinct xs \<Longrightarrow> dedup xs = xs"
  by (simp add: dedup_from_distinct)

lemma sort_dedup_cong:
  fixes xs ys :: "'a::linorder list"
  assumes "set xs = set ys"
  shows "sort (dedup xs) = sort (dedup ys)"
proof (rule sorted_distinct_set_unique)
  show "set (sort (dedup xs)) = set (sort (dedup ys))"
    using assms by simp
qed simp_all

section \<open>Tables\<close>

text \<open>
  A SQL table is the list of its rows, and a primary key is a function of the row.
  \<open>row_put\<close> is \<open>INSERT .. ON CONFLICT(key) DO UPDATE\<close>: a fresh key appends the inserted row,
  a known one replaces the stored row by \<open>upd stored inserted\<close>.
\<close>

definition row_get :: "('r \<Rightarrow> 'k) \<Rightarrow> 'k \<Rightarrow> 'r list \<Rightarrow> 'r option" where
  "row_get key k rows = find (\<lambda>r. key r = k) rows"

fun row_put :: "('r \<Rightarrow> 'k) \<Rightarrow> ('r \<Rightarrow> 'r \<Rightarrow> 'r) \<Rightarrow> 'r \<Rightarrow> 'r list \<Rightarrow> 'r list" where
  "row_put key upd r [] = [r]"
| "row_put key upd r (q # rows) =
     (if key q = key r then upd q r # rows else q # row_put key upd r rows)"

definition row_del :: "('r \<Rightarrow> bool) \<Rightarrow> 'r list \<Rightarrow> 'r list" where
  "row_del P rows = filter (\<lambda>r. \<not> P r) rows"

definition keyed :: "('r \<Rightarrow> 'k) \<Rightarrow> 'r list \<Rightarrow> bool" where
  "keyed key rows \<longleftrightarrow> distinct (map key rows)"

lemma row_get_Nil [simp]: "row_get key k [] = None"
  by (simp add: row_get_def)

lemma row_get_Cons: "row_get key k (r # rows) = (if key r = k then Some r else row_get key k rows)"
  by (simp add: row_get_def)

lemma row_get_Some: "row_get key k rows = Some r \<Longrightarrow> r \<in> set rows \<and> key r = k"
  by (induction rows) (auto simp: row_get_Cons split: if_splits)

lemma row_get_None: "row_get key k rows = None \<longleftrightarrow> (\<forall>r \<in> set rows. key r \<noteq> k)"
  by (induction rows) (auto simp: row_get_Cons)

text \<open>What a write returns to the next read, for any update that keeps the key.\<close>

lemma row_get_put [rows]:
  assumes "\<And>q. key q = key r \<Longrightarrow> key (upd q r) = key r"
  shows "row_get key k (row_put key upd r rows) =
    (if k = key r then Some (case row_get key k rows of None \<Rightarrow> r | Some q \<Rightarrow> upd q r)
     else row_get key k rows)"
  using assms by (induction rows) (auto simp: row_get_Cons)

lemma row_put_keys:
  assumes "\<And>q. key q = key r \<Longrightarrow> key (upd q r) = key r"
  shows "key ` set (row_put key upd r rows) = insert (key r) (key ` set rows)"
  using assms by (induction rows) auto

lemma keyed_row_put [keeps]:
  assumes "\<And>q. key q = key r \<Longrightarrow> key (upd q r) = key r" and "keyed key rows"
  shows "keyed key (row_put key upd r rows)"
  using assms(2)
proof (induction rows)
  case Nil
  then show ?case by (simp add: keyed_def)
next
  case (Cons q rows)
  then show ?case
    using assms(1) row_put_keys [of key r upd rows]
    by (cases "key q = key r") (auto simp: keyed_def)
qed

lemma row_get_del_key [rows]:
  "row_get key k (row_del (\<lambda>r. key r = k') rows) = (if k = k' then None else row_get key k rows)"
  by (induction rows) (auto simp: row_get_Cons row_del_def)

lemma row_del_set [simp]: "set (row_del P rows) = {r \<in> set rows. \<not> P r}"
  by (auto simp: row_del_def)

lemma keyed_row_del [keeps]: "keyed key rows \<Longrightarrow> keyed key (row_del P rows)"
  by (simp add: keyed_def row_del_def distinct_map_filter)

lemma row_put_set: "set (row_put key upd r rows) \<subseteq> insert r ((\<lambda>q. upd q r) ` set rows \<union> set rows)"
  by (induction rows) auto

lemma row_put_all [keeps]:
  assumes "list_all P rows" and "P r" and "\<And>q. P q \<Longrightarrow> key q = key r \<Longrightarrow> P (upd q r)"
  shows "list_all P (row_put key upd r rows)"
  using assms by (induction rows) auto

lemma row_del_all [keeps]: "list_all P rows \<Longrightarrow> list_all P (row_del Q rows)"
  by (simp add: list_all_iff)

lemma list_all_map [keeps]: "list_all P rows \<Longrightarrow> (\<And>r. P r \<Longrightarrow> P (f r)) \<Longrightarrow> list_all P (map f rows)"
  by (simp add: list_all_iff)

lemma keyed_map [keeps]: "keyed key rows \<Longrightarrow> (\<And>r. key (f r) = key r) \<Longrightarrow> keyed key (map f rows)"
  by (simp add: keyed_def comp_def)

lemma keyed_Nil [simp]: "keyed key []"
  by (simp add: keyed_def)

lemma row_get_map [rows]:
  "(\<And>r. key (f r) = key r) \<Longrightarrow> row_get key k (map f rows) = map_option f (row_get key k rows)"
  by (induction rows) (simp_all add: row_get_Cons)

lemma row_get_del_other [rows]:
  "(\<And>r. key r = k \<Longrightarrow> \<not> P r) \<Longrightarrow> row_get key k (row_del P rows) = row_get key k rows"
  by (induction rows) (auto simp: row_get_Cons row_del_def)

lemma row_get_del_of_key:
  "(\<And>r. P r \<longleftrightarrow> Q (key r)) \<Longrightarrow>
     row_get key k (row_del P rows) = (if Q k then None else row_get key k rows)"
  by (induction rows) (auto simp: row_get_Cons row_del_def)

lemma row_get_mem: "keyed key rows \<Longrightarrow> r \<in> set rows \<Longrightarrow> row_get key (key r) rows = Some r"
  by (induction rows) (auto simp: row_get_Cons keyed_def)

lemma filter_row_put:
  assumes "\<And>q. key q = key r \<Longrightarrow> key (upd q r) = key r" and "\<And>q. P q \<longleftrightarrow> key q = key r"
  shows "filter (\<lambda>q. \<not> P q) (row_put key upd r rows) = filter (\<lambda>q. \<not> P q) rows"
  using assms by (induction rows) auto

section \<open>Formatting\<close>

text \<open>
  \<open>%d\<close> and \<open>time.Duration\<close>'s \<open>String\<close> and \<open>Round\<close>, which the recorded error texts and the
  fallback reason are built with. \<open>Round\<close> goes half away from zero and saturates at \<open>int64\<close>.
\<close>

function digits :: "int \<Rightarrow> string" where
  "digits n = (if n < 10 then [char_of (48 + n)] else digits (n div 10) @ [char_of (48 + n mod 10)])"
  by pat_completeness auto

termination
  by (relation "measure nat") auto

declare digits.simps [simp del]

definition show_int :: "int \<Rightarrow> string" where
  "show_int i = (if i < 0 then ''-'' @ digits (- i) else digits i)"

text \<open>\<open>%v\<close> of a slice of strings.\<close>

definition show_names :: "string list \<Rightarrow> string" where
  "show_names ns = ''['' @ join_with '' '' ns @ '']''"

definition int64_sat :: "int \<Rightarrow> duration" where
  "int64_sat i = max (- (2 ^ 63)) (min (2 ^ 63 - 1) i)"

definition duration_neg :: "duration \<Rightarrow> duration" where
  "duration_neg d = (if d = - (2 ^ 63) then d else - d)"

definition duration_round :: "duration \<Rightarrow> duration \<Rightarrow> duration" where
  "duration_round m d =
     (if m \<le> 0 then d
      else let a = \<bar>d\<bar>; r = a mod m; up = (if r + r < m then a - r else a + m - r)
           in int64_sat (if d < 0 then - up else up))"

definition fraction :: "nat \<Rightarrow> int \<Rightarrow> string" where
  "fraction prec n =
     (let f = n mod 10 ^ prec; ds = (if f = 0 then [] else digits f);
          padded = replicate (prec - length ds) (CHR ''0'') @ ds;
          cut = rev (dropWhile (\<lambda>c. c = CHR ''0'') (rev padded))
      in if cut = [] then [] else CHR ''.'' # cut)"

definition micro_unit :: string where
  "micro_unit = [char_of (194 :: nat), char_of (181 :: nat), CHR ''s'']"

definition duration_string :: "duration \<Rightarrow> string" where
  "duration_string d =
     (let u = \<bar>d\<bar>; sign = (if d < 0 then ''-'' else '''');
          secs = u div 1000000000; mins = secs div 60; hours = mins div 60
      in if u = 0 then ''0s''
         else if u < 1000 then sign @ show_int u @ ''ns''
         else if u < 1000000 then sign @ show_int (u div 1000) @ fraction 3 u @ micro_unit
         else if u < 1000000000 then sign @ show_int (u div 1000000) @ fraction 6 u @ ''ms''
         else sign
           @ (if hours > 0 then show_int hours @ ''h'' else '''')
           @ (if mins > 0 then show_int (mins mod 60) @ ''m'' else '''')
           @ show_int (secs mod 60) @ fraction 9 u @ ''s'')"

end
