(* ===== verification/RateLimit.thy ===== *)
theory RateLimit
  imports Complex_Main Prelude
begin

text \<open>
  \<open>internal/ratelimit/ratelimit.go\<close>: a published rate limit as a token bucket
  (\<open>Limit\<close>, \<open>Snapshot\<close>, \<open>level\<close>, \<open>Remaining\<close>, \<open>Spend\<close>), the table of limits, and the two
  readers of a CA-reported deadline (\<open>ParseRetryAfter\<close>, \<open>ParseRetryAfterHeaderAt\<close>).

  Token counts are Go \<open>float64\<close>. The definitions take the rounding of one \<open>float64\<close> operation
  as the argument \<open>fl\<close> and apply it wherever the code rounds; \<open>rounding\<close> states
  what is used of it. Taking \<open>fl\<close> to be the identity gives exact arithmetic, the setting of the
  throughput bound. NaN and the infinities do not occur below \<open>Tracker.Spend\<close>, which filters
  them. \<open>time.Parse\<close> and \<open>http.ParseTime\<close> are fields of the record \<open>timelib\<close>.
\<close>

section \<open>Limits\<close>

record limit =
  l_name :: string
  l_scope :: string
  l_capacity :: rat
  l_refill :: duration
  l_spent_by_ca :: bool

definition new_orders_per_account :: limit where
  "new_orders_per_account = \<lparr>l_name = ''new-orders'', l_scope = ''account'',
     l_capacity = 300, l_refill = 36 * ns_second, l_spent_by_ca = False\<rparr>"

definition certs_per_registered_domain :: limit where
  "certs_per_registered_domain = \<lparr>l_name = ''certs-per-registered-domain'',
     l_scope = ''registered-domain'', l_capacity = 50, l_refill = 202 * ns_minute,
     l_spent_by_ca = False\<rparr>"

definition certs_per_exact_identifier_set :: limit where
  "certs_per_exact_identifier_set = \<lparr>l_name = ''certs-per-exact-identifier-set'',
     l_scope = ''exact-identifier-set'', l_capacity = 5, l_refill = 34 * ns_hour,
     l_spent_by_ca = False\<rparr>"

definition authz_failures_per_identifier :: limit where
  "authz_failures_per_identifier = \<lparr>l_name = ''authz-failures-per-identifier'',
     l_scope = ''identifier'', l_capacity = 5, l_refill = 12 * ns_minute,
     l_spent_by_ca = False\<rparr>"

definition consecutive_authz_failures :: limit where
  "consecutive_authz_failures = \<lparr>l_name = ''consecutive-authz-failures-per-identifier'',
     l_scope = ''identifier'', l_capacity = 1152, l_refill = 24 * ns_hour,
     l_spent_by_ca = True\<rparr>"

lemmas limit_defs = new_orders_per_account_def certs_per_registered_domain_def
  certs_per_exact_identifier_set_def authz_failures_per_identifier_def consecutive_authz_failures_def

definition spendable :: "limit list" where
  "spendable = [new_orders_per_account, certs_per_registered_domain,
     certs_per_exact_identifier_set, authz_failures_per_identifier]"

definition reportable :: "limit list" where
  "reportable = spendable @ [consecutive_authz_failures]"

section \<open>The token bucket\<close>

record snapshot =
  s_tokens :: rat
  s_at :: instant

definition level :: "(rat \<Rightarrow> rat) \<Rightarrow> snapshot \<Rightarrow> limit \<Rightarrow> instant \<Rightarrow> rat" where
  "level fl s l now =
     (if l_capacity l \<le> 0 then 0
      else if s_at s = zero_time then l_capacity l
      else if l_refill l \<le> 0 then s_tokens s
      else if s_at s < now then
        (let elapsed = time_sub now (s_at s);
             whole = fl (of_int (elapsed div l_refill l));
             frac = fl (fl (of_int (elapsed mod l_refill l)) / fl (of_int (l_refill l)))
         in fl (s_tokens s + fl (whole + frac)))
      else s_tokens s)"

definition remaining :: "(rat \<Rightarrow> rat) \<Rightarrow> snapshot \<Rightarrow> limit \<Rightarrow> instant \<Rightarrow> rat" where
  "remaining fl s l now =
     (let tokens = level fl s l now;
          tokens = (if l_capacity l < tokens then l_capacity l else tokens)
      in if tokens < 0 then 0 else tokens)"

definition spend :: "(rat \<Rightarrow> rat) \<Rightarrow> snapshot \<Rightarrow> limit \<Rightarrow> rat \<Rightarrow> instant \<Rightarrow> snapshot" where
  "spend fl s l cost now =
     (if l_capacity l \<le> 0 then \<lparr>s_tokens = 0, s_at = now\<rparr>
      else
        let cost = (if cost < 0 then 0 else cost);
            now = (if now < s_at s then s_at s else now);
            tokens = fl (min (level fl s l now) (l_capacity l) - cost);
            tokens = (if tokens < - l_capacity l then - l_capacity l else tokens)
        in \<lparr>s_tokens = tokens, s_at = now\<rparr>)"

text \<open>What is used of a \<open>float64\<close> operation: it is monotone and keeps a representable number.\<close>

definition rounding :: "(rat \<Rightarrow> rat) \<Rightarrow> bool" where
  "rounding fl \<longleftrightarrow> mono fl \<and> (\<forall>x. fl (fl x) = fl x) \<and> fl 0 = 0"

lemma rounding_id: "rounding (\<lambda>x. x)"
  by (simp add: rounding_def mono_def)

lemma remaining_bounds:
  "0 \<le> l_capacity l \<Longrightarrow> 0 \<le> remaining fl s l now \<and> remaining fl s l now \<le> l_capacity l"
  by (simp add: remaining_def Let_def)

text \<open>
  Whatever the rounding, the stored count never leaves \<open>[-capacity, capacity]\<close> and the
  anchor never moves backwards, so no interval is credited twice: a spend under a clock that
  stepped back keeps the stored instant, and a negative cost is not a credit.
\<close>

theorem spend_bounds:
  assumes "rounding fl" and "0 < l_capacity l" and "fl (l_capacity l) = l_capacity l"
  shows "- l_capacity l \<le> s_tokens (spend fl s l cost now) \<and>
    s_tokens (spend fl s l cost now) \<le> l_capacity l \<and>
    s_at (spend fl s l cost now) = max (s_at s) now \<and>
    (cost \<le> 0 \<longrightarrow> spend fl s l cost now = spend fl s l 0 now)"
proof -
  have up: "fl (min x (l_capacity l) - (if cost < 0 then 0 else cost)) \<le> l_capacity l" for x
  proof -
    have "fl (min x (l_capacity l) - (if cost < 0 then 0 else cost)) \<le> fl (l_capacity l)"
      using assms(1) by (intro monoD [of fl]) (auto simp: rounding_def min_def)
    then show ?thesis using assms(3) by simp
  qed
  show ?thesis
    using assms(2) up by (auto simp: spend_def Let_def max_def)
qed

theorem spend_bounds_witness:
  "s_at (spend (\<lambda>x. x) \<lparr>s_tokens = 5, s_at = 100\<rparr> certs_per_exact_identifier_set 1 40) = 100"
proof -
  have h: "rounding (\<lambda>x. x)" "0 < l_capacity certs_per_exact_identifier_set" "l_capacity certs_per_exact_identifier_set =
    l_capacity certs_per_exact_identifier_set"
    by (simp_all add: rounding_id limit_defs)
  show ?thesis using spend_bounds [OF h, of "\<lparr>s_tokens = 5, s_at = 100\<rparr>" 1 40] by simp
qed

section \<open>Throughput\<close>

lemma whole_plus_frac:
  assumes "0 < (R::int)"
  shows "(of_int (e div R) :: rat) + of_int (e mod R) / of_int R = of_int e / of_int R"
proof -
  have "(of_int e :: rat) = of_int (e div R) * of_int R + of_int (e mod R)"
    by (metis div_mult_mod_eq of_int_add of_int_mult)
  then show ?thesis using assms by (simp add: field_simps)
qed

lemma level_le:
  assumes "0 < l_capacity l" "0 < l_refill l" "s_at s \<noteq> zero_time"
  shows "level (\<lambda>x. x) s l (max (s_at s) now) \<le>
    s_tokens s + of_int (max (s_at s) now - s_at s) / of_int (l_refill l)"
proof (cases "s_at s < now")
  case True
  then have "time_sub now (s_at s) \<le> now - s_at s" by (simp add: time_sub_le)
  then have "(of_int (time_sub now (s_at s)) :: rat) / of_int (l_refill l) \<le>
      of_int (now - s_at s) / of_int (l_refill l)"
    using assms(2) by (intro divide_right_mono) (simp_all del: of_int_diff)
  then show ?thesis
    using True assms by (simp add: level_def Let_def whole_plus_frac max_def del: of_int_diff)
next
  case False
  then show ?thesis using assms by (simp add: level_def max_def)
qed

type_synonym spend_event = "rat \<times> instant"

fun spend_run :: "limit \<Rightarrow> snapshot \<Rightarrow> spend_event list \<Rightarrow> snapshot" where
  "spend_run l s [] = s"
| "spend_run l s ((c, now) # es) = spend_run l (spend (\<lambda>x. x) s l c now) es"

fun affordable :: "limit \<Rightarrow> snapshot \<Rightarrow> spend_event list \<Rightarrow> bool" where
  "affordable l s [] = True"
| "affordable l s ((c, now) # es) =
     (0 \<le> c \<and> c \<le> remaining (\<lambda>x. x) s l now \<and> affordable l (spend (\<lambda>x. x) s l c now) es)"

definition total_spent :: "spend_event list \<Rightarrow> rat" where
  "total_spent es = sum_list (map fst es)"

lemma clamp_low: "s_tokens \<lparr>s_tokens = if x < (- k :: rat) then - k else x, s_at = n\<rparr> = max (- k) x"
  by simp

lemma spend_step:
  assumes "0 < l_capacity l" "0 < l_refill l" "s_at s \<noteq> zero_time" "zero_time < s_at s"
    and "0 \<le> c" "c \<le> remaining (\<lambda>x. x) s l now"
  defines "s' \<equiv> spend (\<lambda>x. x) s l c now"
  shows "c + max 0 (s_tokens s') \<le> max 0 (s_tokens s) + of_int (s_at s' - s_at s) / of_int (l_refill l)"
    "zero_time < s_at s'" "s_tokens s' \<le> l_capacity l" "s_at s \<le> s_at s'"
proof -
  let ?n = "max (s_at s) now"
  let ?v = "level (\<lambda>x. x) s l ?n"
  have n: "(if now < s_at s then s_at s else now) = ?n" by (simp add: max_def)
  have at: "s_at s' = ?n" using assms(1) by (simp add: s'_def spend_def Let_def n)
  show "zero_time < s_at s'" "s_at s \<le> s_at s'" using at assms(4) by auto
  obtain v where v: "level (\<lambda>x. x) s l now = v" "?v = v"
    using assms(1-3) by (cases "now < s_at s") (auto simp: level_def max_def)
  have tok: "s_tokens s' = max (- l_capacity l) (min v (l_capacity l) - c)"
    using assms(1,5) unfolding s'_def spend_def Let_def n v by simp
  have c: "c \<le> max 0 (min v (l_capacity l))"
    using assms(6) by (simp add: remaining_def Let_def v max_def min_def split: if_splits)
  have "c + max 0 (s_tokens s') \<le> max 0 v"
    unfolding tok using c assms(1,5) by linarith
  moreover have "0 \<le> (of_int (?n - s_at s) :: rat) / of_int (l_refill l)"
    using assms(2) by (intro divide_nonneg_pos) simp_all
  moreover have "v \<le> s_tokens s + of_int (?n - s_at s) / of_int (l_refill l)"
    using level_le [OF assms(1-3), of now] v by simp
  ultimately show "c + max 0 (s_tokens s') \<le>
      max 0 (s_tokens s) + of_int (s_at s' - s_at s) / of_int (l_refill l)"
    unfolding at by linarith
  show "s_tokens s' \<le> l_capacity l" unfolding tok using assms(1,5) by simp
qed

lemma spend_run_conserves:
  assumes "0 < l_capacity l" "0 < l_refill l" "zero_time < s_at s" "affordable l s es"
  shows "total_spent es + max 0 (s_tokens (spend_run l s es)) \<le>
    max 0 (s_tokens s) + of_int (s_at (spend_run l s es) - s_at s) / of_int (l_refill l)"
  using assms(3,4)
proof (induction es arbitrary: s)
  case (Cons e es)
  obtain c now where e: "e = (c, now)" by (cases e)
  let ?s = "spend (\<lambda>x. x) s l c now"
  have a: "0 \<le> c" "c \<le> remaining (\<lambda>x. x) s l now" "affordable l ?s es"
    using Cons.prems(2) e by simp_all
  note S = spend_step [OF assms(1,2) _ Cons.prems(1) a(1,2)]
  have IH: "total_spent es + max 0 (s_tokens (spend_run l ?s es)) \<le>
      max 0 (s_tokens ?s) + of_int (s_at (spend_run l ?s es) - s_at ?s) / of_int (l_refill l)"
    using Cons.IH [OF _ a(3)] S(2) Cons.prems(1) by simp
  have "(of_int (s_at (spend_run l ?s es) - s_at s) :: rat) / of_int (l_refill l) =
      of_int (s_at (spend_run l ?s es) - s_at ?s) / of_int (l_refill l) +
      of_int (s_at ?s - s_at s) / of_int (l_refill l)"
    by (simp add: diff_divide_distrib)
  then show ?case using IH S(1) Cons.prems(1) e by (simp add: total_spent_def)
qed (simp add: total_spent_def)

text \<open>
  The bucket enforces its published rate (in exact arithmetic): whatever is spent
  while \<open>Remaining\<close> allows it, from a bucket holding at most its capacity, the total is at most the
  capacity plus one token per refill interval of the time the anchor advanced. The clock may
  step backwards between spends without adding a token.
\<close>

theorem bucket_throughput:
  assumes "0 < l_capacity l" and "0 < l_refill l" and "zero_time < s_at s"
    and "s_tokens s \<le> l_capacity l" and "affordable l s es"
  shows "total_spent es \<le>
    l_capacity l + of_int (s_at (spend_run l s es) - s_at s) / of_int (l_refill l)"
  using spend_run_conserves [OF assms(1,2,3,5)] assms(1,4) by (simp add: max_def split: if_splits)

theorem bucket_throughput_witness:
  "total_spent [(1, 100), (1, 90), (3, 95)] \<le>
     (5::rat) + of_int (s_at (spend_run certs_per_exact_identifier_set \<lparr>s_tokens = 5, s_at = 100\<rparr>
        [(1, 100), (1, 90), (3, 95)]) - 100) / of_int (34 * ns_hour)"
proof -
  let ?l = "certs_per_exact_identifier_set"
  let ?s = "\<lparr>s_tokens = 5, s_at = 100\<rparr>"
  have h: "0 < l_capacity ?l" "0 < l_refill ?l" "zero_time < s_at ?s" "s_tokens ?s \<le> l_capacity ?l"
    by (simp_all add: limit_defs ns_hour_def zero_time_def)
  have "affordable ?l ?s [(1, 100), (1, 90), (3, 95)]"
    by (simp add: limit_defs ns_hour_def zero_time_def remaining_def spend_def level_def)
  from bucket_throughput [OF h this] show ?thesis by (simp add: limit_defs)
qed

section \<open>The CA's own deadline\<close>

text \<open>
  \<open>time.Parse\<close> by layout, and \<open>http.ParseTime\<close>: an instant, or nothing where Go returns an
  error.
\<close>

record timelib =
  time_parse :: "string \<Rightarrow> string \<Rightarrow> instant option"
  http_parse_time :: "string \<Rightarrow> instant option"

definition trailing_char :: "char \<Rightarrow> bool" where
  "trailing_char c \<longleftrightarrow> c \<in> {CHR ''.'', CHR '','', CHR '';'', CHR 0x0A, CHR 0x0D, CHR '' '', CHR 0x09}"

definition trim_trailing :: "string \<Rightarrow> string" where
  "trim_trailing s = rev (dropWhile trailing_char (rev s))"

definition retry_marker :: string where "retry_marker = ''retry after ''"
definition see_marker :: string where "see_marker = '': see ''"

definition layout_seconds :: string where "layout_seconds = ''2006-01-02 15:04:05 MST''"
definition layout_fraction :: string where "layout_fraction = ''2006-01-02 15:04:05.999999999 MST''"

text \<open>The layouts are tried in turn; the first that parses decides, also when it says \<open>zero\<close>.\<close>

fun try_layouts :: "timelib \<Rightarrow> string list \<Rightarrow> string \<Rightarrow> instant option" where
  "try_layouts T [] rest = None"
| "try_layouts T (l # ls) rest =
     (case time_parse T l rest of
        Some t \<Rightarrow> (if t = zero_time then None else Some t)
      | None \<Rightarrow> try_layouts T ls rest)"

definition parse_retry_after :: "timelib \<Rightarrow> string \<Rightarrow> instant option" where
  "parse_retry_after T msg =
     (case index_of retry_marker msg of
        None \<Rightarrow> None
      | Some i \<Rightarrow>
          (let rest = drop (i + length retry_marker) msg;
               rest = (case index_of see_marker rest of Some j \<Rightarrow> take j rest | None \<Rightarrow> rest);
               rest = trim_trailing rest
           in try_layouts T [layout_seconds, layout_fraction] rest))"

lemma parse_retry_after_nonzero: "parse_retry_after T msg = Some t \<Longrightarrow> t \<noteq> zero_time"
  by (auto simp: parse_retry_after_def Let_def split: option.splits if_splits)

lemma index_of_extend: "index_of sub (a @ sub) = Some (length a) \<Longrightarrow> index_of sub (a @ sub @ b) = Some (length a)"
proof (induction a)
  case Nil
  have "prefix sub (sub @ b)" by simp
  then show ?case by (cases "sub @ b") simp_all
next
  case (Cons c a)
  have eq: "prefix sub (c # a @ sub @ b) \<longleftrightarrow> prefix sub (c # a @ sub)"
  proof -
    have "prefix sub ((c # a @ sub) @ b) \<longleftrightarrow> prefix sub (c # a @ sub)"
      by (subst prefix_append) auto
    then show ?thesis by simp
  qed
  show ?case using Cons eq by (auto split: if_splits)
qed

lemma trim_trailing_id: "stamp \<noteq> [] \<Longrightarrow> \<not> trailing_char (last stamp) \<Longrightarrow> trim_trailing stamp = stamp"
proof -
  assume "stamp \<noteq> []" "\<not> trailing_char (last stamp)"
  then have "dropWhile trailing_char (rev stamp) = rev stamp"
    by (simp only: dropWhile_eq_self_iff hd_rev) simp
  then show ?thesis by (simp add: trim_trailing_def)
qed

text \<open>
  A refusal of the documented shape, in whatever prose and with the documentation link after
  it, yields exactly the instant it names: the stamp is read up to \<open>: see \<close>, not to the
  end of the message.
\<close>

theorem parse_retry_after_reads_stamp:
  assumes "index_of retry_marker (prose @ retry_marker) = Some (length prose)"
    and "index_of see_marker (stamp @ see_marker) = Some (length stamp)"
    and "stamp \<noteq> []" and "\<not> trailing_char (last stamp)"
    and "time_parse T layout_seconds stamp = Some t" and "t \<noteq> zero_time"
  shows "parse_retry_after T (prose @ retry_marker @ stamp @ see_marker @ link) = Some t"
proof -
  have "index_of retry_marker (prose @ retry_marker @ stamp @ see_marker @ link) = Some (length prose)"
    using index_of_extend [OF assms(1)] by simp
  moreover have "index_of see_marker (stamp @ see_marker @ link) = Some (length stamp)"
    using index_of_extend [OF assms(2)] by simp
  ultimately show ?thesis
    using assms(5,6) trim_trailing_id [OF assms(3,4)] by (simp add: parse_retry_after_def)
qed

definition sample_time :: timelib where
  "sample_time = \<lparr>time_parse = (\<lambda>l s. if l = layout_seconds \<and> s = ''2026-09-18 12:34:56 UTC''
       then Some 1789734896000000000 else None),
     http_parse_time = (\<lambda>_. None)\<rparr>"

theorem parse_retry_after_reads_stamp_witness:
  "parse_retry_after sample_time
     (''too many new orders recently, '' @ retry_marker @ ''2026-09-18 12:34:56 UTC'' @ see_marker @
      ''https://letsencrypt.org/docs/rate-limits/'') = Some 1789734896000000000"
proof -
  have "index_of retry_marker (''too many new orders recently, '' @ retry_marker) =
      Some (length ''too many new orders recently, '')"
    "index_of see_marker (''2026-09-18 12:34:56 UTC'' @ see_marker) = Some (length ''2026-09-18 12:34:56 UTC'')"
    "''2026-09-18 12:34:56 UTC'' \<noteq> []" "\<not> trailing_char (last ''2026-09-18 12:34:56 UTC'')"
    "time_parse sample_time layout_seconds ''2026-09-18 12:34:56 UTC'' = Some 1789734896000000000"
    "(1789734896000000000 :: instant) \<noteq> zero_time" by code_simp+
  then show ?thesis by (rule parse_retry_after_reads_stamp)
qed

text \<open>\<open>strconv.Atoi\<close> on a 64-bit platform: an optional sign, digits, in the range of \<open>int64\<close>.\<close>

definition digit_val :: "char \<Rightarrow> int option" where
  "digit_val c = (let n = (of_char c :: nat) in if 48 \<le> n \<and> n \<le> 57 then Some (int (n - 48)) else None)"

fun digits_val :: "int \<Rightarrow> string \<Rightarrow> int option" where
  "digits_val acc [] = Some acc"
| "digits_val acc (c # cs) =
     (case digit_val c of None \<Rightarrow> None | Some d \<Rightarrow> digits_val (acc * 10 + d) cs)"

definition atoi :: "string \<Rightarrow> int option" where
  "atoi s =
     (let (sign, ds) = (case s of
          [] \<Rightarrow> (1, [])
        | c # cs \<Rightarrow> (if c = CHR ''-'' then (-1, cs) else if c = CHR ''+'' then (1, cs) else (1, s)))
      in if ds = [] then None
         else case digits_val 0 ds of
             None \<Rightarrow> None
           | Some v \<Rightarrow> (if - (2 ^ 63) \<le> sign * v \<and> sign * v < 2 ^ 63 then Some (sign * v) else None))"

definition max_int64 :: int where "max_int64 = 9223372036854775807"

definition parse_retry_after_header_at :: "timelib \<Rightarrow> string \<Rightarrow> instant \<Rightarrow> instant option" where
  "parse_retry_after_header_at T value now =
     (let v = trim_space value in
      if v = [] then None
      else case atoi v of
          Some secs \<Rightarrow>
            (if secs \<le> 0 then None
             else if max_int64 div ns_second < secs then None
             else Some (now + secs * ns_second))
        | None \<Rightarrow>
            (case http_parse_time T v of
               Some t \<Rightarrow> (if t \<noteq> zero_time then Some t else None)
             | None \<Rightarrow> None))"

text \<open>
  The delay form of a Retry-After header never wraps: the deadline it gives lies
  strictly after the instant it was read at and within the range of a \<open>time.Duration\<close>; a
  non-positive or overflowing delay gives no deadline at all.
\<close>

theorem retry_after_delay_bounds:
  assumes "atoi (trim_space value) = Some secs" and "trim_space value \<noteq> []"
  shows "case parse_retry_after_header_at T value now of
      Some t \<Rightarrow> now < t \<and> t - now = secs * ns_second \<and> t - now \<le> max_int64
    | None \<Rightarrow> secs \<le> 0 \<or> max_int64 < secs * ns_second"
  using assms by (auto simp: parse_retry_after_header_at_def Let_def ns_second_def max_int64_def)

theorem retry_after_delay_bounds_witness:
  "parse_retry_after_header_at sample_time '' 120 '' 7 = Some 120000000007"
proof -
  have h: "atoi (trim_space '' 120 '') = Some 120" "trim_space '' 120 '' \<noteq> []" by code_simp+
  have "case parse_retry_after_header_at sample_time '' 120 '' 7 of
      Some t \<Rightarrow> 7 < t \<and> t - 7 = 120 * ns_second \<and> t - 7 \<le> max_int64
    | None \<Rightarrow> (120::int) \<le> 0 \<or> max_int64 < 120 * ns_second"
    by (rule retry_after_delay_bounds [OF h])
  then show ?thesis
    by (auto simp: ns_second_def max_int64_def split: option.splits)
qed

end
