(* ===== verification/Store.thy ===== *)
theory Store
  imports Complex_Main Prelude
begin

text \<open>
  \<open>internal/state\<close>: the tables of the state database and the operations of \<open>state.Store\<close>
  on them (\<open>certs.go\<close>, \<open>orders.go\<close>, \<open>authz.go\<close>, \<open>retired.go\<close>, \<open>fallback.go\<close>,
  \<open>identifier_by_name.go\<close>, \<open>ratelimit.go\<close>, \<open>revoke.go\<close>, \<open>probes.go\<close>, \<open>accounts.go\<close>, \<open>tx.go\<close>).

  \<^item> A table is the list of its rows, a row the Go struct of \<open>types.go\<close> in the form it is
    read back: an instant has gone through \<open>toUnix\<close> and \<open>fromUnix\<close> (\<open>stored\<close>), which
    drops everything below a second. A comparison inside a statement is on the column's
    integer (\<open>to_unix\<close>).
  \<^item> \<open>time.Now()\<close> inside an operation is its argument \<open>now\<close>.
  \<^item> Every operation holds the store's mutex, so it is one function from state to state. What
    a statement can refuse on its own (a missing row, an empty id, a moved key) is a branch
    of the operation; the driver failing is a branch of the operation's caller, which sees the
    database unchanged.
  \<^item> The sealer is absent (\<open>s.sealer == nil\<close>): key material is stored as it is given.
\<close>

section \<open>Instants on disk\<close>

definition unix :: "instant \<Rightarrow> int" where
  "unix t = t div ns_second"

definition to_unix :: "instant \<Rightarrow> int" where
  "to_unix t = (if t = zero_time then 0 else unix t)"

definition from_unix :: "int \<Rightarrow> instant" where
  "from_unix v = (if v = 0 then zero_time else v * ns_second)"

abbreviation stored :: "instant \<Rightarrow> instant" where
  "stored t \<equiv> from_unix (to_unix t)"

lemma stored_zero [simp]: "stored zero_time = zero_time"
  by (simp add: to_unix_def from_unix_def)

lemma to_unix_zero [simp]: "to_unix zero_time = 0"
  by (simp add: to_unix_def)

lemma from_unix_0 [simp]: "from_unix 0 = zero_time"
  by (simp add: from_unix_def)

lemma unix_mult [simp]: "unix (v * ns_second) = v"
  by (simp add: unix_def ns_defs)

lemma to_unix_from_unix: "v \<noteq> unix zero_time \<Longrightarrow> to_unix (from_unix v) = v"
proof -
  assume v: "v \<noteq> unix zero_time"
  show ?thesis
  proof (cases "v = 0")
    case False
    have "v * ns_second \<noteq> zero_time"
    proof
      assume e: "v * ns_second = zero_time"
      have "unix (v * ns_second) = unix zero_time" unfolding e ..
      then show False using v by simp
    qed
    then show ?thesis using False by (simp add: from_unix_def to_unix_def)
  qed simp
qed

lemma zero_time_second: "zero_time = unix zero_time * ns_second"
  by (simp add: unix_def zero_time_def ns_defs)

lemma from_unix_unix_zero [simp]: "from_unix (unix zero_time) = zero_time"
  by (simp add: from_unix_def unix_def zero_time_def ns_defs)

lemma stored_idem [simp]: "stored (stored t) = stored t"
proof (cases "to_unix t = unix zero_time")
  case True
  then show ?thesis by simp
next
  case False
  then show ?thesis by (simp add: to_unix_from_unix)
qed

lemma to_unix_0_iff: "to_unix t = 0 \<longleftrightarrow> t = zero_time \<or> (0 \<le> t \<and> t < ns_second)"
  by (auto simp: to_unix_def unix_def ns_defs div_eq_0_iff pos_imp_zdiv_nonneg_iff)

text \<open>What the truncation to seconds keeps: a later instant is never stored as an earlier one.\<close>

lemma stored_le: "ns_second \<le> t \<Longrightarrow> stored t \<le> t \<and> t < stored t + ns_second"
proof -
  assume t: "ns_second \<le> t"
  then have "t \<noteq> zero_time" by (simp add: zero_time_def ns_defs)
  moreover have "unix t \<noteq> 0" using t by (simp add: unix_def ns_defs div_eq_0_iff)
  ultimately have "stored t = t div ns_second * ns_second"
    by (simp add: to_unix_def from_unix_def unix_def)
  then show ?thesis by (simp add: ns_defs minus_mod_eq_div_mult [symmetric])
qed

lemma stored_mono: "ns_second \<le> t \<Longrightarrow> t \<le> u \<Longrightarrow> stored t \<le> stored u"
proof -
  assume t: "ns_second \<le> t" "t \<le> u"
  have st: "stored x = x div ns_second * ns_second" if "ns_second \<le> x" for x
  proof -
    have "x \<noteq> zero_time" "unix x \<noteq> 0"
      using that by (simp_all add: zero_time_def unix_def ns_defs div_eq_0_iff)
    then show ?thesis by (simp add: to_unix_def from_unix_def unix_def)
  qed
  have "t div ns_second \<le> u div ns_second"
    using t(2) by (intro zdiv_mono1) (simp_all add: ns_defs)
  then show ?thesis using st [OF t(1)] st [of u] t by (simp add: ns_defs)
qed

section \<open>Bounding error text\<close>

text \<open>
  \<open>truncate\<close> cuts at most \<open>n\<close> bytes off the front, walking back to the start of a UTF-8
  sequence (\<open>utf8.RuneStart\<close>: not a continuation byte).
\<close>

definition max_last_error_bytes :: nat where "max_last_error_bytes = 512"

definition rune_start :: "char \<Rightarrow> bool" where
  "rune_start c \<longleftrightarrow> (of_char c :: nat) div 64 \<noteq> 2"

fun rune_cut :: "string \<Rightarrow> nat \<Rightarrow> nat" where
  "rune_cut s 0 = 0"
| "rune_cut s (Suc n) = (if rune_start (s ! Suc n) then Suc n else rune_cut s n)"

definition truncate_text :: "string \<Rightarrow> nat \<Rightarrow> string" where
  "truncate_text s n = (if length s \<le> n then s else take (rune_cut s n) s @ ''...'')"

text \<open>The shape of UTF-8: a lead byte says how many continuation bytes follow it.\<close>

definition rune_len :: "char \<Rightarrow> nat" where
  "rune_len c = (let n = (of_char c :: nat) in
     if n < 128 then 1 else if n < 192 then 0 else if n < 224 then 2
     else if n < 240 then 3 else if n < 248 then 4 else 0)"

fun utf8_ok :: "string \<Rightarrow> bool" where
  "utf8_ok [] = True"
| "utf8_ok (c # cs) =
     (let k = rune_len c - 1 in 0 < rune_len c \<and> k \<le> length cs \<and>
        (\<forall>x \<in> set (take k cs). \<not> rune_start x) \<and> utf8_ok (drop k cs))"

lemma rune_cut_le: "rune_cut s n \<le> n"
  by (induction s n rule: rune_cut.induct) (auto simp: le_Suc_eq)

lemma rune_cut_start: "rune_cut s n = 0 \<or> rune_start (s ! rune_cut s n)"
  by (induction s n rule: rune_cut.induct) auto

lemma utf8_ok_take:
  "utf8_ok s \<Longrightarrow> k = 0 \<or> (k < length s \<and> rune_start (s ! k)) \<Longrightarrow> utf8_ok (take k s)"
proof (induction s arbitrary: k rule: utf8_ok.induct)
  case 1
  then show ?case by simp
next
  case (2 c cs)
  let ?r = "rune_len c - 1"
  show ?case
  proof (cases k)
    case 0
    then show ?thesis by simp
  next
    case (Suc j)
    with "2.prems" have j: "j < length cs" "rune_start (cs ! j)" by auto
    have r: "0 < rune_len c" "?r \<le> length cs" "\<forall>x \<in> set (take ?r cs). \<not> rune_start x"
      and ok: "utf8_ok (drop ?r cs)"
      using "2.prems"(1) by (auto simp: Let_def)
    have le: "?r \<le> j"
    proof (rule ccontr)
      assume "\<not> ?r \<le> j"
      then have "cs ! j \<in> set (take ?r cs)"
        using j(1) by (auto simp: in_set_conv_nth)
      then show False using r(3) j(2) by blast
    qed
    have "utf8_ok (take (j - ?r) (drop ?r cs))"
      by (rule "2.IH") (use ok j le in auto)
    then have "utf8_ok (drop ?r (take j cs))"
      by (simp add: drop_take)
    moreover have "take ?r (take j cs) = take ?r cs" using le by simp
    ultimately show ?thesis using Suc r le j(1) by (simp add: Let_def min_def)
  qed
qed

lemma utf8_ok_append: "utf8_ok a \<Longrightarrow> utf8_ok b \<Longrightarrow> utf8_ok (a @ b)"
  by (induction a rule: utf8_ok.induct) (auto simp: Let_def)

text \<open>
  Bounding an error text keeps it well-formed: the result of \<open>truncate\<close> is the text
  itself or a prefix of at most \<open>n\<close> bytes followed by an ellipsis, and a text that was UTF-8
  stays UTF-8, because the cut never lands inside a sequence.
\<close>

theorem truncate_keeps_utf8:
  assumes "utf8_ok s"
  shows "utf8_ok (truncate_text s n) \<and> length (truncate_text s n) \<le> n + 3 \<and>
    (truncate_text s n = s \<or> (\<exists>k \<le> n. truncate_text s n = take k s @ ''...''))"
proof (cases "length s \<le> n")
  case True
  then show ?thesis using assms by (simp add: truncate_text_def)
next
  case False
  then have t: "truncate_text s n = take (rune_cut s n) s @ ''...''"
    by (simp add: truncate_text_def)
  have le: "rune_cut s n \<le> n" by (rule rune_cut_le)
  have "utf8_ok (take (rune_cut s n) s)"
    by (rule utf8_ok_take) (use assms rune_cut_start [of s n] le False in auto)
  moreover have "utf8_ok ''...''" by code_simp
  ultimately show ?thesis using t le False by (auto intro: utf8_ok_append)
qed

theorem truncate_keeps_utf8_witness:
  "utf8_ok (truncate_text ([CHR ''a'', CHR 0xC3, CHR 0xA9] @ ''bc'') 2) \<and>
   truncate_text ([CHR ''a'', CHR 0xC3, CHR 0xA9] @ ''bc'') 2 = ''a...''"
proof -
  have h: "utf8_ok ([CHR ''a'', CHR 0xC3, CHR 0xA9] @ ''bc'')" by code_simp
  have "truncate_text ([CHR ''a'', CHR 0xC3, CHR 0xA9] @ ''bc'') 2 = ''a...''" by code_simp
  then show ?thesis using truncate_keeps_utf8 [OF h, of 2] by blast
qed

section \<open>The rows\<close>

record cert_state =
  c_name :: string
  c_not_after :: instant
  c_cert_url :: string
  c_cert_pem :: string
  c_key_pem :: string
  c_issued_at :: instant
  c_ari_cert_id :: string
  c_ari_window_start :: instant
  c_ari_window_end :: instant
  c_ari_checked_at :: instant
  c_ari_retry_after :: duration
  c_failures :: int
  c_next_attempt_at :: instant
  c_last_error :: string
  c_deployed_cert_id :: string
  c_deploy_confirmed :: bool
  c_orphan_cleaned_at :: instant
  c_updated_at :: instant

definition empty_cert :: "string \<Rightarrow> cert_state" where
  "empty_cert name = \<lparr>c_name = name, c_not_after = zero_time, c_cert_url = [], c_cert_pem = [],
     c_key_pem = [], c_issued_at = zero_time, c_ari_cert_id = [], c_ari_window_start = zero_time,
     c_ari_window_end = zero_time, c_ari_checked_at = zero_time, c_ari_retry_after = 0,
     c_failures = 0, c_next_attempt_at = zero_time, c_last_error = [], c_deployed_cert_id = [],
     c_deploy_confirmed = False, c_orphan_cleaned_at = zero_time, c_updated_at = zero_time\<rparr>"

record acme_order =
  o_cert_name :: string
  o_order_url :: string
  o_finalize_url :: string
  o_cert_url :: string
  o_expires_at :: instant
  o_status :: string
  o_key_pem :: string
  o_identifiers :: string
  o_deployment_cert_id :: string

record authorization =
  a_cert_name :: string
  a_authz_url :: string
  a_identifier :: string
  a_status :: string
  a_challenge_url :: string
  a_challenge_token :: string
  a_txt_name :: string
  a_txt_value :: string
  a_presented :: bool
  a_challenge_sent :: bool
  a_prepared_at :: instant
  a_reclaim_attempts :: int
  a_reclaim_error :: string
  a_stuck_since :: instant

record retired_cert =
  r_cert_id :: string
  r_cert_name :: string
  r_retired_at :: instant
  r_cert_pem :: "string option"
  r_key_pem :: "string option"

record identifier_failure =
  if_cert_name :: string
  if_identifier :: string
  if_failures :: int
  if_last_error :: string
  if_last_failed_at :: instant

record fallback_row =
  fr_cert_name :: string
  fr_dropped :: string
  fr_since :: instant
  fr_reason :: string

record fallback =
  fb_cert_name :: string
  fb_dropped :: "string list"
  fb_since :: instant
  fb_reason :: string

record rate_bucket =
  rb_limit :: string
  rb_scope :: string
  rb_tokens :: rat
  rb_observed_at :: instant
  rb_reset_at :: instant
  rb_reset_reason :: string

record revoke_request =
  rv_cert_name :: string
  rv_identity :: string
  rv_reason :: int
  rv_requested_at :: instant
  rv_attempts :: int
  rv_last_error :: string
  rv_last_attempt_at :: instant

record probe_sample =
  ps_cert_name :: string
  ps_host :: string
  ps_match :: bool
  ps_trusted :: bool
  ps_not_after :: instant
  ps_problem_kind :: string
  ps_observed_at :: instant

record account =
  ac_directory :: string
  ac_kid :: string
  ac_key_pem :: string

record db =
  d_certs :: "cert_state list"
  d_orders :: "acme_order list"
  d_authzs :: "authorization list"
  d_retired :: "retired_cert list"
  d_ifails :: "identifier_failure list"
  d_fallbacks :: "fallback_row list"
  d_buckets :: "rate_bucket list"
  d_revokes :: "revoke_request list"
  d_probes :: "probe_sample list"
  d_accounts :: "account list"

definition empty_db :: db where
  "empty_db = \<lparr>d_certs = [], d_orders = [], d_authzs = [], d_retired = [], d_ifails = [],
     d_fallbacks = [], d_buckets = [], d_revokes = [], d_probes = [], d_accounts = []\<rparr>"

definition a_key :: "authorization \<Rightarrow> string \<times> string" where
  "a_key a = (a_cert_name a, a_authz_url a)"
definition if_key :: "identifier_failure \<Rightarrow> string \<times> string" where
  "if_key f = (if_cert_name f, if_identifier f)"
definition rb_key :: "rate_bucket \<Rightarrow> string \<times> string" where
  "rb_key b = (rb_limit b, rb_scope b)"
definition ps_key :: "probe_sample \<Rightarrow> string \<times> string" where
  "ps_key p = (ps_cert_name p, ps_host p)"

lemmas key_defs [simp] = a_key_def if_key_def rb_key_def ps_key_def

section \<open>Certificates\<close>

definition get_cert :: "string \<Rightarrow> db \<Rightarrow> cert_state option" where
  "get_cert name d = row_get c_name name (d_certs d)"

text \<open>The values \<open>putCertExec\<close> binds; \<open>orphan_cleaned_at\<close> is not among its columns.\<close>

definition cert_row :: "instant \<Rightarrow> cert_state \<Rightarrow> cert_state" where
  "cert_row now c = c\<lparr>
     c_not_after := stored (c_not_after c),
     c_issued_at := stored (c_issued_at c),
     c_ari_window_start := stored (c_ari_window_start c),
     c_ari_window_end := stored (c_ari_window_end c),
     c_ari_checked_at := stored (c_ari_checked_at c),
     c_next_attempt_at := stored (c_next_attempt_at c),
     c_last_error := truncate_text (c_last_error c) max_last_error_bytes,
     c_orphan_cleaned_at := zero_time,
     c_updated_at := from_unix (unix now)\<rparr>"

definition put_cert :: "instant \<Rightarrow> cert_state \<Rightarrow> db \<Rightarrow> db" where
  "put_cert now c d = d\<lparr>d_certs :=
     row_put c_name (\<lambda>old new. new\<lparr>c_orphan_cleaned_at := c_orphan_cleaned_at old\<rparr>)
       (cert_row now c) (d_certs d)\<rparr>"

text \<open>\<open>UpdateCert\<close>: read, apply the callback, write back; \<open>None\<close> is either error.\<close>

definition update_cert ::
  "instant \<Rightarrow> string \<Rightarrow> (cert_state \<Rightarrow> cert_state option) \<Rightarrow> db \<Rightarrow> db option" where
  "update_cert now name f d =
     (case get_cert name d of
        None \<Rightarrow> None
      | Some st \<Rightarrow> (case f st of None \<Rightarrow> None | Some st' \<Rightarrow> Some (put_cert now st' d)))"

definition record_failure :: "instant \<Rightarrow> string \<Rightarrow> string \<Rightarrow> int \<Rightarrow> instant \<Rightarrow> db \<Rightarrow> db" where
  "record_failure now name err n next d =
     (let fresh = (empty_cert name)\<lparr>c_failures := n, c_next_attempt_at := stored next,
                     c_last_error := truncate_text err max_last_error_bytes,
                     c_updated_at := from_unix (unix now)\<rparr>;
          merge = (\<lambda>old new. old\<lparr>
             c_failures := max (c_failures old) (c_failures new),
             c_next_attempt_at := from_unix (max (to_unix (c_next_attempt_at old)) (to_unix next)),
             c_last_error := c_last_error new,
             c_updated_at := c_updated_at new\<rparr>)
      in d\<lparr>d_certs := row_put c_name merge fresh (d_certs d)\<rparr>)"

definition list_cert_names :: "db \<Rightarrow> string list" where
  "list_cert_names d = sort (map c_name (d_certs d))"

definition list_orphan_rows :: "db \<Rightarrow> (string \<times> instant \<times> instant) list" where
  "list_orphan_rows d =
     map (\<lambda>c. (c_name c, c_not_after c, c_orphan_cleaned_at c)) (sort_key c_name (d_certs d))"

definition has_residue :: "string \<Rightarrow> db \<Rightarrow> bool" where
  "has_residue name d \<longleftrightarrow>
     (\<exists>r \<in> set (d_orders d). o_cert_name r = name) \<or> (\<exists>a \<in> set (d_authzs d). a_cert_name a = name)"

definition mark_orphan_cleaned :: "instant \<Rightarrow> string \<Rightarrow> db \<Rightarrow> bool \<times> db" where
  "mark_orphan_cleaned now name d =
     (if get_cert name d \<noteq> None \<and> \<not> has_residue name d
      then (True, d\<lparr>d_certs := map (\<lambda>c. if c_name c = name
              then c\<lparr>c_orphan_cleaned_at := from_unix (unix now)\<rparr> else c) (d_certs d)\<rparr>)
      else (False, d))"

definition clear_orphan_cleaned :: "string \<Rightarrow> db \<Rightarrow> db" where
  "clear_orphan_cleaned name d = d\<lparr>d_certs := map (\<lambda>c. if c_name c = name
     then c\<lparr>c_orphan_cleaned_at := zero_time\<rparr> else c) (d_certs d)\<rparr>"

definition delete_cert :: "string \<Rightarrow> db \<Rightarrow> db" where
  "delete_cert name d = d\<lparr>
     d_probes := row_del (\<lambda>p. ps_cert_name p = name) (d_probes d),
     d_authzs := row_del (\<lambda>a. a_cert_name a = name) (d_authzs d),
     d_orders := row_del (\<lambda>r. o_cert_name r = name) (d_orders d),
     d_ifails := row_del (\<lambda>f. if_cert_name f = name) (d_ifails d),
     d_fallbacks := row_del (\<lambda>f. fr_cert_name f = name) (d_fallbacks d),
     d_certs := row_del (\<lambda>c. c_name c = name) (d_certs d)\<rparr>"

section \<open>Orders\<close>

definition get_order :: "string \<Rightarrow> db \<Rightarrow> acme_order option" where
  "get_order name d = row_get o_cert_name name (d_orders d)"

definition put_order :: "acme_order \<Rightarrow> db \<Rightarrow> db" where
  "put_order r d = d\<lparr>d_orders := row_put o_cert_name (\<lambda>old new. new)
     (r\<lparr>o_expires_at := stored (o_expires_at r)\<rparr>) (d_orders d)\<rparr>"

definition delete_order :: "string \<Rightarrow> db \<Rightarrow> db" where
  "delete_order name d = d\<lparr>d_orders := row_del (\<lambda>r. o_cert_name r = name) (d_orders d)\<rparr>"

section \<open>Authorizations\<close>

definition list_authorizations :: "string \<Rightarrow> db \<Rightarrow> authorization list" where
  "list_authorizations name d =
     sort_key a_authz_url (filter (\<lambda>a. a_cert_name a = name) (d_authzs d))"

definition list_presented :: "db \<Rightarrow> authorization list" where
  "list_presented d = sort_key (\<lambda>a. a_txt_name a) (sort_key (\<lambda>a. a_cert_name a)
     (filter a_presented (d_authzs d)))"

text \<open>
  The upsert does not name the three reclaim columns, so a fresh row has their defaults and a
  known row keeps them; \<open>challenge_prepared_at\<close> is kept when the writer does not know it.
\<close>

definition authz_merge :: "authorization \<Rightarrow> authorization \<Rightarrow> authorization" where
  "authz_merge old new = new\<lparr>
     a_prepared_at := (if 0 < to_unix (a_prepared_at new) then a_prepared_at new
                       else a_prepared_at old),
     a_reclaim_attempts := a_reclaim_attempts old,
     a_reclaim_error := a_reclaim_error old,
     a_stuck_since := a_stuck_since old\<rparr>"

definition put_authorization :: "authorization \<Rightarrow> db \<Rightarrow> db" where
  "put_authorization a d = d\<lparr>d_authzs := row_put a_key authz_merge
     (a\<lparr>a_prepared_at := stored (a_prepared_at a), a_reclaim_attempts := 0,
        a_reclaim_error := [], a_stuck_since := zero_time\<rparr>) (d_authzs d)\<rparr>"

definition delete_authorizations :: "string \<Rightarrow> db \<Rightarrow> db" where
  "delete_authorizations name d =
     d\<lparr>d_authzs := row_del (\<lambda>a. a_cert_name a = name) (d_authzs d)\<rparr>"

definition delete_authorization :: "string \<Rightarrow> string \<Rightarrow> db \<Rightarrow> db" where
  "delete_authorization name url d =
     d\<lparr>d_authzs := row_del (\<lambda>a. a_key a = (name, url)) (d_authzs d)\<rparr>"

definition update_authz :: "string \<Rightarrow> string \<Rightarrow> (authorization \<Rightarrow> authorization) \<Rightarrow> db \<Rightarrow> db" where
  "update_authz name url f d =
     d\<lparr>d_authzs := map (\<lambda>a. if a_key a = (name, url) then f a else a) (d_authzs d)\<rparr>"

definition mark_txt_reclaim_stuck :: "instant \<Rightarrow> string \<Rightarrow> string \<Rightarrow> string \<Rightarrow> db \<Rightarrow> db" where
  "mark_txt_reclaim_stuck now name url err d =
     update_authz name url (\<lambda>a. a\<lparr>
       a_reclaim_attempts := a_reclaim_attempts a + 1,
       a_reclaim_error := take max_last_error_bytes err,
       a_stuck_since := (if 0 < to_unix (a_stuck_since a) then a_stuck_since a else stored now)\<rparr>) d"

definition clear_txt_reclaim_stuck :: "string \<Rightarrow> string \<Rightarrow> db \<Rightarrow> db" where
  "clear_txt_reclaim_stuck name url d =
     update_authz name url (\<lambda>a. a\<lparr>a_reclaim_attempts := 0, a_reclaim_error := [],
       a_stuck_since := zero_time\<rparr>) d"

definition list_stuck_txt_reclaims :: "db \<Rightarrow> authorization list" where
  "list_stuck_txt_reclaims d =
     sort_key (\<lambda>a. to_unix (a_stuck_since a)) (sort_key (\<lambda>a. a_cert_name a)
       (sort_key (\<lambda>a. a_txt_name a) (filter (\<lambda>a. 0 < to_unix (a_stuck_since a)) (d_authzs d))))"

section \<open>Retired certificates\<close>

definition coalesce :: "'a option \<Rightarrow> 'a option \<Rightarrow> 'a option" where
  "coalesce a b = (case a of None \<Rightarrow> b | Some _ \<Rightarrow> a)"

definition add_retired_exec ::
  "instant \<Rightarrow> string \<Rightarrow> string \<Rightarrow> string option \<Rightarrow> string option \<Rightarrow> db \<Rightarrow> db" where
  "add_retired_exec now cid name pem key d = d\<lparr>d_retired := row_put r_cert_id
     (\<lambda>old new. old\<lparr>r_cert_pem := coalesce (r_cert_pem new) (r_cert_pem old),
        r_key_pem := coalesce (r_key_pem new) (r_key_pem old), r_retired_at := r_retired_at new\<rparr>)
     \<lparr>r_cert_id = cid, r_cert_name = name, r_retired_at = from_unix (unix now),
        r_cert_pem = pem, r_key_pem = key\<rparr> (d_retired d)\<rparr>"

definition add_retired_cert ::
  "instant \<Rightarrow> string \<Rightarrow> string \<Rightarrow> string option \<Rightarrow> string option \<Rightarrow> db \<Rightarrow> db option" where
  "add_retired_cert now cid name pem key d =
     (if cid = [] then None else Some (add_retired_exec now cid name pem key d))"

definition list_retired_before :: "instant \<Rightarrow> db \<Rightarrow> retired_cert list" where
  "list_retired_before cutoff d = filter (\<lambda>r. to_unix (r_retired_at r) < unix cutoff) (d_retired d)"

definition list_retired_material :: "string \<Rightarrow> db \<Rightarrow> retired_cert list" where
  "list_retired_material name d = sort_key (\<lambda>r. - to_unix (r_retired_at r))
     (filter (\<lambda>r. r_cert_name r = name \<and> r_cert_pem r \<noteq> None) (d_retired d))"

definition delete_retired_cert :: "string \<Rightarrow> db \<Rightarrow> db" where
  "delete_retired_cert cid d = d\<lparr>d_retired := row_del (\<lambda>r. r_cert_id r = cid) (d_retired d)\<rparr>"

section \<open>The failure ledger and the fallback record\<close>

definition record_identifier_failure :: "string \<Rightarrow> string \<Rightarrow> string \<Rightarrow> instant \<Rightarrow> db \<Rightarrow> db" where
  "record_identifier_failure name ident err now d = d\<lparr>d_ifails := row_put if_key
     (\<lambda>old new. new\<lparr>if_failures := if_failures old + 1\<rparr>)
     \<lparr>if_cert_name = name, if_identifier = ident, if_failures = 1,
        if_last_error = truncate_text err max_last_error_bytes,
        if_last_failed_at = from_unix (unix now)\<rparr> (d_ifails d)\<rparr>"

definition list_identifier_failures :: "string \<Rightarrow> db \<Rightarrow> identifier_failure list" where
  "list_identifier_failures name d =
     sort_key if_identifier (filter (\<lambda>f. if_cert_name f = name) (d_ifails d))"

definition list_failures_by_identifier :: "string \<Rightarrow> db \<Rightarrow> identifier_failure list" where
  "list_failures_by_identifier ident d =
     sort_key if_cert_name (filter (\<lambda>f. if_identifier f = ident) (d_ifails d))"

definition clear_identifier_failures :: "string \<Rightarrow> db \<Rightarrow> db" where
  "clear_identifier_failures name d =
     d\<lparr>d_ifails := row_del (\<lambda>f. if_cert_name f = name) (d_ifails d)\<rparr>"

definition prune_identifier_failures :: "string \<Rightarrow> instant \<Rightarrow> duration \<Rightarrow> db \<Rightarrow> db" where
  "prune_identifier_failures name now age d = d\<lparr>d_ifails :=
     row_del (\<lambda>f. if_cert_name f = name \<and> to_unix (if_last_failed_at f) < unix (now - age))
       (d_ifails d)\<rparr>"

definition put_fallback :: "fallback \<Rightarrow> db \<Rightarrow> db" where
  "put_fallback f d = d\<lparr>d_fallbacks := row_put fr_cert_name
     (\<lambda>old new. new\<lparr>fr_since := fr_since old\<rparr>)
     \<lparr>fr_cert_name = fb_cert_name f, fr_dropped = join_with '','' (sort (fb_dropped f)),
        fr_since = from_unix (unix (fb_since f)),
        fr_reason = truncate_text (fb_reason f) max_last_error_bytes\<rparr> (d_fallbacks d)\<rparr>"

definition read_fallback :: "fallback_row \<Rightarrow> fallback" where
  "read_fallback r = \<lparr>fb_cert_name = fr_cert_name r,
     fb_dropped = filter (\<lambda>x. x \<noteq> []) (map trim_space (split_on (CHR '','') (fr_dropped r))),
     fb_since = fr_since r, fb_reason = fr_reason r\<rparr>"

definition get_fallback :: "string \<Rightarrow> db \<Rightarrow> fallback option" where
  "get_fallback name d = map_option read_fallback (row_get fr_cert_name name (d_fallbacks d))"

definition clear_fallback :: "string \<Rightarrow> db \<Rightarrow> db" where
  "clear_fallback name d = d\<lparr>d_fallbacks := row_del (\<lambda>f. fr_cert_name f = name) (d_fallbacks d)\<rparr>"

section \<open>Rate buckets\<close>

definition zero_bucket :: "string \<Rightarrow> string \<Rightarrow> rate_bucket" where
  "zero_bucket l s = \<lparr>rb_limit = l, rb_scope = s, rb_tokens = 0, rb_observed_at = zero_time,
     rb_reset_at = zero_time, rb_reset_reason = []\<rparr>"

definition get_rate_bucket :: "string \<Rightarrow> string \<Rightarrow> db \<Rightarrow> rate_bucket" where
  "get_rate_bucket l s d =
     (case row_get rb_key (l, s) (d_buckets d) of None \<Rightarrow> zero_bucket l s | Some b \<Rightarrow> b)"

text \<open>\<open>named\<close>: the write names a deadline (\<open>excluded.reset_at != 0\<close>).\<close>

definition bucket_merge :: "bool \<Rightarrow> rate_bucket \<Rightarrow> rate_bucket \<Rightarrow> rate_bucket" where
  "bucket_merge named old new = new\<lparr>
     rb_reset_at := (if named then rb_reset_at new else rb_reset_at old),
     rb_reset_reason := (if named then rb_reset_reason new else rb_reset_reason old)\<rparr>"

definition put_rate_bucket :: "rate_bucket \<Rightarrow> db \<Rightarrow> db" where
  "put_rate_bucket b d = d\<lparr>d_buckets := row_put rb_key (bucket_merge (to_unix (rb_reset_at b) \<noteq> 0))
     (b\<lparr>rb_observed_at := stored (rb_observed_at b), rb_reset_at := stored (rb_reset_at b)\<rparr>)
     (d_buckets d)\<rparr>"

text \<open>\<open>UpdateRateBucket\<close>: the callback may change the level, never the key; \<open>None\<close> is an error.\<close>

definition update_rate_bucket ::
  "string \<Rightarrow> string \<Rightarrow> (rate_bucket \<Rightarrow> rate_bucket option) \<Rightarrow> db \<Rightarrow> db option" where
  "update_rate_bucket l s f d =
     (case f (get_rate_bucket l s d) of
        None \<Rightarrow> None
      | Some b \<Rightarrow> if rb_limit b \<noteq> l \<or> rb_scope b \<noteq> s then None
                  else Some (put_rate_bucket b d))"

definition list_bucket_scopes :: "string \<Rightarrow> db \<Rightarrow> string list" where
  "list_bucket_scopes l d = sort (map rb_scope (filter (\<lambda>b. rb_limit b = l) (d_buckets d)))"

section \<open>Revocation requests, probe samples, accounts\<close>

definition add_revoke_request :: "string \<Rightarrow> int \<Rightarrow> string \<Rightarrow> instant \<Rightarrow> db \<Rightarrow> db option" where
  "add_revoke_request name reason ident now d =
     (if name = [] then None
      else Some (d\<lparr>d_revokes := row_put rv_cert_name
        (\<lambda>old new. (if rv_identity new \<noteq> rv_identity old
           then old\<lparr>rv_attempts := 0, rv_last_error := [], rv_last_attempt_at := zero_time\<rparr> else old)
             \<lparr>rv_reason := rv_reason new, rv_identity := rv_identity new\<rparr>)
        \<lparr>rv_cert_name = name, rv_identity = ident, rv_reason = reason, rv_requested_at = stored now,
           rv_attempts = 0, rv_last_error = [], rv_last_attempt_at = zero_time\<rparr> (d_revokes d)\<rparr>))"

definition get_revoke_request :: "string \<Rightarrow> db \<Rightarrow> revoke_request option" where
  "get_revoke_request name d = row_get rv_cert_name name (d_revokes d)"

definition list_revoke_requests :: "db \<Rightarrow> revoke_request list" where
  "list_revoke_requests d = sort_key (\<lambda>r. to_unix (rv_requested_at r)) (d_revokes d)"

definition record_revoke_attempt :: "string \<Rightarrow> string option \<Rightarrow> instant \<Rightarrow> db \<Rightarrow> db option" where
  "record_revoke_attempt name err now d =
     (if get_revoke_request name d = None then None
      else Some (d\<lparr>d_revokes := map (\<lambda>r. if rv_cert_name r = name then r\<lparr>
             rv_attempts := rv_attempts r + 1,
             rv_last_error := (case err of None \<Rightarrow> [] | Some e \<Rightarrow> truncate_text e max_last_error_bytes),
             rv_last_attempt_at := stored now\<rparr> else r) (d_revokes d)\<rparr>))"

definition clear_revoke_request :: "string \<Rightarrow> db \<Rightarrow> db" where
  "clear_revoke_request name d = d\<lparr>d_revokes := row_del (\<lambda>r. rv_cert_name r = name) (d_revokes d)\<rparr>"

definition put_probe_sample :: "probe_sample \<Rightarrow> db \<Rightarrow> db option" where
  "put_probe_sample p d =
     (if ps_cert_name p = [] \<or> ps_host p = [] then None
      else Some (d\<lparr>d_probes := row_put ps_key (\<lambda>old new. new)
        (p\<lparr>ps_not_after := stored (ps_not_after p), ps_problem_kind := truncate_text (ps_problem_kind p) 128,
           ps_observed_at := stored (ps_observed_at p)\<rparr>) (d_probes d)\<rparr>))"

definition delete_probe_samples :: "string \<Rightarrow> db \<Rightarrow> (nat \<times> db) option" where
  "delete_probe_samples name d =
     (if name = [] then None
      else Some (length (filter (\<lambda>p. ps_cert_name p = name) (d_probes d)),
        d\<lparr>d_probes := row_del (\<lambda>p. ps_cert_name p = name) (d_probes d)\<rparr>))"

definition list_probe_samples :: "string \<Rightarrow> db \<Rightarrow> probe_sample list" where
  "list_probe_samples name d = sort_key ps_host (filter (\<lambda>p. ps_cert_name p = name) (d_probes d))"

definition get_account :: "string \<Rightarrow> db \<Rightarrow> account option" where
  "get_account dir d = row_get ac_directory dir (d_accounts d)"

definition put_account :: "account \<Rightarrow> db \<Rightarrow> db" where
  "put_account a d = d\<lparr>d_accounts := row_put ac_directory (\<lambda>old new. new) a (d_accounts d)\<rparr>"

section \<open>Transactions\<close>

text \<open>
  The writes of a \<open>Tx\<close>. \<open>WithTx\<close> runs them against a working copy: the callback's error, a
  driver error (statement \<open>i\<close> fails when \<open>fault i\<close>; 0 is \<open>BEGIN\<close>, the last one \<open>COMMIT\<close>) and a
  failed commit all leave the stored state as it was, which is what the rollback does.
\<close>

datatype tx_op =
    TxPutCert cert_state
  | TxAddRetired string string "string option" "string option"
  | TxDeleteOrder string
  | TxClearFallback string
  | TxClearFailures string

fun tx_exec :: "instant \<Rightarrow> tx_op \<Rightarrow> db \<Rightarrow> db option" where
  "tx_exec now (TxPutCert c) d = Some (put_cert now c d)"
| "tx_exec now (TxAddRetired cid name pem key) d = add_retired_cert now cid name pem key d"
| "tx_exec now (TxDeleteOrder name) d = Some (delete_order name d)"
| "tx_exec now (TxClearFallback name) d = Some (clear_fallback name d)"
| "tx_exec now (TxClearFailures name) d = Some (clear_identifier_failures name d)"

fun tx_run :: "instant \<Rightarrow> (nat \<Rightarrow> bool) \<Rightarrow> nat \<Rightarrow> tx_op list \<Rightarrow> db \<Rightarrow> db option" where
  "tx_run now fault i [] d = Some d"
| "tx_run now fault i (x # xs) d =
     (if fault i then None
      else case tx_exec now x d of None \<Rightarrow> None | Some d' \<Rightarrow> tx_run now fault (Suc i) xs d')"

definition with_tx :: "instant \<Rightarrow> (nat \<Rightarrow> bool) \<Rightarrow> tx_op list \<Rightarrow> db \<Rightarrow> bool \<times> db" where
  "with_tx now fault xs d =
     (if fault 0 then (False, d)
      else case tx_run now fault 1 xs d of
          None \<Rightarrow> (False, d)
        | Some d' \<Rightarrow> if fault (Suc (length xs)) then (False, d) else (True, d'))"

lemma tx_run_no_fault: "tx_run now f i xs d = Some d' \<Longrightarrow> tx_run now (\<lambda>_. False) j xs d = Some d'"
  by (induction xs arbitrary: i j d) (auto split: if_splits option.splits)

lemma with_tx_cases:
  "(fst (with_tx now f xs d) = False \<and> snd (with_tx now f xs d) = d) \<or>
   (fst (with_tx now f xs d) = True \<and> tx_run now (\<lambda>_. False) 0 xs d = Some (snd (with_tx now f xs d)))"
  by (auto simp: with_tx_def split: option.splits dest: tx_run_no_fault)

section \<open>The invariant of the database\<close>

text \<open>
  One constructor per state-changing operation, and the step it makes; an operation that
  answers an error leaves the state alone.
\<close>

datatype store_op =
    PutCert cert_state
  | RecordFailure string string int instant
  | MarkOrphan string
  | ClearOrphan string
  | DeleteCert string
  | PutOrder acme_order
  | DeleteOrder string
  | PutAuthz authorization
  | DeleteAuthzs string
  | DeleteAuthz string string
  | MarkStuck string string string
  | ClearStuck string string
  | AddRetired string string "string option" "string option"
  | DeleteRetired string
  | RecordIdentFailure string string string instant
  | ClearIdentFailures string
  | PruneIdentFailures string instant duration
  | PutFallback fallback
  | ClearFallback string
  | PutBucket rate_bucket
  | AddRevoke string int string instant
  | RevokeAttempt string "string option" instant
  | ClearRevoke string
  | PutProbe probe_sample
  | DeleteProbes string
  | PutAccount account
  | RunTx "nat \<Rightarrow> bool" "tx_op list"

fun store_step :: "instant \<Rightarrow> store_op \<Rightarrow> db \<Rightarrow> db" where
  "store_step now (PutCert c) d = put_cert now c d"
| "store_step now (RecordFailure n e k t) d = record_failure now n e k t d"
| "store_step now (MarkOrphan n) d = snd (mark_orphan_cleaned now n d)"
| "store_step now (ClearOrphan n) d = clear_orphan_cleaned n d"
| "store_step now (DeleteCert n) d = delete_cert n d"
| "store_step now (PutOrder r) d = put_order r d"
| "store_step now (DeleteOrder n) d = delete_order n d"
| "store_step now (PutAuthz a) d = put_authorization a d"
| "store_step now (DeleteAuthzs n) d = delete_authorizations n d"
| "store_step now (DeleteAuthz n u) d = delete_authorization n u d"
| "store_step now (MarkStuck n u e) d = mark_txt_reclaim_stuck now n u e d"
| "store_step now (ClearStuck n u) d = clear_txt_reclaim_stuck n u d"
| "store_step now (AddRetired c n p k) d = (case add_retired_cert now c n p k d of None \<Rightarrow> d | Some d' \<Rightarrow> d')"
| "store_step now (DeleteRetired c) d = delete_retired_cert c d"
| "store_step now (RecordIdentFailure n i e t) d = record_identifier_failure n i e t d"
| "store_step now (ClearIdentFailures n) d = clear_identifier_failures n d"
| "store_step now (PruneIdentFailures n t a) d = prune_identifier_failures n t a d"
| "store_step now (PutFallback f) d = put_fallback f d"
| "store_step now (ClearFallback n) d = clear_fallback n d"
| "store_step now (PutBucket b) d = put_rate_bucket b d"
| "store_step now (AddRevoke n r i t) d = (case add_revoke_request n r i t d of None \<Rightarrow> d | Some d' \<Rightarrow> d')"
| "store_step now (RevokeAttempt n e t) d = (case record_revoke_attempt n e t d of None \<Rightarrow> d | Some d' \<Rightarrow> d')"
| "store_step now (ClearRevoke n) d = clear_revoke_request n d"
| "store_step now (PutProbe p) d = (case put_probe_sample p d of None \<Rightarrow> d | Some d' \<Rightarrow> d')"
| "store_step now (DeleteProbes n) d = (case delete_probe_samples n d of None \<Rightarrow> d | Some (_, d') \<Rightarrow> d')"
| "store_step now (PutAccount a) d = put_account a d"
| "store_step now (RunTx f xs) d = snd (with_tx now f xs d)"

fun store_run :: "(instant \<times> store_op) list \<Rightarrow> db \<Rightarrow> db" where
  "store_run [] d = d"
| "store_run ((now, x) # xs) d = store_run xs (store_step now x d)"

lemma whole_from_unix [simp]: "stored (from_unix v) = from_unix v"
  by (cases "v = unix zero_time") (simp_all add: to_unix_from_unix)

lemma length_truncate: "length (truncate_text s n) \<le> n + 3"
  using rune_cut_le [of s n] by (simp add: truncate_text_def)

lemma length_last_error [simp]: "length (truncate_text s max_last_error_bytes) \<le> 515"
  using length_truncate [of s max_last_error_bytes] by (simp add: max_last_error_bytes_def)

lemma length_truncate_num [simp]:
  "length (truncate_text s 512) \<le> 515" "length (truncate_text s 128) \<le> 131"
  using length_truncate [of s 512] length_truncate [of s 128] by simp_all

definition cert_ok :: "cert_state \<Rightarrow> bool" where
  "cert_ok c \<longleftrightarrow> length (c_last_error c) \<le> 515 \<and>
     (\<forall>t \<in> {c_not_after c, c_issued_at c, c_ari_window_start c, c_ari_window_end c,
        c_ari_checked_at c, c_next_attempt_at c, c_orphan_cleaned_at c, c_updated_at c}. stored t = t)"

definition authz_ok :: "authorization \<Rightarrow> bool" where
  "authz_ok a \<longleftrightarrow> stored (a_prepared_at a) = a_prepared_at a \<and> stored (a_stuck_since a) = a_stuck_since a \<and>
     length (a_reclaim_error a) \<le> 512 \<and> 0 \<le> a_reclaim_attempts a"

definition retired_ok :: "retired_cert \<Rightarrow> bool" where
  "retired_ok r \<longleftrightarrow> r_cert_id r \<noteq> [] \<and> stored (r_retired_at r) = r_retired_at r"

definition ifail_ok :: "identifier_failure \<Rightarrow> bool" where
  "ifail_ok f \<longleftrightarrow> 1 \<le> if_failures f \<and> length (if_last_error f) \<le> 515 \<and>
     stored (if_last_failed_at f) = if_last_failed_at f"

definition bucket_ok :: "rate_bucket \<Rightarrow> bool" where
  "bucket_ok b \<longleftrightarrow> stored (rb_observed_at b) = rb_observed_at b \<and> stored (rb_reset_at b) = rb_reset_at b"

definition revoke_ok :: "revoke_request \<Rightarrow> bool" where
  "revoke_ok r \<longleftrightarrow> rv_cert_name r \<noteq> [] \<and> 0 \<le> rv_attempts r \<and> length (rv_last_error r) \<le> 515 \<and>
     stored (rv_requested_at r) = rv_requested_at r \<and> stored (rv_last_attempt_at r) = rv_last_attempt_at r"

definition probe_ok :: "probe_sample \<Rightarrow> bool" where
  "probe_ok p \<longleftrightarrow> ps_cert_name p \<noteq> [] \<and> ps_host p \<noteq> [] \<and> length (ps_problem_kind p) \<le> 131"

lemmas row_ok_defs = cert_ok_def authz_ok_def retired_ok_def ifail_ok_def bucket_ok_def
  revoke_ok_def probe_ok_def

text \<open>Primary keys are unique and every row is as its writer left it.\<close>

definition keys_ok :: "db \<Rightarrow> bool" where
  "keys_ok d \<longleftrightarrow> keyed c_name (d_certs d) \<and> keyed o_cert_name (d_orders d) \<and> keyed a_key (d_authzs d) \<and>
     keyed r_cert_id (d_retired d) \<and> keyed if_key (d_ifails d) \<and> keyed fr_cert_name (d_fallbacks d) \<and>
     keyed rb_key (d_buckets d) \<and> keyed rv_cert_name (d_revokes d) \<and> keyed ps_key (d_probes d) \<and>
     keyed ac_directory (d_accounts d)"

definition rows_ok :: "db \<Rightarrow> bool" where
  "rows_ok d \<longleftrightarrow> list_all cert_ok (d_certs d) \<and>
     list_all (\<lambda>r. stored (o_expires_at r) = o_expires_at r) (d_orders d) \<and>
     list_all authz_ok (d_authzs d) \<and> list_all retired_ok (d_retired d) \<and>
     list_all ifail_ok (d_ifails d) \<and> list_all (\<lambda>f. length (fr_reason f) \<le> 515) (d_fallbacks d) \<and>
     list_all bucket_ok (d_buckets d) \<and> list_all revoke_ok (d_revokes d) \<and>
     list_all probe_ok (d_probes d)"

lemmas op_defs = put_cert_def record_failure_def mark_orphan_cleaned_def clear_orphan_cleaned_def
  delete_cert_def put_order_def delete_order_def put_authorization_def delete_authorizations_def
  delete_authorization_def update_authz_def mark_txt_reclaim_stuck_def clear_txt_reclaim_stuck_def
  add_retired_exec_def add_retired_cert_def delete_retired_cert_def record_identifier_failure_def
  clear_identifier_failures_def prune_identifier_failures_def put_fallback_def clear_fallback_def
  put_rate_bucket_def add_revoke_request_def record_revoke_attempt_def clear_revoke_request_def
  put_probe_sample_def delete_probe_samples_def put_account_def

lemma merge_keys [simp]:
  "a_cert_name (authz_merge q r) = a_cert_name r" "a_authz_url (authz_merge q r) = a_authz_url r"
  "rb_limit (bucket_merge k p b) = rb_limit b" "rb_scope (bucket_merge k p b) = rb_scope b"
  "c_name (cert_row now c) = c_name c" "c_name (empty_cert n) = n"
  by (simp_all add: authz_merge_def bucket_merge_def cert_row_def empty_cert_def)

lemma tx_exec_keys: "tx_exec now x d = Some d' \<Longrightarrow> keys_ok d \<Longrightarrow> keys_ok d'"
  by (cases x) (auto simp: keys_ok_def op_defs split: if_splits intro!: keeps)

lemma tx_run_keys: "tx_run now f i xs d = Some d' \<Longrightarrow> keys_ok d \<Longrightarrow> keys_ok d'"
  by (induction xs arbitrary: i d) (auto split: if_splits option.splits dest: tx_exec_keys)

lemma with_tx_keys: "keys_ok d \<Longrightarrow> keys_ok (snd (with_tx now f xs d))"
  using with_tx_cases [of now f xs d] tx_run_keys [of now "\<lambda>_. False" 0 xs d] by auto

lemma store_step_keys:
  assumes "keys_ok d"
  shows "keys_ok (store_step now x d)"
proof (cases "\<exists>f xs. x = RunTx f xs")
  case True
  then show ?thesis using assms with_tx_keys by auto
next
  case False
  with assms show ?thesis
    by (cases x) (auto simp: keys_ok_def op_defs Let_def split: if_splits option.splits intro!: keeps)
qed

lemma tx_exec_rows: "tx_exec now x d = Some d' \<Longrightarrow> rows_ok d \<Longrightarrow> rows_ok d'"
  by (cases x) (auto simp: rows_ok_def op_defs row_ok_defs cert_row_def split: if_splits intro!: keeps)

lemma tx_run_rows: "tx_run now f i xs d = Some d' \<Longrightarrow> rows_ok d \<Longrightarrow> rows_ok d'"
  by (induction xs arbitrary: i d) (auto split: if_splits option.splits dest: tx_exec_rows)

lemma with_tx_rows: "rows_ok d \<Longrightarrow> rows_ok (snd (with_tx now f xs d))"
  using with_tx_cases [of now f xs d] tx_run_rows [of now "\<lambda>_. False" 0 xs d] by auto

lemma store_step_rows:
  assumes "rows_ok d"
  shows "rows_ok (store_step now x d)"
proof (cases "\<exists>f xs. x = RunTx f xs")
  case True
  then show ?thesis using assms with_tx_rows by auto
next
  case False
  with assms show ?thesis
    by (cases x) (auto simp: rows_ok_def op_defs row_ok_defs cert_row_def empty_cert_def authz_merge_def
        bucket_merge_def max_last_error_bytes_def Let_def split: if_splits option.splits intro!: keeps)
qed

lemma store_run_ok: "keys_ok d \<Longrightarrow> rows_ok d \<Longrightarrow> keys_ok (store_run h d) \<and> rows_ok (store_run h d)"
  by (induction h d rule: store_run.induct) (simp_all add: store_step_keys store_step_rows)

lemma empty_db_ok: "keys_ok empty_db" "rows_ok empty_db"
  by (simp_all add: keys_ok_def rows_ok_def empty_db_def)

text \<open>
  C32. Whatever sequence of operations has run against a fresh database, at whatever times and
  with whatever transactions failing half way: primary keys stay unique, instants stay whole
  seconds, error texts stay bounded, no retired certificate has an empty id and every ledger
  row counts at least one failure.
\<close>

theorem store_invariant: "keys_ok (store_run h empty_db) \<and> rows_ok (store_run h empty_db)"
  by (rule store_run_ok) (rule empty_db_ok)+

section \<open>What each operation promises\<close>

lemma get_put_cert [rows]:
  "get_cert n (put_cert now c d) =
     (if n = c_name c then Some ((cert_row now c)\<lparr>c_orphan_cleaned_at :=
        (case get_cert n d of None \<Rightarrow> zero_time | Some q \<Rightarrow> c_orphan_cleaned_at q)\<rparr>)
      else get_cert n d)"
proof -
  have "cert_row now c = (cert_row now c)\<lparr>c_orphan_cleaned_at := zero_time\<rparr>"
    by (simp add: cert_row_def)
  then show ?thesis
    by (auto simp: get_cert_def put_cert_def rows split: option.splits)
qed

lemma get_put_order [rows]:
  "get_order n (put_order r d) =
     (if n = o_cert_name r then Some (r\<lparr>o_expires_at := stored (o_expires_at r)\<rparr>) else get_order n d)"
  by (auto simp: get_order_def put_order_def rows split: option.splits)

lemma get_delete_order [rows]:
  "get_order n (delete_order m d) = (if n = m then None else get_order n d)"
  by (auto simp: get_order_def delete_order_def rows)

lemma get_cert_name: "get_cert n d = Some c \<Longrightarrow> c_name c = n"
  by (auto simp: get_cert_def dest: row_get_Some)

lemma get_cert_ok: "rows_ok d \<Longrightarrow> get_cert n d = Some c \<Longrightarrow> cert_ok c"
  by (auto simp: rows_ok_def get_cert_def list_all_iff dest: row_get_Some)

lemma to_unix_from_unix_ge: "v \<le> to_unix (from_unix v)"
proof (cases "v = unix zero_time")
  case True
  have "unix zero_time \<le> 0" by (simp add: unix_def zero_time_def ns_defs)
  then show ?thesis using True by simp
qed (simp add: to_unix_from_unix)

text \<open>
  Reading a row and writing it back is the identity up to the write's own time stamp: no
  column is lost on the way to disk and back, and the orphan mark, which \<open>PutCert\<close> does not
  carry, survives.
\<close>

theorem put_cert_roundtrip:
  assumes "rows_ok d" and "get_cert n d = Some c" and "length (c_last_error c) \<le> 512"
  shows "get_cert n (put_cert now (c\<lparr>c_orphan_cleaned_at := whatever\<rparr>) d) =
    Some (c\<lparr>c_updated_at := from_unix (unix now)\<rparr>)"
proof -
  have c: "cert_ok c" using assms(1,2) by (rule get_cert_ok)
  have n: "c_name c = n" using assms(2) by (rule get_cert_name)
  have t: "truncate_text (c_last_error c) 512 = c_last_error c"
    using assms(3) by (simp add: truncate_text_def)
  show ?thesis using c assms(2) n t
    by (simp add: get_put_cert cert_row_def cert_ok_def max_last_error_bytes_def)
qed

text \<open>A certificate that has failed eight times, stored in an otherwise empty database.\<close>

definition sample_cert :: cert_state where
  "sample_cert = (empty_cert ''a'')\<lparr>c_key_pem := ''k'', c_failures := 8\<rparr>"

definition sample_db :: db where
  "sample_db = put_cert 0 sample_cert empty_db"

lemma sample_db_ok: "keys_ok sample_db" "rows_ok sample_db"
  using store_step_keys [OF empty_db_ok(1), of 0 "PutCert sample_cert"]
    store_step_rows [OF empty_db_ok(2), of 0 "PutCert sample_cert"]
  by (simp_all add: sample_db_def)

lemma get_sample: "get_cert ''a'' sample_db = Some (cert_row 0 sample_cert)"
  by (simp add: sample_db_def get_put_cert)
    (simp add: sample_cert_def empty_db_def get_cert_def cert_row_def empty_cert_def)

theorem put_cert_roundtrip_witness:
  "get_cert ''a'' (put_cert 7000000000 ((cert_row 0 sample_cert)\<lparr>c_orphan_cleaned_at := 5\<rparr>) sample_db) =
     Some ((cert_row 0 sample_cert)\<lparr>c_updated_at := 7000000000\<rparr>)"
proof -
  have l: "length (c_last_error (cert_row 0 sample_cert)) \<le> 512"
    by (simp add: sample_cert_def cert_row_def empty_cert_def truncate_text_def)
  have "from_unix (unix 7000000000) = 7000000000" by (simp add: from_unix_def unix_def ns_defs)
  then show ?thesis
    using put_cert_roundtrip [OF sample_db_ok(2) get_sample l, of 7000000000 5] by simp
qed

fun log_failures :: "(instant \<times> string \<times> string \<times> int \<times> instant) list \<Rightarrow> db \<Rightarrow> db" where
  "log_failures [] d = d"
| "log_failures ((now, n, e, k, t) # xs) d = log_failures xs (record_failure now n e k t d)"

lemma get_record_failure:
  "get_cert m (record_failure now n e k t d) =
     (if m = n then Some (case get_cert n d of
         None \<Rightarrow> (empty_cert n)\<lparr>c_failures := k, c_next_attempt_at := stored t,
                     c_last_error := truncate_text e max_last_error_bytes, c_updated_at := from_unix (unix now)\<rparr>
       | Some c \<Rightarrow> c\<lparr>c_failures := max (c_failures c) k,
                     c_next_attempt_at := from_unix (max (to_unix (c_next_attempt_at c)) (to_unix t)),
                     c_last_error := truncate_text e max_last_error_bytes, c_updated_at := from_unix (unix now)\<rparr>)
      else get_cert m d)"
  by (auto simp: get_cert_def record_failure_def Let_def rows split: option.splits)

text \<open>
  Failure bookkeeping never costs material: after any number of \<open>RecordFailure\<close> calls,
  for any certificates, every row that existed still exists, differs from what it was at most
  in its four bookkeeping columns, and its failure count and next attempt have not gone down.
\<close>

theorem failures_keep_material:
  assumes "get_cert n d = Some c"
  shows "\<exists>c'. get_cert n (log_failures h d) = Some c' \<and>
    c'\<lparr>c_failures := c_failures c, c_next_attempt_at := c_next_attempt_at c,
       c_last_error := c_last_error c, c_updated_at := c_updated_at c\<rparr> = c \<and>
    c_failures c \<le> c_failures c' \<and> to_unix (c_next_attempt_at c) \<le> to_unix (c_next_attempt_at c')"
  using assms
proof (induction h d arbitrary: c rule: log_failures.induct)
  case (1 d)
  then show ?case by auto
next
  case (2 now m e k t xs d)
  show ?case
  proof (cases "n = m")
    case False
    then show ?thesis using 2 by (simp add: get_record_failure)
  next
    case True
    let ?c = "c\<lparr>c_failures := max (c_failures c) k,
                c_next_attempt_at := from_unix (max (to_unix (c_next_attempt_at c)) (to_unix t)),
                c_last_error := truncate_text e max_last_error_bytes, c_updated_at := from_unix (unix now)\<rparr>"
    have "get_cert n (record_failure now m e k t d) = Some ?c"
      using "2.prems" True by (simp add: get_record_failure)
    from "2.IH" [OF this] obtain c' where
      g: "get_cert n (log_failures xs (record_failure now m e k t d)) = Some c'" and
      e: "c'\<lparr>c_failures := c_failures ?c, c_next_attempt_at := c_next_attempt_at ?c,
         c_last_error := c_last_error ?c, c_updated_at := c_updated_at ?c\<rparr> = ?c" and
      f: "c_failures ?c \<le> c_failures c'" "to_unix (c_next_attempt_at ?c) \<le> to_unix (c_next_attempt_at c')"
      by blast
    have "to_unix (c_next_attempt_at c) \<le> to_unix (c_next_attempt_at ?c)"
      using to_unix_from_unix_ge [of "max (to_unix (c_next_attempt_at c)) (to_unix t)"] by simp
    then show ?thesis using g e f by (cases c; cases c') auto
  qed
qed

theorem failures_keep_material_witness:
  "\<exists>c'. get_cert ''a'' (log_failures [(9, ''a'', ''boom'', 1, 5000000000)] sample_db) = Some c' \<and>
     c_key_pem c' = ''k'' \<and> 8 \<le> c_failures c'"
proof -
  obtain c' where g: "get_cert ''a'' (log_failures [(9, ''a'', ''boom'', 1, 5000000000)] sample_db) = Some c'"
    and e: "c'\<lparr>c_failures := c_failures (cert_row 0 sample_cert),
      c_next_attempt_at := c_next_attempt_at (cert_row 0 sample_cert),
      c_last_error := c_last_error (cert_row 0 sample_cert),
      c_updated_at := c_updated_at (cert_row 0 sample_cert)\<rparr> = cert_row 0 sample_cert"
    and f: "c_failures (cert_row 0 sample_cert) \<le> c_failures c'"
    using failures_keep_material [OF get_sample, of "[(9, ''a'', ''boom'', 1, 5000000000)]"] by blast
  have "c_key_pem c' = ''k''"
    using arg_cong [OF e, of c_key_pem] by (simp add: cert_row_def sample_cert_def)
  moreover have "8 \<le> c_failures c'" using f by (simp add: cert_row_def sample_cert_def)
  ultimately show ?thesis using g by blast
qed

end
