(* ===== verification/RateTracker.thy ===== *)
theory RateTracker
  imports RateLimit Store
begin

text \<open>
  \<open>internal/ratelimit/tracker.go\<close>: the tracker that spends limits and records the CA's
  deadlines in a bucket store, and the report built on it (\<open>internal/acme/ratelimit.go\<close>).

  The tracker knows its store only through \<open>bucketStore\<close>: the operations here take
  \<open>GetRateBucket\<close> and \<open>UpdateRateBucket\<close> as arguments, the locale \<open>bucket_store\<close> says what it
  relies on, and the interpretation at the end discharges that for \<open>state.Store\<close>. \<open>None\<close> is the
  store's error.
\<close>

type_synonym 'st bucket_get = "string \<Rightarrow> string \<Rightarrow> 'st \<Rightarrow> rate_bucket option"
type_synonym 'st bucket_upd =
  "string \<Rightarrow> string \<Rightarrow> (rate_bucket \<Rightarrow> rate_bucket option) \<Rightarrow> 'st \<Rightarrow> 'st option"

section \<open>The tracker\<close>

text \<open>A cost as it reaches \<open>Tracker.Spend\<close>: a finite \<open>float64\<close>, or NaN or an infinity.\<close>

datatype go_float = Finite rat | NonFinite

definition spend_bucket :: "(rat \<Rightarrow> rat) \<Rightarrow> limit \<Rightarrow> rat \<Rightarrow> instant \<Rightarrow> rate_bucket \<Rightarrow> rate_bucket" where
  "spend_bucket fl l cost now rec =
     (let next = spend fl \<lparr>s_tokens = rb_tokens rec, s_at = rb_observed_at rec\<rparr> l cost now
      in rec\<lparr>rb_tokens := s_tokens next, rb_observed_at := s_at next\<rparr>)"

definition tracker_spend ::
  "'st bucket_upd \<Rightarrow> (rat \<Rightarrow> rat) \<Rightarrow> instant \<Rightarrow> limit \<Rightarrow> string \<Rightarrow> go_float \<Rightarrow> 'st \<Rightarrow> 'st" where
  "tracker_spend upd fl now l scope cost st =
     (case cost of
        NonFinite \<Rightarrow> st
      | Finite c \<Rightarrow>
          (case upd (l_name l) scope (\<lambda>rec. Some (spend_bucket fl l c now rec)) st of
             None \<Rightarrow> st
           | Some st' \<Rightarrow> st'))"

definition tracker_remaining ::
  "'st bucket_get \<Rightarrow> (rat \<Rightarrow> rat) \<Rightarrow> instant \<Rightarrow> limit \<Rightarrow> string \<Rightarrow> 'st \<Rightarrow> rat option" where
  "tracker_remaining get fl now l scope st =
     (case get (l_name l) scope st of
        None \<Rightarrow> None
      | Some rec \<Rightarrow>
          if rb_reset_at rec \<noteq> zero_time \<and> now < rb_reset_at rec then Some 0
          else Some (remaining fl \<lparr>s_tokens = rb_tokens rec, s_at = rb_observed_at rec\<rparr> l now))"

definition blocked_until ::
  "'st bucket_get \<Rightarrow> instant \<Rightarrow> limit \<Rightarrow> string \<Rightarrow> 'st \<Rightarrow> (instant \<times> string) option" where
  "blocked_until get now l scope st =
     (case get (l_name l) scope st of
        None \<Rightarrow> None
      | Some rec \<Rightarrow>
          if rb_reset_at rec = zero_time then None
          else if \<not> now < rb_reset_at rec then None
          else Some (rb_reset_at rec, rb_reset_reason rec))"

definition deadline_bucket :: "limit \<Rightarrow> instant \<Rightarrow> rate_bucket \<Rightarrow> rate_bucket" where
  "deadline_bucket l till rec =
     (if rb_reset_at rec < till then rec\<lparr>rb_reset_at := till, rb_reset_reason := l_name l\<rparr> else rec)"

definition note_deadline ::
  "'st bucket_upd \<Rightarrow> limit \<Rightarrow> string \<Rightarrow> instant \<Rightarrow> 'st \<Rightarrow> instant option \<times> 'st" where
  "note_deadline upd l scope till st =
     (if till = zero_time then (None, st)
      else case upd (l_name l) scope (\<lambda>rec. Some (deadline_bucket l till rec)) st of
          None \<Rightarrow> (None, st)
        | Some st' \<Rightarrow> (Some till, st'))"

definition note_retry_after ::
  "timelib \<Rightarrow> 'st bucket_upd \<Rightarrow> limit \<Rightarrow> string \<Rightarrow> string \<Rightarrow> 'st \<Rightarrow> instant option \<times> 'st" where
  "note_retry_after T upd l scope msg st =
     (case parse_retry_after T msg of
        None \<Rightarrow> (None, st)
      | Some till \<Rightarrow> note_deadline upd l scope till st)"

section \<open>The quota report\<close>

record quota_report =
  q_limit :: string
  q_scope :: string
  q_remaining :: rat
  q_blocked :: bool
  q_blocked_until :: instant
  q_unreadable :: bool
  q_spent_by_ca :: bool

definition quota_report ::
  "'st bucket_get \<Rightarrow> (rat \<Rightarrow> rat) \<Rightarrow> instant \<Rightarrow> limit \<Rightarrow> string \<Rightarrow> 'st \<Rightarrow> quota_report" where
  "quota_report get fl now l scope st =
     (let rep = \<lparr>q_limit = l_name l, q_scope = scope, q_remaining = 0, q_blocked = False,
            q_blocked_until = zero_time, q_unreadable = False, q_spent_by_ca = l_spent_by_ca l\<rparr>
      in case blocked_until get now l scope st of
           Some (till, _) \<Rightarrow> rep\<lparr>q_blocked := True, q_blocked_until := till\<rparr>
         | None \<Rightarrow>
             (if l_spent_by_ca l then
                (case tracker_remaining get fl now l scope st of
                   None \<Rightarrow> rep\<lparr>q_unreadable := True\<rparr> | Some _ \<Rightarrow> rep)
              else
                (case tracker_remaining get fl now l scope st of
                   Some left \<Rightarrow> rep\<lparr>q_remaining := left\<rparr>
                 | None \<Rightarrow> rep\<lparr>q_unreadable := True\<rparr>)))"

definition quota_status ::
  "'st bucket_get \<Rightarrow> (rat \<Rightarrow> rat) \<Rightarrow> instant \<Rightarrow> (string \<Rightarrow> string list) \<Rightarrow> 'st \<Rightarrow> quota_report list" where
  "quota_status get fl now scopes st = concat (map (\<lambda>l.
     if l_scope l = ''account'' then [quota_report get fl now l [] st]
     else map (\<lambda>s. quota_report get fl now l s st) (filter (\<lambda>s. s \<noteq> []) (scopes (l_scope l)))) reportable)"

text \<open>\<open>spentIdentifiers\<close>, given what \<open>ListRateBucketScopes\<close> answers for a limit.\<close>

definition spent_identifiers :: "(string \<Rightarrow> string list option) \<Rightarrow> string list option" where
  "spent_identifiers list_scopes =
     (case list_scopes (l_name authz_failures_per_identifier) of
        None \<Rightarrow> None
      | Some xs \<Rightarrow>
          (case list_scopes (l_name consecutive_authz_failures) of
             None \<Rightarrow> None
           | Some ys \<Rightarrow> Some (sort (dedup (filter (\<lambda>i. i \<noteq> []) (xs @ ys))))))"

section \<open>Histories\<close>

text \<open>What the passes do to the buckets, in any order: spends, and deadlines read off refusals.\<close>

datatype quota_event = Spent limit string go_float instant | Noted limit string instant

fun quota_step :: "'st bucket_upd \<Rightarrow> (rat \<Rightarrow> rat) \<Rightarrow> quota_event \<Rightarrow> 'st \<Rightarrow> 'st" where
  "quota_step upd fl (Spent l s c now) st = tracker_spend upd fl now l s c st"
| "quota_step upd fl (Noted l s t) st = snd (note_deadline upd l s t st)"

fun quota_run :: "'st bucket_upd \<Rightarrow> (rat \<Rightarrow> rat) \<Rightarrow> quota_event list \<Rightarrow> 'st \<Rightarrow> 'st" where
  "quota_run upd fl [] st = st"
| "quota_run upd fl (e # es) st = quota_run upd fl es (quota_step upd fl e st)"

section \<open>What the tracker relies on\<close>

text \<open>
  The store keeps its own invariant \<open>ok\<close>. A read never fails in a store that is up, an update
  that succeeds writes what the callback made of the stored record and no other bucket, and a
  callback that leaves the deadline alone cannot erase it: \<open>0\<close> on disk means \<open>none\<close>.
\<close>

locale bucket_store =
  fixes get :: "'st bucket_get" and upd :: "'st bucket_upd" and ok :: "'st \<Rightarrow> bool"
  assumes get_whole: "ok st \<Longrightarrow> get l s st = Some r \<Longrightarrow> stored (rb_reset_at r) = rb_reset_at r"
    and upd_ok: "ok st \<Longrightarrow> upd l s f st = Some st' \<Longrightarrow> ok st'"
    and upd_same: "ok st \<Longrightarrow> upd l s f st = Some st' \<Longrightarrow>
      \<exists>r b r'. get l s st = Some r \<and> f r = Some b \<and> get l s st' = Some r' \<and>
        rb_tokens r' = rb_tokens b \<and> rb_observed_at r' = stored (rb_observed_at b) \<and>
        rb_reset_at r' = (if to_unix (rb_reset_at b) = 0 then rb_reset_at r else stored (rb_reset_at b))"
    and upd_other: "ok st \<Longrightarrow> upd l s f st = Some st' \<Longrightarrow> (l', s') \<noteq> (l, s) \<Longrightarrow>
      get l' s' st' = get l' s' st"
begin

definition deadline :: "string \<Rightarrow> string \<Rightarrow> 'st \<Rightarrow> instant" where
  "deadline l s st = (case get l s st of None \<Rightarrow> zero_time | Some r \<Rightarrow> rb_reset_at r)"

lemma spend_ok: "ok st \<Longrightarrow> ok (tracker_spend upd fl now l s c st)"
  by (auto simp: tracker_spend_def split: go_float.splits option.splits intro: upd_ok)

lemma note_ok: "ok st \<Longrightarrow> ok (snd (note_deadline upd l s till st))"
  by (auto simp: note_deadline_def split: option.splits intro: upd_ok)

lemma spend_deadline:
  assumes "ok st"
  shows "deadline l' s' (tracker_spend upd fl now l s c st) = deadline l' s' st"
proof (cases c)
  case (Finite x)
  show ?thesis
  proof (cases "upd (l_name l) s (\<lambda>rec. Some (spend_bucket fl l x now rec)) st")
    case None
    then show ?thesis using Finite by (simp add: tracker_spend_def)
  next
    case (Some st')
    then have t: "tracker_spend upd fl now l s c st = st'" using Finite by (simp add: tracker_spend_def)
    show ?thesis
    proof (cases "(l', s') = (l_name l, s)")
      case False
      then show ?thesis using upd_other [OF assms Some] t by (simp add: deadline_def)
    next
      case True
      from upd_same [OF assms Some] obtain r r' where
        g: "get (l_name l) s st = Some r" "get (l_name l) s st' = Some r'" and
        e: "rb_reset_at r' = (if to_unix (rb_reset_at (spend_bucket fl l x now r)) = 0 then rb_reset_at r
               else stored (rb_reset_at (spend_bucket fl l x now r)))" by auto
      have "rb_reset_at (spend_bucket fl l x now r) = rb_reset_at r"
        by (simp add: spend_bucket_def Let_def)
      then have "rb_reset_at r' = rb_reset_at r" using e get_whole [OF assms g(1)] by simp
      then show ?thesis using True g t by (simp add: deadline_def)
    qed
  qed
qed (simp add: tracker_spend_def)

lemma note_deadline_at:
  assumes "ok st" and "note_deadline upd l s till st = (Some till', st')"
  shows "deadline (l_name l) s st' =
    (if deadline (l_name l) s st < till \<and> to_unix till \<noteq> 0 then stored till else deadline (l_name l) s st)"
    and "(l', s') \<noteq> (l_name l, s) \<Longrightarrow> deadline l' s' st' = deadline l' s' st"
proof -
  have u: "upd (l_name l) s (\<lambda>rec. Some (deadline_bucket l till rec)) st = Some st'"
    using assms(2) by (auto simp: note_deadline_def split: if_splits option.splits)
  from upd_same [OF assms(1) u] obtain r r' where
    g: "get (l_name l) s st = Some r" "get (l_name l) s st' = Some r'" and
    e: "rb_reset_at r' = (if to_unix (rb_reset_at (deadline_bucket l till r)) = 0 then rb_reset_at r
           else stored (rb_reset_at (deadline_bucket l till r)))" by auto
  show "deadline (l_name l) s st' =
    (if deadline (l_name l) s st < till \<and> to_unix till \<noteq> 0 then stored till else deadline (l_name l) s st)"
    using e g get_whole [OF assms(1) g(1)] by (auto simp: deadline_def deadline_bucket_def)
  show "(l', s') \<noteq> (l_name l, s) \<Longrightarrow> deadline l' s' st' = deadline l' s' st"
    using upd_other [OF assms(1) u] by (simp add: deadline_def)
qed

lemma stored_above:
  assumes "stored r = r" and "r < till" and "to_unix till \<noteq> 0"
  shows "r \<le> stored till"
proof -
  have till: "till \<noteq> zero_time" using assms(3) by auto
  then have s: "stored till = unix till * ns_second" "unix till \<noteq> 0"
    using assms(3) by (simp_all add: to_unix_def from_unix_def)
  have r: "r = unix r * ns_second"
  proof (cases "r = zero_time")
    case True
    then show ?thesis using zero_time_second by simp
  next
    case False
    then show ?thesis using assms(1) by (simp add: to_unix_def from_unix_def split: if_splits)
  qed
  have "unix r \<le> unix till"
    unfolding unix_def using assms(2) by (intro zdiv_mono1) (simp_all add: ns_defs)
  then have "unix r * ns_second \<le> unix till * ns_second"
    by (intro mult_right_mono) (simp_all add: ns_defs)
  then show ?thesis using r s by simp
qed

lemma deadline_whole: "ok st \<Longrightarrow> stored (deadline l s st) = deadline l s st"
  by (auto simp: deadline_def get_whole split: option.splits)

lemma note_deadline_grows:
  assumes "ok st"
  shows "deadline l' s' st \<le> deadline l' s' (snd (note_deadline upd l s till st))"
proof (cases "fst (note_deadline upd l s till st)")
  case None
  then show ?thesis by (auto simp: note_deadline_def split: if_splits option.splits)
next
  case (Some till')
  then have n: "note_deadline upd l s till st = (Some till', snd (note_deadline upd l s till st))"
    by (metis prod.collapse)
  show ?thesis
  proof (cases "(l', s') = (l_name l, s)")
    case True
    then show ?thesis using note_deadline_at(1) [OF assms n]
        stored_above [OF deadline_whole [OF assms, of "l_name l" s], of till]
      by (auto split: if_splits)
  next
    case False
    then show ?thesis using note_deadline_at(2) [OF assms n, of l' s'] by simp
  qed
qed

lemma run_ok: "ok st \<Longrightarrow> ok (quota_run upd fl es st)"
proof (induction es arbitrary: st)
  case (Cons e es)
  then show ?case by (cases e) (auto simp: spend_ok note_ok)
qed simp

lemma run_grows: "ok st \<Longrightarrow> deadline l s st \<le> deadline l s (quota_run upd fl es st)"
proof (induction es arbitrary: st)
  case (Cons e es)
  show ?case
  proof (cases e)
    case (Spent l' s' c now)
    then show ?thesis using Cons.IH [OF spend_ok [OF Cons.prems, of fl now l' s' c]]
      by (simp add: spend_deadline [OF Cons.prems])
  next
    case (Noted l' s' t)
    then show ?thesis using Cons.IH [OF note_ok [OF Cons.prems, of l' s' t]]
        note_deadline_grows [OF Cons.prems, of l s l' s' t] by simp
  qed
qed simp

lemma deadline_blocks:
  assumes "zero_time < u" and "u \<le> deadline (l_name l) s st" and "now < u"
  shows "blocked_until get now l s st \<noteq> None"
proof -
  obtain r where "get (l_name l) s st = Some r"
    using assms by (auto simp: deadline_def split: option.splits)
  then show ?thesis using assms by (auto simp: blocked_until_def deadline_def)
qed

lemma noted_reaches:
  assumes "ok st" and "ns_second \<le> t" and "u \<le> t" and "ns_second \<le> u"
    and "note_deadline upd l s t st = (Some t, st')"
  shows "stored u \<le> deadline (l_name l) s st'"
proof -
  have nz: "to_unix t \<noteq> 0" using assms(2) by (simp add: to_unix_0_iff zero_time_def ns_defs)
  show ?thesis
  proof (cases "deadline (l_name l) s st < t")
    case True
    then show ?thesis
      using note_deadline_at(1) [OF assms(1,5)] nz stored_mono [OF assms(4,3)] by simp
  next
    case False
    then have "deadline (l_name l) s st' = deadline (l_name l) s st"
      using note_deadline_at(1) [OF assms(1,5)] by simp
    then show ?thesis using False stored_le [OF assms(4)] assms(3) by simp
  qed
qed

text \<open>A recorded deadline blocks, whatever the passes spend or record afterwards.\<close>

lemma noted_blocks:
  assumes "ok st" and "ns_second \<le> t" and "note_deadline upd l s t st = (Some t, st')"
    and "now < stored t"
  shows "\<exists>u why. blocked_until get now l s (quota_run upd fl es st') = Some (u, why) \<and> stored t \<le> u \<and>
    tracker_remaining get fl now l s (quota_run upd fl es st') = Some 0"
proof -
  let ?d = "deadline (l_name l) s"
  have ok': "ok st'" using note_ok [OF assms(1), of l s t] assms(3) by simp
  have nz: "to_unix t \<noteq> 0" using assms(2) by (simp add: to_unix_0_iff zero_time_def ns_defs)
  have d': "stored t \<le> ?d st'"
  proof (cases "?d st < t")
    case True
    then show ?thesis using note_deadline_at(1) [OF assms(1,3)] nz by simp
  next
    case False
    then have "?d st' = ?d st" using note_deadline_at(1) [OF assms(1,3)] by simp
    then show ?thesis using False stored_le [OF assms(2)] by simp
  qed
  then have d: "stored t \<le> ?d (quota_run upd fl es st')"
    using run_grows [OF ok', of "l_name l" s fl es] by simp
  have pos: "zero_time < stored t"
    using assms(2) stored_le [OF assms(2)] by (simp add: zero_time_def ns_defs)
  then obtain r where g: "get (l_name l) s (quota_run upd fl es st') = Some r"
    using d by (auto simp: deadline_def split: option.splits)
  then have "stored t \<le> rb_reset_at r" using d by (simp add: deadline_def)
  then show ?thesis using g pos assms(4)
    by (auto simp: blocked_until_def tracker_remaining_def)
qed

end

section \<open>The state store is such a store\<close>

abbreviation get_bucket :: "db bucket_get" where
  "get_bucket l s d \<equiv> Some (get_rate_bucket l s d)"

lemma get_put_bucket:
  "get_rate_bucket l s (put_rate_bucket b d) =
     (if (l, s) = (rb_limit b, rb_scope b)
      then (let new = b\<lparr>rb_observed_at := stored (rb_observed_at b), rb_reset_at := stored (rb_reset_at b)\<rparr>
            in case row_get rb_key (l, s) (d_buckets d) of None \<Rightarrow> new
               | Some q \<Rightarrow> bucket_merge (to_unix (rb_reset_at b) \<noteq> 0) q new)
      else get_rate_bucket l s d)"
  by (auto simp: get_rate_bucket_def put_rate_bucket_def rows Let_def split: option.splits)

lemma bucket_whole: "rows_ok d \<Longrightarrow> bucket_ok (get_rate_bucket l s d)"
  by (auto simp: get_rate_bucket_def zero_bucket_def rows_ok_def list_all_iff bucket_ok_def
      split: option.splits dest!: row_get_Some)

interpretation sb: bucket_store get_bucket update_rate_bucket rows_ok
proof
  fix st l s r
  assume "rows_ok st" "Some (get_rate_bucket l s st) = Some r"
  then show "stored (rb_reset_at r) = rb_reset_at r"
    using bucket_whole [of st l s] by (simp add: bucket_ok_def)
next
  fix st l s f st'
  assume o: "rows_ok st" and u: "update_rate_bucket l s f st = Some st'"
  from u obtain b where b: "f (get_rate_bucket l s st) = Some b" "rb_limit b = l" "rb_scope b = s"
    and st': "st' = put_rate_bucket b st"
    by (auto simp: update_rate_bucket_def split: option.splits if_splits)
  show "rows_ok st'" using store_step_rows [OF o, of 0 "PutBucket b"] st' by simp
  have z: "row_get rb_key (l, s) (d_buckets st) = None \<Longrightarrow> rb_reset_at (get_rate_bucket l s st) = zero_time"
    by (simp add: get_rate_bucket_def zero_bucket_def)
  show "\<exists>r b r'. Some (get_rate_bucket l s st) = Some r \<and> f r = Some b \<and>
      Some (get_rate_bucket l s st') = Some r' \<and> rb_tokens r' = rb_tokens b \<and>
      rb_observed_at r' = stored (rb_observed_at b) \<and>
      rb_reset_at r' = (if to_unix (rb_reset_at b) = 0 then rb_reset_at r else stored (rb_reset_at b))"
  proof (cases "row_get rb_key (l, s) (d_buckets st)")
    case None
    then show ?thesis using b z by (auto simp: st' get_put_bucket Let_def)
  next
    case (Some q)
    then have "get_rate_bucket l s st = q" by (simp add: get_rate_bucket_def)
    then show ?thesis using b Some
      by (auto simp: st' get_put_bucket Let_def bucket_merge_def)
  qed
  show "get_bucket l' s' st' = get_bucket l' s' st" if "(l', s') \<noteq> (l, s)" for l' s'
    using that b by (auto simp: st' get_put_bucket)
qed

lemma note_deadline_succeeds:
  "t \<noteq> zero_time \<Longrightarrow> fst (note_deadline update_rate_bucket l s t d) = Some t"
  by (auto simp: note_deadline_def update_rate_bucket_def deadline_bucket_def get_rate_bucket_def
        zero_bucket_def split: option.splits dest!: row_get_Some)

section \<open>What the tracker promises over the state store\<close>

text \<open>
  C31. Once a refusal's deadline is recorded, the limit reads as blocked and empty until that
  instant (to the second the store keeps), whatever is spent and whatever other refusals are
  recorded afterwards, in any order: a stale, earlier deadline never rolls it back.
\<close>

theorem noted_deadline_blocks:
  assumes "rows_ok d" and "ns_second \<le> t" and "now < stored t"
    and "d' = quota_run update_rate_bucket fl es (snd (note_deadline update_rate_bucket l s t d))"
  shows "\<exists>u why. blocked_until get_bucket now l s d' = Some (u, why) \<and> stored t \<le> u \<and>
    tracker_remaining get_bucket fl now l s d' = Some 0"
proof -
  have "zero_time \<noteq> t" using assms(2) by (simp add: zero_time_def ns_defs)
  then have "note_deadline update_rate_bucket l s t d =
      (Some t, snd (note_deadline update_rate_bucket l s t d))"
    by (auto simp: note_deadline_def update_rate_bucket_def deadline_bucket_def get_rate_bucket_def
        zero_bucket_def split: option.splits dest!: row_get_Some)
  from sb.noted_blocks [OF assms(1,2) this assms(3)] show ?thesis
    unfolding assms(4) by blast
qed

theorem noted_deadline_blocks_witness:
  "tracker_remaining get_bucket (\<lambda>x. x) 4000000000 new_orders_per_account []
     (quota_run update_rate_bucket (\<lambda>x. x) [Noted new_orders_per_account [] 2000000000]
       (snd (note_deadline update_rate_bucket new_orders_per_account [] 9500000000 sample_db))) = Some 0"
proof -
  have h: "ns_second \<le> 9500000000" "4000000000 < stored 9500000000"
    by (simp_all add: ns_defs to_unix_def from_unix_def unix_def zero_time_def)
  show ?thesis
    using noted_deadline_blocks [OF sample_db_ok(2) h refl, where fl = "\<lambda>x. x"
        and es = "[Noted new_orders_per_account [] 2000000000]" and l = new_orders_per_account and s = "[]"]
    by blast
qed

text \<open>In exact arithmetic the level is linear in the time since the anchor.\<close>

lemma level_linear:
  assumes "0 < l_capacity l" "0 < l_refill l" "s_at s \<noteq> zero_time" "s_at s \<le> now" "now - s_at s < 2 ^ 63"
  shows "level (\<lambda>x. x) s l now = s_tokens s + of_int (now - s_at s) / of_int (l_refill l)"
proof (cases "s_at s < now")
  case True
  have "time_sub now (s_at s) = now - s_at s" using assms(4,5) by (simp add: time_sub_exact)
  then show ?thesis using assms True whole_plus_frac [of "l_refill l" "now - s_at s"]
    by (simp add: level_def Let_def)
next
  case False
  then show ?thesis using assms by (simp add: level_def)
qed

lemma remaining_shift:
  assumes "level fl s l now \<le> level fl s' l now" "level fl s' l now \<le> level fl s l now + e" "0 \<le> e"
    and "0 \<le> l_capacity l"
  shows "remaining fl s l now \<le> remaining fl s' l now \<and> remaining fl s' l now \<le> remaining fl s l now + e"
  using assms by (auto simp: remaining_def Let_def)

lemma bucket_after_spend:
  "get_rate_bucket (l_name l) s (tracker_spend update_rate_bucket fl now l s (Finite c) d) =
     (let b = spend_bucket fl l c now (get_rate_bucket (l_name l) s d)
      in b\<lparr>rb_observed_at := stored (rb_observed_at b)\<rparr>)" if "rows_ok d"
proof -
  let ?r = "get_rate_bucket (l_name l) s d"
  have id: "rb_limit ?r = l_name l" "rb_scope ?r = s"
    by (auto simp: get_rate_bucket_def zero_bucket_def split: option.splits dest!: row_get_Some)
  have w: "stored (rb_reset_at ?r) = rb_reset_at ?r" using bucket_whole [OF that] by (simp add: bucket_ok_def)
  have z: "row_get rb_key (l_name l, s) (d_buckets d) = Some q \<Longrightarrow> ?r = q" for q
    by (simp add: get_rate_bucket_def)
  show ?thesis using id w
    by (auto simp: tracker_spend_def update_rate_bucket_def spend_bucket_def Let_def get_put_bucket
        bucket_merge_def dest!: z split: option.splits)
qed



text \<open>
  A report never turns trouble into an all-clear: a bucket that cannot be read is
  unreadable and not zero or full, a deadline in force is reported with its instant, and
  a published remainder lies between nothing and the capacity and is only given for a limit this
  program spends.
\<close>

theorem quota_report_honest:
  assumes "0 \<le> l_capacity l"
  shows "(get (l_name l) s st = None \<longrightarrow> q_unreadable (quota_report get fl now l s st)) \<and>
    (\<forall>r. get (l_name l) s st = Some r \<longrightarrow> \<not> q_unreadable (quota_report get fl now l s st) \<and>
      (q_blocked (quota_report get fl now l s st) \<longleftrightarrow> rb_reset_at r \<noteq> zero_time \<and> now < rb_reset_at r) \<and>
      (q_blocked (quota_report get fl now l s st) \<longrightarrow>
        q_blocked_until (quota_report get fl now l s st) = rb_reset_at r \<and>
        q_remaining (quota_report get fl now l s st) = 0)) \<and>
    0 \<le> q_remaining (quota_report get fl now l s st) \<and>
    q_remaining (quota_report get fl now l s st) \<le> l_capacity l \<and>
    (l_spent_by_ca l \<longrightarrow> q_remaining (quota_report get fl now l s st) = 0)"
proof (cases "get (l_name l) s st")
  case None
  then show ?thesis using assms
    by (simp add: quota_report_def blocked_until_def tracker_remaining_def Let_def)
next
  case (Some r)
  then show ?thesis using assms remaining_bounds [OF assms]
    by (simp add: quota_report_def blocked_until_def tracker_remaining_def Let_def)
qed

theorem quota_report_honest_witness:
  "q_unreadable (quota_report (\<lambda>_ _ _. None) (\<lambda>x. x) 5 new_orders_per_account [] sample_db)"
proof -
  have h: "0 \<le> l_capacity new_orders_per_account" by (simp add: limit_defs)
  show ?thesis using quota_report_honest [OF h, where get = "\<lambda>_ _ _. None" and st = sample_db] by simp
qed

end
