(* ===== verification/Domain.thy ===== *)
theory Domain
  imports Prelude
begin

text \<open>
  \<open>internal/config/domain.go\<close>: what a certificate name has to look like
  (\<open>validateDomain\<close>), how a list of names is normalised (\<open>normalizeDomains\<close>), the
  order-free fingerprint every comparison of domain sets goes through (\<open>DomainKey\<close>,
  \<open>DiffDomains\<close>), the redundant-wildcard check, the contact-address check and the expiry
  arithmetic.

  What the sources call and the repository does not contain is gathered in the record
  \<open>golib\<close>: \<open>net.ParseIP\<close> and the Public Suffix List of \<open>golang.org/x/net\<close>.
\<close>

record golib =
  parse_ip :: "string \<Rightarrow> bool"
  public_suffix :: "string \<Rightarrow> string"
  etld_plus_one :: "string \<Rightarrow> string option"

section \<open>Validating one name\<close>

datatype domain_error =
    EmptyDomain
  | TrailingDot
  | TooLong
  | WhitespaceOrSlash
  | IsIPAddress
  | IsPublicSuffix
  | EmptyLabel
  | LongLabel string
  | LabelHyphen string
  | LabelCharacter string char
  | WildcardNotLeftmost
  | SecondWildcard

definition is_wildcard :: "string \<Rightarrow> bool" where
  "is_wildcard n \<longleftrightarrow> prefix ''*.'' n"

definition base_name :: "string \<Rightarrow> string" where
  "base_name n = trim_prefix ''*.'' n"

definition label_char :: "char \<Rightarrow> bool" where
  "label_char ch \<longleftrightarrow> (let n = (of_char ch :: nat) in
     (97 \<le> n \<and> n \<le> 122) \<or> (48 \<le> n \<and> n \<le> 57) \<or> ch = CHR ''-'')"

definition check_label :: "string \<Rightarrow> domain_error option" where
  "check_label label =
     (if label = ''*'' then None
      else if label = [] then Some EmptyLabel
      else if 63 < length label then Some (LongLabel label)
      else if prefix ''-'' label \<or> suffix ''-'' label then Some (LabelHyphen label)
      else case find (\<lambda>ch. \<not> label_char ch) label of
          Some ch \<Rightarrow> Some (LabelCharacter label ch)
        | None \<Rightarrow> None)"

fun check_labels :: "string list \<Rightarrow> domain_error option" where
  "check_labels [] = None"
| "check_labels (l # ls) = (case check_label l of Some e \<Rightarrow> Some e | None \<Rightarrow> check_labels ls)"

definition contains_any :: "string \<Rightarrow> string \<Rightarrow> bool" where
  "contains_any s cs \<longleftrightarrow> list_ex (\<lambda>c. c \<in> set cs) s"

definition ws_or_slash :: string where
  "ws_or_slash = [CHR '' '', CHR 0x09, CHR 0x0D, CHR 0x0A, CHR ''/'']"

definition validate_domain :: "golib \<Rightarrow> string \<Rightarrow> domain_error option" where
  "validate_domain L d =
     (if d = [] then Some EmptyDomain
      else if suffix ''.'' d then Some TrailingDot
      else if 253 < length d then Some TooLong
      else if contains_any d ws_or_slash then Some WhitespaceOrSlash
      else if parse_ip L (base_name d) then Some IsIPAddress
      else if base_name d \<noteq> [] \<and> public_suffix L (base_name d) = base_name d then Some IsPublicSuffix
      else case check_labels (split_on (CHR ''.'') d) of
          Some e \<Rightarrow> Some e
        | None \<Rightarrow>
            if CHR ''*'' \<in> set d then
              (if \<not> prefix ''*.'' d then Some WildcardNotLeftmost
               else if CHR ''*'' \<in> set (drop 2 d) then Some SecondWildcard
               else None)
            else None)"

text \<open>The labels a name is made of, and what an accepted one looks like.\<close>

definition host_label :: "string \<Rightarrow> bool" where
  "host_label l \<longleftrightarrow> l \<noteq> [] \<and> length l \<le> 63 \<and> hd l \<noteq> CHR ''-'' \<and> last l \<noteq> CHR ''-'' \<and>
     list_all label_char l"

definition host_name :: "string \<Rightarrow> bool" where
  "host_name n \<longleftrightarrow> list_all host_label (split_on (CHR ''.'') n)"

lemma label_char_simps [simp]:
  "\<not> label_char (CHR ''*'')" "\<not> label_char (CHR ''.'')" "\<not> label_char (CHR '','')"
  "label_char (CHR ''-'')" "\<not> label_char (CHR '':'')"
  by (simp_all add: label_char_def)

lemma lower_char_label [simp]: "label_char c \<Longrightarrow> lower_char c = c"
  by (auto simp: label_char_def lower_char_def Let_def)

lemma suffix_single: "suffix [c] s \<longleftrightarrow> s \<noteq> [] \<and> last s = c"
  by (cases s rule: rev_cases) (auto simp: suffix_def)

lemma prefix_single: "prefix [c] s \<longleftrightarrow> s \<noteq> [] \<and> hd s = c"
  by (cases s) (auto simp: prefix_def)

lemma check_label_None: "check_label l = None \<longleftrightarrow> l = ''*'' \<or> host_label l"
proof (cases "l = ''*''")
  case False
  have "find (\<lambda>ch. \<not> label_char ch) l = None \<longleftrightarrow> list_all label_char l"
    by (auto simp: find_None_iff list_all_iff)
  then show ?thesis using False
    by (auto simp: check_label_def host_label_def suffix_single prefix_single split: option.splits)
qed (simp add: check_label_def)

lemma check_labels_None: "check_labels ls = None \<longleftrightarrow> (\<forall>l \<in> set ls. l = ''*'' \<or> host_label l)"
proof (induction ls)
  case (Cons l ls)
  show ?case
  proof (cases "check_label l")
    case None
    then show ?thesis using Cons check_label_None [of l] by simp
  next
    case (Some e)
    then have "\<not> (l = ''*'' \<or> host_label l)"
      using check_label_None [of l] by simp
    then show ?thesis using Some by auto
  qed
qed simp

lemma host_label_no_star: "host_label l \<Longrightarrow> CHR ''*'' \<notin> set l"
  by (auto simp: host_label_def list_all_iff)

lemma set_split_on: "x \<in> set s \<Longrightarrow> x \<noteq> c \<Longrightarrow> \<exists>w \<in> set (split_on c s). x \<in> set w"
  by (induction s) (auto split: list.splits if_splits)

lemma split_on_Nil_iff: "split_on c s = [[]] \<longleftrightarrow> s = []"
  by (cases s) (auto split: list.splits if_splits)

lemma set_split_on_rev: "w \<in> set (split_on c s) \<Longrightarrow> set w \<subseteq> set s"
proof (induction s arbitrary: w)
  case (Cons x xs)
  then show ?case
    by (cases "split_on c xs") (fastforce split: if_splits)+
qed simp

lemma host_name_chars: "host_name n \<Longrightarrow> x \<in> set n \<Longrightarrow> label_char x \<or> x = CHR ''.''"
  using set_split_on [of x n "CHR ''.''"] by (fastforce simp: host_name_def host_label_def list_all_iff)

lemma wildcard_split: "split_on (CHR ''.'') (''*.'' @ b) = ''*'' # split_on (CHR ''.'') b"
  using split_on_append_sep [of "CHR ''.''" "''*''" b] by simp

lemma wildcard_decomp: "is_wildcard d \<longleftrightarrow> d = ''*.'' @ base_name d"
  by (auto simp: is_wildcard_def base_name_def trim_prefix_def prefix_def)

lemma base_not_wildcard: "\<not> is_wildcard d \<Longrightarrow> base_name d = d"
  by (simp add: is_wildcard_def base_name_def trim_prefix_def)

text \<open>
  A name is accepted exactly when it is a host name, or one wildcard label followed by a host
  name, within the length limit, and its base is neither an address nor a public suffix.
\<close>

lemma validate_domain_host:
  assumes ok: "validate_domain L d = None"
  shows "host_name (base_name d)"
proof -
  have ls: "\<forall>l \<in> set (split_on (CHR ''.'') d). l = ''*'' \<or> host_label l"
    and star: "CHR ''*'' \<in> set d \<Longrightarrow> is_wildcard d \<and> CHR ''*'' \<notin> set (drop 2 d)"
    using ok by (auto simp: validate_domain_def check_labels_None is_wildcard_def
        split: if_splits option.splits)
  show ?thesis
  proof (cases "is_wildcard d")
    case True
    then have d: "d = ''*.'' @ base_name d" using wildcard_decomp by blast
    then have "CHR ''*'' \<in> set d" by (metis list.set_intros(1) append_Cons)
    with star have "CHR ''*'' \<notin> set (drop 2 d)" by blast
    then have nostar: "CHR ''*'' \<notin> set (base_name d)" using d
      by (metis append_eq_conv_conj length_Cons list.size(3) numeral_2_eq_2)
    have "split_on (CHR ''.'') d = ''*'' # split_on (CHR ''.'') (base_name d)"
      using wildcard_split [of "base_name d"] d by argo
    then have "set (split_on (CHR ''.'') d) = insert ''*'' (set (split_on (CHR ''.'') (base_name d)))"
      by (simp only: list.set)
    then show ?thesis
      using ls nostar set_split_on_rev [of "''*''" "CHR ''.''" "base_name d"]
      by (auto simp: host_name_def list_all_iff)
  next
    case False
    then have "CHR ''*'' \<notin> set d" using star by blast
    then have "\<forall>l \<in> set (split_on (CHR ''.'') d). l \<noteq> ''*''"
      using set_split_on_rev [of "''*''" "CHR ''.''" d] by auto
    then show ?thesis
      using ls False by (auto simp: host_name_def list_all_iff base_not_wildcard)
  qed
qed

lemma validate_domain_facts:
  assumes "validate_domain L d = None"
  shows "d \<noteq> []" "length d \<le> 253" "\<not> parse_ip L (base_name d)"
    "base_name d \<noteq> [] \<Longrightarrow> public_suffix L (base_name d) \<noteq> base_name d"
  using assms by (auto simp: validate_domain_def split: if_splits)

lemma host_name_not_Nil: "host_name n \<Longrightarrow> n \<noteq> []"
  by (auto simp: host_name_def host_label_def)

lemma last_split_on: "s \<noteq> [] \<Longrightarrow> last s = c \<Longrightarrow> last (split_on c s) = []"
  by (induction s) (auto simp: split_on_Nil_iff split: list.splits if_splits)

lemma host_name_last: "host_name n \<Longrightarrow> last n \<noteq> CHR ''.''"
  using last_split_on [of n "CHR ''.''"] host_name_not_Nil [of n]
  by (metis host_label_def host_name_def last_in_set list_all_iff split_on_not_Nil)

lemma host_name_no_blank: "host_name n \<Longrightarrow> \<not> contains_any n ws_or_slash"
  using host_name_chars [of n]
  by (fastforce simp: contains_any_def ws_or_slash_def list_ex_iff label_char_def)

lemma host_name_no_star: "host_name n \<Longrightarrow> CHR ''*'' \<notin> set n"
  using host_name_chars [of n] by fastforce

text \<open>
  The names wecert accepts: \<open>validateDomain\<close> returns no error exactly for a host name,
  optionally behind one leftmost wildcard label, of at most 253 bytes, whose base is neither
  an IP address nor itself a public suffix.
\<close>

theorem validate_domain_iff:
  "validate_domain L d = None \<longleftrightarrow>
     (d = base_name d \<or> d = ''*.'' @ base_name d) \<and> host_name (base_name d) \<and> length d \<le> 253 \<and>
     \<not> parse_ip L (base_name d) \<and> public_suffix L (base_name d) \<noteq> base_name d"
proof
  assume ok: "validate_domain L d = None"
  show "(d = base_name d \<or> d = ''*.'' @ base_name d) \<and> host_name (base_name d) \<and>
     length d \<le> 253 \<and> \<not> parse_ip L (base_name d) \<and> public_suffix L (base_name d) \<noteq> base_name d"
    using validate_domain_host [OF ok] validate_domain_facts [OF ok] wildcard_decomp
      base_not_wildcard host_name_not_Nil by metis
next
  assume h: "(d = base_name d \<or> d = ''*.'' @ base_name d) \<and> host_name (base_name d) \<and>
     length d \<le> 253 \<and> \<not> parse_ip L (base_name d) \<and> public_suffix L (base_name d) \<noteq> base_name d"
  obtain b where b: "base_name d = b" by simp
  have hb: "host_name b" using h b by simp
  have nb: "b \<noteq> []" "last b \<noteq> CHR ''.''" "CHR ''*'' \<notin> set b" "\<not> contains_any b ws_or_slash"
    using hb host_name_not_Nil host_name_last host_name_no_star host_name_no_blank by blast+
  have lb: "check_labels (split_on (CHR ''.'') b) = None"
    using hb by (simp add: check_labels_None host_name_def list_all_iff)
  consider "d = b" | "d = ''*.'' @ b" using h b by auto
  then show "validate_domain L d = None"
  proof cases
    case 1
    then show ?thesis using h b nb lb by (simp add: validate_domain_def suffix_single)
  next
    case 2
    have "check_labels (split_on (CHR ''.'') d) = None"
      using lb 2 wildcard_split [of b] by (simp add: check_label_def)
    moreover have "\<not> suffix ''.'' d" using 2 nb by (simp add: suffix_single)
    moreover have "\<not> contains_any d ws_or_slash"
      using 2 nb by (simp add: contains_any_def ws_or_slash_def)
    moreover have "prefix ''*.'' d" using 2 by simp
    moreover have "drop 2 d = b" using 2 by simp
    ultimately show ?thesis using h b nb 2 by (simp add: validate_domain_def)
  qed
qed

section \<open>Normalising a list of names\<close>

definition canonical :: "string \<Rightarrow> string" where
  "canonical d = to_lower (trim_space d)"

text \<open>The loop of \<open>normalizeDomains\<close>: the first bad name ends it with its error.\<close>

fun normalize_from :: "golib \<Rightarrow> string list \<Rightarrow> string list \<Rightarrow> domain_error + string list" where
  "normalize_from L seen [] = Inr []"
| "normalize_from L seen (raw # rest) =
     (let d = canonical raw in
      case validate_domain L d of
        Some e \<Rightarrow> Inl e
      | None \<Rightarrow>
          (if d \<in> set seen then normalize_from L seen rest
           else case normalize_from L (d # seen) rest of
               Inl e \<Rightarrow> Inl e
             | Inr ds \<Rightarrow> Inr (d # ds)))"

definition normalize_domains :: "golib \<Rightarrow> string list \<Rightarrow> domain_error + string list" where
  "normalize_domains L ds = normalize_from L [] ds"

text \<open>
  Reference: validate every canonical name, then drop repetitions. The interleaved loop
  of the code computes it.
\<close>

lemma normalize_from_Inr:
  "normalize_from L seen ds = Inr out \<longleftrightarrow>
     (\<forall>d \<in> set ds. validate_domain L (canonical d) = None) \<and>
     out = dedup_from seen (map canonical ds)"
proof (induction L seen ds arbitrary: out rule: normalize_from.induct)
  case (1 L seen)
  then show ?case by auto
next
  case (2 L seen raw rest)
  show ?case
  proof (cases "validate_domain L (canonical raw)")
    case (Some e)
    then show ?thesis by (simp add: Let_def)
  next
    case None
    note IH = "2.IH"(1) [OF refl None] "2.IH"(2) [OF refl None]
    show ?thesis
    proof (cases "canonical raw \<in> set seen")
      case True
      then show ?thesis using IH(1) None by (auto simp: Let_def)
    next
      case False
      then show ?thesis
        using IH(2) None by (cases "normalize_from L (canonical raw # seen) rest") (auto simp: Let_def)
    qed
  qed
qed

lemma normalize_domains_Inr:
  "normalize_domains L ds = Inr out \<longleftrightarrow>
     (\<forall>d \<in> set ds. validate_domain L (canonical d) = None) \<and> out = dedup (map canonical ds)"
  by (simp add: normalize_domains_def normalize_from_Inr)

section \<open>The fingerprint of a domain set\<close>

definition key_names :: "string list \<Rightarrow> string list" where
  "key_names ds = sort (dedup (filter (\<lambda>d. d \<noteq> []) (map canonical ds)))"

definition domain_key :: "string list \<Rightarrow> string" where
  "domain_key ds = join_with '','' (key_names ds)"

definition key_set :: "string list \<Rightarrow> string set" where
  "key_set ds = canonical ` set ds - {[]}"

lemma set_key_names [simp]: "set (key_names ds) = key_set ds"
  by (auto simp: key_names_def key_set_def)

lemma key_names_cong: "key_set xs = key_set ys \<Longrightarrow> key_names xs = key_names ys"
  unfolding key_names_def by (rule sort_dedup_cong) (auto simp: key_set_def)

lemma join_nonempty: "ws \<noteq> [] \<Longrightarrow> hd ws \<noteq> [] \<Longrightarrow> join_with sep ws \<noteq> []"
  by (cases ws; cases "tl ws") auto

lemma join_inj:
  assumes "join_with [c] ws = join_with [c] vs"
    and "\<forall>w \<in> set ws. c \<notin> set w \<and> w \<noteq> []" and "\<forall>w \<in> set vs. c \<notin> set w \<and> w \<noteq> []"
  shows "ws = vs"
proof (cases "ws = [] \<or> vs = []")
  case True
  then show ?thesis
    using assms join_nonempty [of ws "[c]"] join_nonempty [of vs "[c]"] by fastforce
next
  case False
  then show ?thesis using assms split_join [of ws c] split_join [of vs c] by metis
qed

definition comma_free :: "string list \<Rightarrow> bool" where
  "comma_free ds \<longleftrightarrow> list_all (\<lambda>d. CHR '','' \<notin> set d) ds"

lemma of_char_lower:
  "(of_char (lower_char c) :: nat) =
     (if 65 \<le> (of_char c :: nat) \<and> (of_char c :: nat) \<le> 90 then of_char c + 32 else of_char c)"
  by (simp add: lower_char_def Let_def)

lemma lower_comma: "lower_char c = CHR '','' \<longleftrightarrow> c = CHR '',''"
proof -
  have "lower_char c = CHR '','' \<longleftrightarrow> (of_char (lower_char c) :: nat) = 44"
    using of_char_eq_iff [of "lower_char c" "CHR '',''", where ?'a = nat] by simp
  also have "\<dots> \<longleftrightarrow> (of_char c :: nat) = 44"
    by (simp add: of_char_lower)
  also have "\<dots> \<longleftrightarrow> c = CHR '',''"
    using of_char_eq_iff [of c "CHR '',''", where ?'a = nat] by simp
  finally show ?thesis .
qed

lemma comma_free_key: "comma_free ds \<Longrightarrow> w \<in> key_set ds \<Longrightarrow> CHR '','' \<notin> set w \<and> w \<noteq> []"
proof -
  assume cf: "comma_free ds" and w: "w \<in> key_set ds"
  then obtain d where d: "d \<in> set ds" "w = canonical d" "w \<noteq> []" by (auto simp: key_set_def)
  have "CHR '','' \<notin> set (trim_space d)"
    using cf d(1) set_trim_space [of d] by (auto simp: comma_free_def list_all_iff)
  then have "CHR '','' \<notin> lower_char ` set (trim_space d)"
    using lower_comma by (metis imageE)
  then have "CHR '','' \<notin> set w"
    using d(2) by (simp add: canonical_def to_lower_def)
  then show ?thesis using d(3) by simp
qed

text \<open>
  \<open>DomainKey\<close> compares sets: two lists of names (without commas, which no host name has)
  get the same fingerprint exactly when they hold the same non-empty names up to case,
  surrounding blanks, order and repetition.
\<close>

theorem domain_key_eq_iff:
  assumes "comma_free xs" and "comma_free ys"
  shows "domain_key xs = domain_key ys \<longleftrightarrow> key_set xs = key_set ys"
proof
  assume "domain_key xs = domain_key ys"
  then have "join_with [CHR '',''] (key_names xs) = join_with [CHR '',''] (key_names ys)"
    by (simp add: domain_key_def)
  then have "key_names xs = key_names ys"
    by (rule join_inj) (use assms comma_free_key in simp_all)
  then show "key_set xs = key_set ys" by (metis set_key_names)
next
  assume "key_set xs = key_set ys"
  then have "key_names xs = key_names ys" by (rule key_names_cong)
  then show "domain_key xs = domain_key ys" by (simp add: domain_key_def)
qed

theorem domain_key_eq_iff_witness:
  "domain_key [''B.example.com'', ''a.example.com''] = domain_key [''a.example.com'', '' b.example.com'']"
proof -
  have h: "comma_free [''B.example.com'', ''a.example.com'']"
    "comma_free [''a.example.com'', '' b.example.com'']" by code_simp+
  have "key_names [''B.example.com'', ''a.example.com''] = key_names [''a.example.com'', '' b.example.com'']"
    by code_simp
  then have "key_set [''B.example.com'', ''a.example.com''] = key_set [''a.example.com'', '' b.example.com'']"
    using set_key_names by metis
  then show ?thesis using domain_key_eq_iff [OF h] by simp
qed

lemma domain_key_cong: "key_set xs = key_set ys \<Longrightarrow> domain_key xs = domain_key ys"
  using key_names_cong [of xs ys] by (simp add: domain_key_def)

lemma domain_key_set: "set xs = set ys \<Longrightarrow> domain_key xs = domain_key ys"
  by (rule domain_key_cong) (simp add: key_set_def)

text \<open>\<open>DiffDomains\<close>: what one set has and the other lacks, both ways, each list sorted.\<close>

definition diff_domains :: "string list \<Rightarrow> string list \<Rightarrow> string list \<times> string list" where
  "diff_domains want got =
     (let w = map canonical want; h = map canonical got in
      (sort (dedup (filter (\<lambda>d. d \<notin> set h) w)), sort (dedup (filter (\<lambda>d. d \<notin> set w) h))))"

lemma diff_domains_sets:
  "set (fst (diff_domains w h)) = canonical ` set w - canonical ` set h"
  "set (snd (diff_domains w h)) = canonical ` set h - canonical ` set w"
  by (auto simp: diff_domains_def Let_def)

text \<open>
  \<open>DiffDomains\<close> sees both directions of drift: its two lists are the sorted set
  differences, and they are both empty exactly when the two lists hold the same names up to
  case and blanks.
\<close>

theorem diff_domains_correct:
  "set (fst (diff_domains w h)) = canonical ` set w - canonical ` set h \<and>
   set (snd (diff_domains w h)) = canonical ` set h - canonical ` set w \<and>
   sorted (fst (diff_domains w h)) \<and> sorted (snd (diff_domains w h)) \<and>
   (diff_domains w h = ([], []) \<longleftrightarrow> canonical ` set w = canonical ` set h)"
proof -
  have "sorted (fst (diff_domains w h))" "sorted (snd (diff_domains w h))"
    by (simp_all add: diff_domains_def Let_def)
  moreover have "diff_domains w h = ([], []) \<longleftrightarrow>
      set (fst (diff_domains w h)) = {} \<and> set (snd (diff_domains w h)) = {}"
    by (cases "diff_domains w h") simp
  ultimately show ?thesis unfolding diff_domains_sets by blast
qed

section \<open>Wildcards that make an explicit name redundant\<close>

text \<open>
  \<open>rejectRedundantWildcardNames\<close>: the first wildcard and the first name under it by exactly
  one label, if any.
\<close>

definition redundant_under :: "string \<Rightarrow> string \<Rightarrow> bool" where
  "redundant_under wc name \<longleftrightarrow>
     (let parent = base_name wc in
      name \<noteq> wc \<and> name \<noteq> parent \<and> suffix (''.'' @ parent) name \<and>
      (let p = trim_suffix (''.'' @ parent) name in p \<noteq> [] \<and> CHR ''.'' \<notin> set p))"

fun reject_redundant_wildcards :: "string list \<Rightarrow> string list \<Rightarrow> (string \<times> string) option" where
  "reject_redundant_wildcards all [] = None"
| "reject_redundant_wildcards all (w # ws) =
     (if \<not> is_wildcard w then reject_redundant_wildcards all ws
      else case find (redundant_under w) all of
          Some n \<Rightarrow> Some (w, n)
        | None \<Rightarrow> reject_redundant_wildcards all ws)"

lemma reject_redundant_None:
  "reject_redundant_wildcards all ws = None \<longleftrightarrow>
     (\<forall>w \<in> set ws. is_wildcard w \<longrightarrow> (\<forall>n \<in> set all. \<not> redundant_under w n))"
proof (induction ws)
  case (Cons w ws)
  then show ?case
    using find_None_iff [of "redundant_under w" all] by (cases "find (redundant_under w) all") auto
qed simp

section \<open>Expiry arithmetic\<close>

definition classic_validity :: duration where "classic_validity = 90 * 24 * ns_hour"

definition profile_validity :: "string \<Rightarrow> duration option" where
  "profile_validity p =
     (if p = ''classic'' then Some classic_validity
      else if p = ''tlsserver'' then Some (45 * 24 * ns_hour)
      else if p = ''shortlived'' then Some (160 * ns_hour)
      else None)"

definition expiry_warning_threshold :: "string \<Rightarrow> duration" where
  "expiry_warning_threshold p =
     (case profile_validity p of Some v \<Rightarrow> v | None \<Rightarrow> classic_validity) div 4"

definition days_until :: "instant \<Rightarrow> instant \<Rightarrow> int" where
  "days_until not_after now =
     (let left = time_sub not_after now in
      if left \<le> 0 then 0 else (left + 24 * ns_hour - 1) div (24 * ns_hour))"

text \<open>
  \<open>DaysUntil\<close> rounds up: it is 0 exactly when the certificate has expired, and
  otherwise it is the least number of whole days that covers what is left.
\<close>

theorem days_until_ceiling:
  "(days_until na now = 0 \<longleftrightarrow> na \<le> now) \<and>
   (now < na \<longrightarrow> time_sub na now \<le> days_until na now * (24 * ns_hour) \<and>
      (days_until na now - 1) * (24 * ns_hour) < time_sub na now)"
proof (cases "na \<le> now")
  case True
  then have "time_sub na now \<le> 0" by (simp add: time_sub_def)
  then show ?thesis using True by (simp add: days_until_def)
next
  case False
  define l where "l = time_sub na now"
  have l: "0 < l" using False by (simp add: l_def time_sub_def max_def min_def)
  define q where "q = (l + 24 * ns_hour - 1) div (24 * ns_hour)"
  have q: "days_until na now = q" using l by (simp add: days_until_def q_def l_def)
  have "l \<le> q * (24 * ns_hour) \<and> (q - 1) * (24 * ns_hour) < l \<and> 0 < q"
    using l unfolding q_def ns_hour_def by simp linarith
  then show ?thesis using False q by (simp add: l_def)
qed

theorem days_until_ceiling_witness:
  "(days_until (25 * ns_hour) 0 - 1) * (24 * ns_hour) < time_sub (25 * ns_hour) 0"
proof -
  have "0 < 25 * ns_hour" by (simp add: ns_hour_def)
  then show ?thesis using days_until_ceiling [of "25 * ns_hour" 0] by blast
qed

end
