(* ===== verification/Triples.thy ===== *)
theory Triples
  imports Main "HOL-Library.State_Monad"
begin

text \<open>
  Computations over a state, as \<open>HOL-Library.State_Monad\<close> has them, and reasoning about them:
  \<open>inv I m\<close> says that the computation \<open>m\<close> keeps the state predicate \<open>I\<close>, \<open>post P m Q\<close> is the usual
  triple, \<open>answers m R\<close> bounds the value returned. Rules for the sequencing, branching and looping the
  code uses are in the collection \<open>inv\<close>, so that keeping an invariant is one method call per operation
  over the collection.
\<close>

abbreviation ret :: "'a \<Rightarrow> ('s, 'a) state" where "ret \<equiv> State_Monad.return"

definition gets :: "('s \<Rightarrow> 'a) \<Rightarrow> ('s, 'a) state" where
  "gets f = State (\<lambda>w. (f w, w))"

definition modify :: "('s \<Rightarrow> 's) \<Rightarrow> ('s, unit) state" where
  "modify f = State (\<lambda>w. ((), f w))"

section \<open>Iteration\<close>

fun for_each :: "'a list \<Rightarrow> ('a \<Rightarrow> ('s, unit) state) \<Rightarrow> ('s, unit) state" where
  "for_each [] f = ret ()"
| "for_each (x # xs) f = do { f x; for_each xs f }"

fun map_pass :: "('a \<Rightarrow> ('s, 'b) state) \<Rightarrow> 'a list \<Rightarrow> ('s, 'b list) state" where
  "map_pass f [] = ret []"
| "map_pass f (x # xs) = do { y \<leftarrow> f x; ys \<leftarrow> map_pass f xs; ret (y # ys) }"

text \<open>A loop body that answers \<open>Some\<close> stops the loop with that answer.\<close>

fun find_first :: "'a list \<Rightarrow> ('a \<Rightarrow> ('s, 'b option) state) \<Rightarrow> ('s, 'b option) state" where
  "find_first [] f = ret None"
| "find_first (x # xs) f = do {
     r \<leftarrow> f x;
     case r of Some y \<Rightarrow> ret (Some y) | None \<Rightarrow> find_first xs f }"

section \<open>Invariants and triples\<close>

named_theorems inv \<open>rules for invariants of passes\<close>

definition inv :: "('s \<Rightarrow> bool) \<Rightarrow> ('s, 'a) state \<Rightarrow> bool" where
  "inv I m \<longleftrightarrow> (\<forall>w. I w \<longrightarrow> I (snd (run_state m w)))"

definition post :: "('s \<Rightarrow> bool) \<Rightarrow> ('s, 'a) state \<Rightarrow> ('a \<Rightarrow> 's \<Rightarrow> bool) \<Rightarrow> bool" where
  "post P m Q \<longleftrightarrow> (\<forall>w. P w \<longrightarrow> (case run_state m w of (r, w') \<Rightarrow> Q r w'))"

lemma inv_run: "inv I m \<Longrightarrow> I w \<Longrightarrow> run_state m w = (r, w') \<Longrightarrow> I w'"
  by (metis inv_def snd_conv)

lemma inv_ret [inv]: "inv I (ret x)"
  by (simp add: inv_def)

lemma inv_bind [inv]: "inv I m \<Longrightarrow> (\<And>x. inv I (f x)) \<Longrightarrow> inv I (State_Monad.bind m f)"
  by (auto simp: inv_def split: prod.splits)

lemma inv_gets [inv]: "inv I (gets f)"
  by (simp add: inv_def gets_def)

lemma inv_if [inv]: "(b \<Longrightarrow> inv I m) \<Longrightarrow> (\<not> b \<Longrightarrow> inv I n) \<Longrightarrow> inv I (if b then m else n)"
  by simp

lemma inv_option [inv]:
  "(x = None \<Longrightarrow> inv I m) \<Longrightarrow> (\<And>y. x = Some y \<Longrightarrow> inv I (f y)) \<Longrightarrow>
   inv I (case x of None \<Rightarrow> m | Some y \<Rightarrow> f y)"
  by (cases x) simp_all

lemma inv_sum [inv]:
  "(\<And>y. x = Inl y \<Longrightarrow> inv I (f y)) \<Longrightarrow> (\<And>z. x = Inr z \<Longrightarrow> inv I (g z)) \<Longrightarrow>
   inv I (case x of Inl y \<Rightarrow> f y | Inr z \<Rightarrow> g z)"
  by (cases x) simp_all

lemma inv_prod [inv]: "(\<And>a b. p = (a, b) \<Longrightarrow> inv I (f a b)) \<Longrightarrow> inv I (case p of (a, b) \<Rightarrow> f a b)"
  by (cases p) simp

lemma inv_bool [inv]: "(b \<Longrightarrow> inv I m) \<Longrightarrow> (\<not> b \<Longrightarrow> inv I n) \<Longrightarrow> inv I (case b of True \<Rightarrow> m | False \<Rightarrow> n)"
  by (cases b) simp_all

lemma inv_let [inv]: "(\<And>x. x = t \<Longrightarrow> inv I (f x)) \<Longrightarrow> inv I (Let t f)"
  by simp

lemma inv_for_each [inv]: "(\<And>x. x \<in> set xs \<Longrightarrow> inv I (f x)) \<Longrightarrow> inv I (for_each xs f)"
  by (induction xs) (auto intro!: inv)

lemma inv_map_pass [inv]: "(\<And>x. x \<in> set xs \<Longrightarrow> inv I (f x)) \<Longrightarrow> inv I (map_pass f xs)"
  by (induction xs) (auto intro!: inv)

lemma inv_find_first [inv]: "(\<And>x. x \<in> set xs \<Longrightarrow> inv I (f x)) \<Longrightarrow> inv I (find_first xs f)"
  by (induction xs) (auto intro!: inv)

lemma inv_modify: "(\<And>w. I w \<Longrightarrow> I (f w)) \<Longrightarrow> inv I (modify f)"
  by (simp add: inv_def modify_def)

lemma run_gets [simp]: "run_state (gets f) w = (f w, w)"
  by (simp add: gets_def)

lemma run_modify [simp]: "run_state (modify f) w = ((), f w)"
  by (simp add: modify_def)

lemma post_bind: "post P m R \<Longrightarrow> (\<And>x. post (R x) (f x) Q) \<Longrightarrow> post P (State_Monad.bind m f) Q"
  by (fastforce simp: post_def split: prod.splits)

lemma post_ret: "(\<And>w. P w \<Longrightarrow> Q x w) \<Longrightarrow> post P (ret x) Q"
  by (simp add: post_def)

lemma post_conseq: "post P m Q \<Longrightarrow> (\<And>w. P' w \<Longrightarrow> P w) \<Longrightarrow> (\<And>r w. Q r w \<Longrightarrow> Q' r w) \<Longrightarrow> post P' m Q'"
  by (fastforce simp: post_def split: prod.splits)

lemma post_inv: "inv I m \<Longrightarrow> post I m (\<lambda>_. I)"
  by (auto simp: post_def inv_def split: prod.splits)

lemma post_run: "post P m Q \<Longrightarrow> P w \<Longrightarrow> run_state m w = (r, w') \<Longrightarrow> Q r w'"
  by (fastforce simp: post_def)

section \<open>What a computation may answer\<close>

text \<open>\<open>answers m R\<close>: whatever the state, the value \<open>m\<close> returns satisfies \<open>R\<close>.\<close>

definition answers :: "('s, 'a) state \<Rightarrow> ('a \<Rightarrow> bool) \<Rightarrow> bool" where
  "answers m R \<longleftrightarrow> (\<forall>w. R (fst (run_state m w)))"

lemma answers_ret: "R x \<Longrightarrow> answers (ret x) R"
  by (simp add: answers_def)

lemma answers_bind: "answers m S \<Longrightarrow> (\<And>x. S x \<Longrightarrow> answers (f x) R) \<Longrightarrow> answers (State_Monad.bind m f) R"
  by (auto simp: answers_def split: prod.splits) (metis fst_conv)

lemma answers_bind_any: "(\<And>x. answers (f x) R) \<Longrightarrow> answers (State_Monad.bind m f) R"
  by (rule answers_bind [where S = "\<lambda>_. True"]) (simp_all add: answers_def)

lemma answers_if: "(b \<Longrightarrow> answers m R) \<Longrightarrow> (\<not> b \<Longrightarrow> answers n R) \<Longrightarrow> answers (if b then m else n) R"
  by simp

lemma answers_option:
  "(x = None \<Longrightarrow> answers m R) \<Longrightarrow> (\<And>y. x = Some y \<Longrightarrow> answers (f y) R) \<Longrightarrow>
   answers (case x of None \<Rightarrow> m | Some y \<Rightarrow> f y) R"
  by (cases x) simp_all

lemma answers_sum:
  "(\<And>y. x = Inl y \<Longrightarrow> answers (f y) R) \<Longrightarrow> (\<And>z. x = Inr z \<Longrightarrow> answers (g z) R) \<Longrightarrow>
   answers (case x of Inl y \<Rightarrow> f y | Inr z \<Rightarrow> g z) R"
  by (cases x) simp_all

lemma answers_prod: "(\<And>a b. p = (a, b) \<Longrightarrow> answers (f a b) R) \<Longrightarrow> answers (case p of (a, b) \<Rightarrow> f a b) R"
  by (cases p) simp

lemma answers_let: "(\<And>x. x = t \<Longrightarrow> answers (f x) R) \<Longrightarrow> answers (Let t f) R"
  by simp

lemmas answers_cases = answers_if answers_option answers_sum answers_prod answers_let

lemma inv_bind_answers:
  "inv I m \<Longrightarrow> answers m S \<Longrightarrow> (\<And>x. S x \<Longrightarrow> inv I (f x)) \<Longrightarrow> inv I (State_Monad.bind m f)"
  by (auto simp: inv_def answers_def split: prod.splits) (metis fst_conv snd_conv)

lemma inv_bind_post:
  "post I m (\<lambda>x w. I w \<and> S x) \<Longrightarrow> (\<And>x. S x \<Longrightarrow> inv I (f x)) \<Longrightarrow> inv I (State_Monad.bind m f)"
  by (fastforce simp: inv_def post_def split: prod.splits)

section \<open>Triples over a pass\<close>

lemma post_keep:
  "inv P m \<Longrightarrow> (\<And>x. post P (f x) Q) \<Longrightarrow> post P (State_Monad.bind m f) Q"
  by (rule post_bind [OF post_inv])

lemma post_keep_answers:
  "inv P m \<Longrightarrow> answers m R \<Longrightarrow> (\<And>x. R x \<Longrightarrow> post P (f x) Q) \<Longrightarrow> post P (State_Monad.bind m f) Q"
proof -
  assume m: "inv P m" "answers m R" and f: "\<And>x. R x \<Longrightarrow> post P (f x) Q"
  have "post P m (\<lambda>x w. P w \<and> R x)"
    using m by (simp add: post_def inv_def answers_def case_prod_beta)
  then show ?thesis
    by (rule post_bind) (use f in \<open>auto simp: post_def\<close>)
qed

text \<open>A step whose effect on the state does not matter to what follows.\<close>

lemma post_skip: "(\<And>x. post (\<lambda>_. True) (f x) Q) \<Longrightarrow> post P (State_Monad.bind m f) Q"
  by (rule post_bind [where R = "\<lambda>_ _. True"]) (simp_all add: post_def split: prod.split)

lemma post_any: "post (\<lambda>_. True) m Q \<Longrightarrow> post P m Q"
  by (simp add: post_def)

lemma post_conj: "post P m Q \<Longrightarrow> post P m R \<Longrightarrow> post P m (\<lambda>r w. Q r w \<and> R r w)"
  by (auto simp: post_def)

lemma answers_mono: "answers m R \<Longrightarrow> (\<And>x. R x \<Longrightarrow> S x) \<Longrightarrow> answers m S"
  by (simp add: answers_def)

lemma answers_run: "answers m R \<Longrightarrow> run_state m w = (r, w') \<Longrightarrow> R r"
proof -
  assume "answers m R" "run_state m w = (r, w')"
  then show "R r" unfolding answers_def by (metis fst_conv)
qed

lemma post_answers: "answers m R \<Longrightarrow> post P m (\<lambda>r w. R r)"
  by (auto simp: post_def answers_def split: prod.split) (metis fst_conv)

lemma inv_both: "inv P m \<Longrightarrow> inv Q m \<Longrightarrow> inv (\<lambda>w. P w \<and> Q w) m"
  by (simp add: inv_def)

lemma inv_pure: "inv (\<lambda>w. a) m"
  by (simp add: inv_def)

lemma post_leaf: "inv P m \<Longrightarrow> (\<And>r w. P w \<Longrightarrow> Q r w) \<Longrightarrow> post P m Q"
  by (rule post_conseq [OF post_inv [of P m]]) simp_all

lemma post_if: "(b \<Longrightarrow> post P m Q) \<Longrightarrow> (\<not> b \<Longrightarrow> post P n Q) \<Longrightarrow> post P (if b then m else n) Q"
  by simp

lemma post_option:
  "(x = None \<Longrightarrow> post P m Q) \<Longrightarrow> (\<And>y. x = Some y \<Longrightarrow> post P (f y) Q) \<Longrightarrow>
   post P (case x of None \<Rightarrow> m | Some y \<Rightarrow> f y) Q"
  by (cases x) simp_all

lemma post_sum:
  "(\<And>y. x = Inl y \<Longrightarrow> post P (f y) Q) \<Longrightarrow> (\<And>z. x = Inr z \<Longrightarrow> post P (g z) Q) \<Longrightarrow>
   post P (case x of Inl y \<Rightarrow> f y | Inr z \<Rightarrow> g z) Q"
  by (cases x) simp_all

lemma post_prod: "(\<And>a b. p = (a, b) \<Longrightarrow> post P (f a b) Q) \<Longrightarrow> post P (case p of (a, b) \<Rightarrow> f a b) Q"
  by (cases p) simp

lemma post_bool:
  "(b \<Longrightarrow> post P m Q) \<Longrightarrow> (\<not> b \<Longrightarrow> post P n Q) \<Longrightarrow> post P (case b of True \<Rightarrow> m | False \<Rightarrow> n) Q"
  by (cases b) simp_all

lemma post_let: "(\<And>x. x = t \<Longrightarrow> post P (f x) Q) \<Longrightarrow> post P (Let t f) Q"
  by simp

lemmas post_cases = post_if post_option post_sum post_prod post_bool post_let

end
