(* ===== verification/World.thy ===== *)
theory World
  imports RateTracker Domain Triples "HOL-Library.AList"
begin

text \<open>
  The setting of package \<open>acme\<close>: what a pass of the manager reads and changes (\<open>world\<close>), what
  answers it from outside (\<open>env\<close>), and the effects built from the two.

  A pass is a computation of \<open>HOL-Library.State_Monad\<close> over \<open>world\<close>: the state database, the
  manager's in-memory maps and the list of calls made to the CA, the DNS provider and the cloud.
  Everything that answers from outside (the CA, the DNS provider, the deployer, the clock, a
  cancelled context, a store whose disk fails) is a function in \<open>env\<close> of the number of effects
  performed so far, so a theorem for every \<open>env\<close> covers every sequence of answers, including a
  clock that moves backwards and a store that fails at any statement. Pure library functions
  (X.509 parsing, SHA-256, the Public Suffix List) are functions in \<open>env\<close> of their arguments.

  A pass is modelled alone: passes of other certificates run concurrently in the program and
  share the maps under their mutexes.
\<close>

section \<open>What is outside\<close>

text \<open>
  An error of the CA client: its text, the \<open>Retry-After\<close> of a typed rate-limit error (empty
  otherwise), whether it is an ACME problem document and of which type, and \<open>api.ErrNoARI\<close>.
\<close>

record ca_error =
  ce_text :: string
  ce_retry_after :: string
  ce_problem :: bool
  ce_type :: string
  ce_no_ari :: bool

record order_reply =
  e_location :: string
  e_status :: string
  e_expires :: string
  e_finalize :: string
  e_certificate :: string
  e_authorizations :: "string list"
  e_error :: string

record challenge_reply =
  ch_type :: string
  ch_url :: string
  ch_token :: string
  ch_error :: "string option"

record authz_reply =
  av_status :: string
  av_identifier :: string
  av_wildcard :: bool
  av_challenges :: "challenge_reply list"

text \<open>\<open>GetRenewalInfo\<close>'s response: status code, parsed \<open>Retry-After\<close>, decoded window.\<close>

record ari_reply =
  ar_status :: int
  ar_retry_after :: "duration option"
  ar_window :: "(instant \<times> instant) option"

record leaf =
  lf_not_before :: instant
  lf_not_after :: instant
  lf_dns_names :: "string list"
  lf_aki :: "nat list"
  lf_serial :: nat
  lf_raw :: string
  lf_public_key :: string

text \<open>The deployer's errors carry their text; two of them say that the certificate is uploaded.\<close>

datatype deploy_error =
    SwitchUnverified (deploy_error_text: string)
  | NothingBoundYet (deploy_error_text: string)
  | DeployFailed (deploy_error_text: string)

datatype call =
    NewOrder "string list" string string
  | GetOrder string
  | Finalize string
  | GetAuthz string
  | AcceptChallenge string
  | GetCertificate string
  | RevokeCertificate string int
  | GetRenewalInfo string
  | Present string string
  | ProviderCleanUp string string
  | LookupTXT string
  | WaitAll "(string \<times> string) list"
  | Upload string
  | Deploy string string
  | DeployUploaded string string string
  | ResumeDeploy string string string
  | DeleteCloud string
  | Bindings string
  | Export string

record failure_fallback =
  ff_enabled :: "bool option"
  ff_after_failures :: int
  ff_min_identifier_failures :: int
  ff_min_names :: int
  ff_before_expiry :: duration
  ff_failure_window :: duration

record cert_config =
  cc_name :: string
  cc_domains :: "string list"
  cc_profile :: string
  cc_key_type :: string
  cc_renew_before :: duration
  cc_deploy :: bool
  cc_export :: bool
  cc_fallback :: "failure_fallback option"

record env =
  e_now :: "nat \<Rightarrow> instant"
  e_cancelled :: "nat \<Rightarrow> bool"
  e_fault :: "nat \<Rightarrow> bool"
  e_tx_fault :: "nat \<Rightarrow> nat \<Rightarrow> bool"
  e_store_error :: "nat \<Rightarrow> string"
  e_new_order :: "nat \<Rightarrow> ca_error + order_reply"
  e_get_order :: "nat \<Rightarrow> ca_error + order_reply"
  e_finalize_order :: "nat \<Rightarrow> ca_error + order_reply"
  e_get_authz :: "nat \<Rightarrow> ca_error + authz_reply"
  e_accept :: "nat \<Rightarrow> ca_error option"
  e_get_certificate :: "nat \<Rightarrow> ca_error + string"
  e_revoke :: "nat \<Rightarrow> ca_error option"
  e_renewal_info :: "nat \<Rightarrow> ca_error + ari_reply"
  e_present :: "nat \<Rightarrow> string + string \<times> string"
  e_lookup_txt :: "nat \<Rightarrow> string + bool"
  e_wait_all :: "nat \<Rightarrow> (string \<times> bool \<times> nat) option"
  e_provider_cleanup :: "nat \<Rightarrow> string option"
  e_upload :: "nat \<Rightarrow> string \<times> deploy_error option"
  e_deploy :: "nat \<Rightarrow> string \<times> deploy_error option"
  e_delete :: "nat \<Rightarrow> bool"
  e_bindings :: "nat \<Rightarrow> (nat \<times> bool) option"
  e_generate_key :: "nat \<Rightarrow> string option"
  e_create_csr :: "nat \<Rightarrow> bool"
  e_staged :: bool
  e_retryable :: bool
  e_value_scoped :: bool
  e_key_auth :: "string \<Rightarrow> string option"
  e_challenge_info :: "string \<Rightarrow> string \<Rightarrow> string \<times> string"
  e_targeted :: "string \<Rightarrow> bool \<Rightarrow> string"
  e_propagation :: duration
  e_parse_leaf :: "string \<Rightarrow> leaf option"
  e_key_public :: "string \<Rightarrow> string option"
  e_parse_rfc3339 :: "string \<Rightarrow> instant option"
  e_sha256 :: "string \<Rightarrow> nat list"
  e_format_rfc3339 :: "instant \<Rightarrow> string"
  e_show_time :: "instant \<Rightarrow> string"
  e_redact :: "string \<Rightarrow> string"
  e_lib_error :: "string \<Rightarrow> string"
  e_golib :: golib
  e_timelib :: timelib
  e_round :: "rat \<Rightarrow> rat"
  e_ari_interval :: duration
  e_retention :: duration
  e_authz_wait :: duration
  e_binding_every :: duration
  e_policy :: "failure_fallback option"

section \<open>What a pass changes\<close>

record world =
  w_db :: db
  w_tick :: nat
  w_transient :: "(string \<times> instant) list"
  w_fetch_fails :: "(string \<times> nat) list"
  w_cooldown :: "(string \<times> instant) list"
  w_binding :: "(string \<times> instant) list"
  w_spent :: "string list"
  w_leases :: "(string \<times> string) list"
  w_calls :: "call list"

definition empty_world :: "db \<Rightarrow> world" where
  "empty_world d = \<lparr>w_db = d, w_tick = 0, w_transient = [], w_fetch_fails = [], w_cooldown = [],
     w_binding = [], w_spent = [], w_leases = [], w_calls = []\<rparr>"

type_synonym 'a pass = "(world, 'a) state"

text \<open>One effect: its number indexes the answers of \<open>env\<close>.\<close>

definition tick :: "nat pass" where
  "tick = State (\<lambda>w. (w_tick w, w\<lparr>w_tick := Suc (w_tick w)\<rparr>))"

definition ask :: "(nat \<Rightarrow> 'a) \<Rightarrow> 'a pass" where
  "ask f = do { k \<leftarrow> tick; ret (f k) }"

definition emit :: "call \<Rightarrow> unit pass" where
  "emit c = modify (\<lambda>w. w\<lparr>w_calls := c # w_calls w\<rparr>)"

text \<open>A call to the outside: recorded, then answered.\<close>

definition perform :: "call \<Rightarrow> (nat \<Rightarrow> 'a) \<Rightarrow> 'a pass" where
  "perform c f = do { emit c; ask f }"

abbreviation clock :: "env \<Rightarrow> instant pass" where "clock E \<equiv> ask (e_now E)"
abbreviation cancelled :: "env \<Rightarrow> bool pass" where "cancelled E \<equiv> ask (e_cancelled E)"

section \<open>The state store as an effect\<close>

definition store_read :: "env \<Rightarrow> (db \<Rightarrow> 'a) \<Rightarrow> (string + 'a) pass" where
  "store_read E f = do {
     k \<leftarrow> tick;
     d \<leftarrow> gets w_db;
     ret (if e_fault E k then Inl (e_store_error E k) else Inr (f d)) }"

definition set_db :: "db \<Rightarrow> unit pass" where
  "set_db d = modify (\<lambda>w. w\<lparr>w_db := d\<rparr>)"

text \<open>A write: \<open>None\<close> is success; the operation is given the store's own reading of the clock.\<close>

definition store_try :: "env \<Rightarrow> (instant \<Rightarrow> db \<Rightarrow> db option) \<Rightarrow> string option pass" where
  "store_try E f = do {
     k \<leftarrow> tick;
     d \<leftarrow> gets w_db;
     if e_fault E k then ret (Some (e_store_error E k))
     else case f (e_now E k) d of
         None \<Rightarrow> ret (Some (e_store_error E k))
       | Some d' \<Rightarrow> do { set_db d'; ret None } }"

definition store_write :: "env \<Rightarrow> (instant \<Rightarrow> db \<Rightarrow> db) \<Rightarrow> string option pass" where
  "store_write E f = store_try E (\<lambda>now d. Some (f now d))"

definition store_tx :: "env \<Rightarrow> tx_op list \<Rightarrow> string option pass" where
  "store_tx E xs = do {
     k \<leftarrow> tick;
     d \<leftarrow> gets w_db;
     (let (done_ok, d') = with_tx (e_now E k) (e_tx_fault E k) xs d in
      do { set_db d'; ret (if done_ok then None else Some (e_store_error E k)) }) }"

text \<open>The rate-limit tracker of the manager works on the same store.\<close>

definition quota_spend :: "env \<Rightarrow> limit \<Rightarrow> string \<Rightarrow> unit pass" where
  "quota_spend E l scope = do {
     now \<leftarrow> clock E;
     k \<leftarrow> tick;
     if e_fault E k then ret ()
     else modify (\<lambda>w. w\<lparr>w_db := tracker_spend update_rate_bucket (e_round E) now l scope (Finite 1) (w_db w)\<rparr>) }"

definition quota_note_deadline :: "env \<Rightarrow> limit \<Rightarrow> string \<Rightarrow> instant \<Rightarrow> instant option pass" where
  "quota_note_deadline E l scope t = do {
     k \<leftarrow> tick;
     if e_fault E k then ret None
     else do {
       d \<leftarrow> gets w_db;
       (let (r, d') = note_deadline update_rate_bucket l scope t d in do { set_db d'; ret r }) } }"

definition quota_note_retry_after :: "env \<Rightarrow> limit \<Rightarrow> string \<Rightarrow> string \<Rightarrow> instant option pass" where
  "quota_note_retry_after E l scope msg =
     (case parse_retry_after (e_timelib E) msg of
        None \<Rightarrow> ret None
      | Some t \<Rightarrow> quota_note_deadline E l scope t)"

definition quota_blocked_until :: "env \<Rightarrow> limit \<Rightarrow> string \<Rightarrow> (instant \<times> string) option pass" where
  "quota_blocked_until E l scope = do {
     k \<leftarrow> tick;
     now \<leftarrow> clock E;
     d \<leftarrow> gets w_db;
     ret (if e_fault E k then None else blocked_until get_bucket now l scope d) }"

section \<open>A sample setting\<close>

text \<open>
  Concrete answers for the worked examples: a clock that advances one second per effect, a store
  that never fails, a CA that refuses every order and a cloud that answers every call.
\<close>

definition sample_error :: ca_error where
  "sample_error = \<lparr>ce_text = ''connection refused'', ce_retry_after = '''', ce_problem = False,
     ce_type = '''', ce_no_ari = False\<rparr>"

definition acme_lib :: golib where
  "acme_lib = \<lparr>parse_ip = (\<lambda>_. False), public_suffix = (\<lambda>_. ''com''),
     etld_plus_one = (\<lambda>_. Some ''example.com'')\<rparr>"

definition sample_now :: instant where "sample_now = 1700000000 * ns_second"

definition sample_env :: env where
  "sample_env = \<lparr>e_now = (\<lambda>k. sample_now + int k * ns_second), e_cancelled = (\<lambda>_. False),
     e_fault = (\<lambda>_. False), e_tx_fault = (\<lambda>_ _. False), e_store_error = (\<lambda>_. ''disk full''),
     e_new_order = (\<lambda>_. Inl sample_error), e_get_order = (\<lambda>_. Inl sample_error),
     e_finalize_order = (\<lambda>_. Inl sample_error), e_get_authz = (\<lambda>_. Inl sample_error),
     e_accept = (\<lambda>_. None), e_get_certificate = (\<lambda>_. Inl sample_error), e_revoke = (\<lambda>_. None),
     e_renewal_info = (\<lambda>_. Inl sample_error), e_present = (\<lambda>_. Inr (''_acme-challenge.example.com.'', ''v'')),
     e_lookup_txt = (\<lambda>_. Inr False), e_wait_all = (\<lambda>_. None), e_provider_cleanup = (\<lambda>_. None),
     e_upload = (\<lambda>_. (''new'', None)), e_deploy = (\<lambda>_. (''new'', None)), e_delete = (\<lambda>_. True),
     e_bindings = (\<lambda>_. Some (1, True)), e_generate_key = (\<lambda>_. Some ''KEY''), e_create_csr = (\<lambda>_. True),
     e_staged = True, e_retryable = True, e_value_scoped = False,
     e_key_auth = (\<lambda>t. Some t), e_challenge_info = (\<lambda>d a. (''_acme-challenge.'' @ d @ ''.'', a)),
     e_targeted = (\<lambda>v wild. if wild then ''*.'' @ v else v), e_propagation = 300 * ns_second, e_parse_leaf = (\<lambda>_. None), e_key_public = (\<lambda>_. Some ''PUB''),
     e_parse_rfc3339 = (\<lambda>_. None), e_sha256 = (\<lambda>_. replicate 32 0), e_format_rfc3339 = (\<lambda>_. ''T''),
     e_show_time = (\<lambda>_. ''T''), e_redact = (\<lambda>s. s), e_lib_error = (\<lambda>s. s), e_golib = acme_lib,
     e_timelib = \<lparr>time_parse = (\<lambda>_ _. None), http_parse_time = (\<lambda>_. None)\<rparr>, e_round = (\<lambda>x. x),
     e_ari_interval = 6 * ns_hour, e_retention = 7 * 24 * ns_hour, e_authz_wait = 180 * ns_second,
     e_binding_every = 600 * ns_second, e_policy = None\<rparr>"

definition sample_config :: cert_config where
  "sample_config = \<lparr>cc_name = ''c'', cc_domains = [''a.example.com'', ''b.example.com''],
     cc_profile = ''classic'', cc_key_type = ''ec256'', cc_renew_before = 30 * 24 * ns_hour,
     cc_deploy = True, cc_export = False, cc_fallback = None\<rparr>"

definition sample_policy :: failure_fallback where
  "sample_policy = \<lparr>ff_enabled = Some True, ff_after_failures = 0, ff_min_identifier_failures = 0,
     ff_min_names = 0, ff_before_expiry = 0, ff_failure_window = 0\<rparr>"

end
