(* ===== verification/PassLogic.thy ===== *)
theory PassLogic
  imports World
begin

text \<open>
  Reasoning about passes, over the triples of \<open>Triples\<close>: what the primitive effects do, and the
  locales that lift a predicate to every effect. \<open>db_inv\<close> does so for a predicate of the database
  and \<open>quiet\<close> for a predicate of the calls made.
\<close>

lemma run_tick [simp]: "run_state tick w = (w_tick w, w\<lparr>w_tick := Suc (w_tick w)\<rparr>)"
  by (simp add: tick_def)

lemma run_ask [simp]: "run_state (ask f) w = (f (w_tick w), w\<lparr>w_tick := Suc (w_tick w)\<rparr>)"
  by (simp add: ask_def)

lemma run_emit [simp]: "run_state (emit c) w = ((), w\<lparr>w_calls := c # w_calls w\<rparr>)"
  by (simp add: emit_def)

lemma run_perform [simp]:
  "run_state (perform c f) w = (f (w_tick w), w\<lparr>w_tick := Suc (w_tick w), w_calls := c # w_calls w\<rparr>)"
  by (simp add: perform_def)

lemma run_set_db [simp]: "run_state (set_db d) w = ((), w\<lparr>w_db := d\<rparr>)"
  by (simp add: set_db_def)

lemma run_store_read [simp]:
  "run_state (store_read E f) w =
     (if e_fault E (w_tick w) then Inl (e_store_error E (w_tick w)) else Inr (f (w_db w)),
      w\<lparr>w_tick := Suc (w_tick w)\<rparr>)"
  by (simp add: store_read_def)

lemma run_store_try:
  "run_state (store_try E f) w =
     (if e_fault E (w_tick w) then (Some (e_store_error E (w_tick w)), w\<lparr>w_tick := Suc (w_tick w)\<rparr>)
      else case f (e_now E (w_tick w)) (w_db w) of
          None \<Rightarrow> (Some (e_store_error E (w_tick w)), w\<lparr>w_tick := Suc (w_tick w)\<rparr>)
        | Some d' \<Rightarrow> (None, w\<lparr>w_tick := Suc (w_tick w), w_db := d'\<rparr>))"
  by (simp add: store_try_def split: option.splits)

lemma run_store_write [simp]:
  "run_state (store_write E f) w =
     (if e_fault E (w_tick w) then (Some (e_store_error E (w_tick w)), w\<lparr>w_tick := Suc (w_tick w)\<rparr>)
      else (None, w\<lparr>w_tick := Suc (w_tick w), w_db := f (e_now E (w_tick w)) (w_db w)\<rparr>))"
  by (simp add: store_write_def run_store_try)

lemma answers_ask: "(\<And>k. R (f k)) \<Longrightarrow> answers (ask f) R"
  by (simp add: answers_def)

lemma answers_perform: "(\<And>k. R (f k)) \<Longrightarrow> answers (perform c f) R"
  by (simp add: answers_def)

lemma answers_store_read:
  "(\<And>e. R (Inl e)) \<Longrightarrow> (\<And>d. R (Inr (f d))) \<Longrightarrow> answers (store_read E f) R"
  by (simp add: answers_def)

section \<open>A predicate of the whole state\<close>

text \<open>A predicate that the numbering of the effects does not matter to.\<close>

locale pass_inv =
  fixes G :: "world \<Rightarrow> bool"
  assumes any_tick: "G w \<Longrightarrow> G (w\<lparr>w_tick := k\<rparr>)"
begin

lemma tick_keeps: "inv G tick"
  by (simp add: inv_def any_tick)

lemma ask_keeps: "inv G (ask f)"
  by (simp add: inv_def any_tick)

lemma store_read_keeps: "inv G (store_read E f)"
  by (simp add: inv_def any_tick)

lemma store_write_keeps:
  assumes "\<And>now w. G w \<Longrightarrow> G (w\<lparr>w_db := f now (w_db w)\<rparr>)"
  shows "inv G (store_write E f)"
proof -
  have "G (w\<lparr>w_tick := Suc (w_tick w), w_db := f (e_now E (w_tick w)) (w_db w)\<rparr>)" if "G w" for w
    using assms [OF any_tick [OF that, of "Suc (w_tick w)"], of "e_now E (w_tick w)"] by simp
  then show ?thesis by (simp add: inv_def any_tick)
qed

lemma emit_keeps: "(\<And>w. G w \<Longrightarrow> G (w\<lparr>w_calls := c # w_calls w\<rparr>)) \<Longrightarrow> inv G (emit c)"
  by (simp add: inv_def)

lemma perform_keeps: "(\<And>w. G w \<Longrightarrow> G (w\<lparr>w_calls := c # w_calls w\<rparr>)) \<Longrightarrow> inv G (perform c f)"
  unfolding perform_def by (intro inv_bind emit_keeps ask_keeps)

lemmas reads_keep = tick_keeps ask_keeps store_read_keeps

end

section \<open>A predicate of the database\<close>

text \<open>
  \<open>D\<close> is kept when every database write keeps it: reads, calls and the in-memory maps do not
  matter to it.
\<close>

locale db_inv =
  fixes D :: "db \<Rightarrow> bool"
begin

abbreviation I :: "world \<Rightarrow> bool" where "I w \<equiv> D (w_db w)"

sublocale dbs: pass_inv I
  by unfold_locales simp

lemma tick_db [inv]: "inv I tick"
  by (simp add: inv_def)

lemma ask_db [inv]: "inv I (ask f)"
  by (simp add: inv_def)

lemma emit_db [inv]: "inv I (emit c)"
  by (simp add: inv_def emit_def)

lemma perform_db [inv]: "inv I (perform c f)"
  by (simp add: perform_def inv)

lemma store_read_db [inv]: "inv I (store_read E f)"
  by (auto simp: store_read_def intro!: inv)

lemma modify_db: "(\<And>w. w_db (f w) = w_db w) \<Longrightarrow> inv I (modify f)"
  by (simp add: inv_def)

lemma set_db_db: "D d \<Longrightarrow> inv I (set_db d)"
  by (simp add: inv_def set_db_def)

lemma store_try_db:
  assumes "\<And>now d d'. D d \<Longrightarrow> f now d = Some d' \<Longrightarrow> D d'"
  shows "inv I (store_try E f)"
  using assms by (auto simp: inv_def store_try_def set_db_def split: option.splits)

lemma store_write_db: "(\<And>now d. D d \<Longrightarrow> D (f now d)) \<Longrightarrow> inv I (store_write E f)"
  unfolding store_write_def by (rule store_try_db) auto

lemma tx_run_db:
  assumes "\<forall>x \<in> set xs. \<forall>now d d'. D d \<longrightarrow> tx_exec now x d = Some d' \<longrightarrow> D d'"
  shows "tx_run now f i xs d = Some d' \<Longrightarrow> D d \<Longrightarrow> D d'"
  using assms
proof (induction xs arbitrary: i d)
  case (Cons x xs)
  from Cons.prems(1) obtain d1 where d1: "tx_exec now x d = Some d1" "tx_run now f (Suc i) xs d1 = Some d'"
    by (auto split: if_splits option.splits)
  have "D d1" using Cons.prems(2,3) d1(1) by (meson list.set_intros(1))
  moreover have "\<forall>x \<in> set xs. \<forall>now d d'. D d \<longrightarrow> tx_exec now x d = Some d' \<longrightarrow> D d'"
    using Cons.prems(3) by (meson list.set_intros(2))
  ultimately show ?case using Cons.IH [OF d1(2)] by blast
qed simp

lemma store_tx_db:
  assumes "\<And>x now d d'. x \<in> set xs \<Longrightarrow> D d \<Longrightarrow> tx_exec now x d = Some d' \<Longrightarrow> D d'"
  shows "inv I (store_tx E xs)"
proof -
  have a: "\<forall>x \<in> set xs. \<forall>now d d'. D d \<longrightarrow> tx_exec now x d = Some d' \<longrightarrow> D d'" using assms by blast
  have s: "D (snd (with_tx now f xs d))" if "D d" for now f d
    using with_tx_cases [of now f xs d]
  proof
    assume "fst (with_tx now f xs d) = True \<and> tx_run now (\<lambda>_. False) 0 xs d = Some (snd (with_tx now f xs d))"
    then show ?thesis using tx_run_db [OF a _ that] by blast
  qed (use that in simp)
  show ?thesis
    unfolding inv_def store_tx_def
    using s by (simp add: set_db_def split: prod.split) (metis snd_conv)
qed

lemma quota_spend_db:
  assumes "\<And>d now. D d \<Longrightarrow> D (tracker_spend update_rate_bucket (e_round E) now l s (Finite 1) d)"
  shows "inv I (quota_spend E l s)"
  using assms by (auto simp: quota_spend_def inv_def)

lemma quota_note_deadline_db:
  assumes "\<And>d. D d \<Longrightarrow> D (snd (note_deadline update_rate_bucket l s t d))"
  shows "inv I (quota_note_deadline E l s t)"
  using assms by (auto simp: quota_note_deadline_def inv_def set_db_def split: prod.splits)
    (metis snd_conv)

lemma quota_blocked_until_db [inv]: "inv I (quota_blocked_until E l s)"
  by (auto simp: quota_blocked_until_def intro!: inv)

end

section \<open>A predicate of the calls\<close>

text \<open>
  \<open>Q\<close> is a predicate of the calls made so far that every call outside \<open>bad\<close> keeps: an operation
  that makes no bad call keeps it, whatever it does to the database.
\<close>

locale quiet =
  fixes Q :: "call list \<Rightarrow> bool" and bad :: "call \<Rightarrow> bool"
  assumes harmless: "\<not> bad c \<Longrightarrow> Q cs \<Longrightarrow> Q (c # cs)"
begin

abbreviation K :: "world \<Rightarrow> bool" where "K w \<equiv> Q (w_calls w)"

sublocale calls: pass_inv K
  by unfold_locales simp

lemma tick_quiet [inv]: "inv K tick"
  by (simp add: inv_def)

lemma ask_quiet [inv]: "inv K (ask f)"
  by (simp add: inv_def)

lemma emit_quiet: "\<not> bad c \<Longrightarrow> inv K (emit c)"
  by (simp add: inv_def emit_def harmless)

lemma perform_quiet [inv]: "\<not> bad c \<Longrightarrow> inv K (perform c f)"
  by (auto simp: perform_def intro!: inv emit_quiet)

lemma modify_quiet: "(\<And>w. w_calls (f w) = w_calls w) \<Longrightarrow> inv K (modify f)"
  by (simp add: inv_def)

lemma set_db_quiet [inv]: "inv K (set_db d)"
  by (simp add: inv_def set_db_def)

lemma store_read_quiet [inv]: "inv K (store_read E f)"
  by (auto simp: store_read_def intro!: inv)

lemma store_try_quiet [inv]: "inv K (store_try E f)"
  by (auto simp: store_try_def intro!: inv)

lemma store_write_quiet [inv]: "inv K (store_write E f)"
  by (auto simp: store_write_def intro!: inv)

lemma store_tx_quiet [inv]: "inv K (store_tx E xs)"
  by (auto simp: store_tx_def intro!: inv)

lemma quota_spend_quiet [inv]: "inv K (quota_spend E l s)"
  by (auto simp: quota_spend_def intro!: inv modify_quiet)

lemma quota_note_deadline_quiet [inv]: "inv K (quota_note_deadline E l s t)"
  by (auto simp: quota_note_deadline_def intro!: inv)

lemma quota_note_retry_after_quiet [inv]: "inv K (quota_note_retry_after E l s msg)"
  by (auto simp: quota_note_retry_after_def intro!: inv)

lemma quota_blocked_until_quiet [inv]: "inv K (quota_blocked_until E l s)"
  by (auto simp: quota_blocked_until_def intro!: inv)

end

end
