(* ===== verification/StoreLaws.thy ===== *)
theory StoreLaws
  imports Store
begin

text \<open>
  Laws of the state store across all of its operations: who may write the orphan mark and the
  clocks of an authorization row, what a fallback record and a retired certificate read back
  as, and what deleting a certificate leaves.
\<close>

section \<open>The orphan mark\<close>

lemma tx_exec_mark:
  assumes "tx_exec now x d = Some d'" and "get_cert n d = Some c"
  shows "\<exists>c'. get_cert n d' = Some c' \<and> c_orphan_cleaned_at c' = c_orphan_cleaned_at c"
proof (cases x)
  case (TxPutCert q)
  then show ?thesis using assms by (cases "n = c_name q") (auto simp: rows)
qed (use assms in \<open>auto simp: op_defs get_cert_def split: if_splits\<close>)

lemma tx_run_mark:
  assumes "tx_run now f i xs d = Some d'" and "get_cert n d = Some c"
  shows "\<exists>c'. get_cert n d' = Some c' \<and> c_orphan_cleaned_at c' = c_orphan_cleaned_at c"
  using assms
proof (induction xs arbitrary: i d c)
  case (Cons x xs)
  then obtain d1 where d1: "tx_exec now x d = Some d1" "tx_run now f (Suc i) xs d1 = Some d'"
    by (auto split: if_splits option.splits)
  from tx_exec_mark [OF d1(1) Cons.prems(2)] obtain c1 where
    "get_cert n d1 = Some c1" "c_orphan_cleaned_at c1 = c_orphan_cleaned_at c" by blast
  then show ?case using Cons.IH [OF d1(2)] by auto
qed auto

lemma with_tx_mark:
  "get_cert n d = Some c \<Longrightarrow>
     \<exists>c'. get_cert n (snd (with_tx now f xs d)) = Some c' \<and> c_orphan_cleaned_at c' = c_orphan_cleaned_at c"
  using with_tx_cases [of now f xs d] tx_run_mark [of now "\<lambda>_. False" 0 xs d _ n c] by auto

text \<open>
  The mark that an orphan has been torn down is written by \<open>MarkOrphanCleaned\<close> only, and only
  when no order and no authorization of that name is left; it is cleared by
  \<open>ClearOrphanCleaned\<close> only. No other operation, and no transaction, changes it on a row that
  stays.
\<close>

theorem orphan_mark_writers:
  assumes "get_cert n d = Some c" and "get_cert n (store_step now x d) = Some c'"
    and "c_orphan_cleaned_at c' \<noteq> c_orphan_cleaned_at c"
  shows "(x = MarkOrphan n \<and> \<not> has_residue n d) \<or> x = ClearOrphan n"
proof (cases x)
  case (PutCert q)
  then show ?thesis using assms by (cases "n = c_name q") (auto simp: rows)
next
  case (RecordFailure m e k t)
  then show ?thesis using assms by (cases "n = m") (auto simp: get_record_failure)
next
  case (RunTx f xs)
  then show ?thesis using assms with_tx_mark [of n d c now f xs] by auto
qed (use assms in \<open>auto simp: op_defs get_cert_def rows split: if_splits option.splits dest!: row_get_Some\<close>)

theorem orphan_mark_writers_witness:
  "\<not> has_residue ''a'' sample_db"
proof -
  have g: "get_cert ''a'' (store_step 5000000000 (MarkOrphan ''a'') sample_db) =
      Some ((cert_row 0 sample_cert)\<lparr>c_orphan_cleaned_at := 5000000000\<rparr>)"
    by (simp add: sample_db_def sample_cert_def op_defs get_cert_def has_residue_def empty_db_def
        cert_row_def empty_cert_def row_get_Cons from_unix_def unix_def ns_defs)
  have "c_orphan_cleaned_at ((cert_row 0 sample_cert)\<lparr>c_orphan_cleaned_at := 5000000000\<rparr>)
      \<noteq> c_orphan_cleaned_at (cert_row 0 sample_cert)"
    by (simp add: cert_row_def zero_time_def)
  from orphan_mark_writers [OF get_sample g this] show ?thesis by simp
qed

section \<open>The clocks of an authorization row\<close>

definition get_authz :: "string \<times> string \<Rightarrow> db \<Rightarrow> authorization option" where
  "get_authz k d = row_get a_key k (d_authzs d)"

lemma tx_authzs: "tx_exec now x d = Some d' \<Longrightarrow> d_authzs d' = d_authzs d"
  by (cases x) (auto simp: op_defs split: if_splits)

lemma tx_run_authzs: "tx_run now f i xs d = Some d' \<Longrightarrow> d_authzs d' = d_authzs d"
  by (induction xs arbitrary: i d) (auto split: if_splits option.splits dest: tx_authzs)

lemma with_tx_authzs: "d_authzs (snd (with_tx now f xs d)) = d_authzs d"
  using with_tx_cases [of now f xs d] tx_run_authzs [of now "\<lambda>_. False" 0 xs d] by auto

lemma get_put_authz:
  "get_authz k (put_authorization a d) =
     (if k = a_key a then Some (let r = a\<lparr>a_prepared_at := stored (a_prepared_at a), a_reclaim_attempts := 0,
           a_reclaim_error := [], a_stuck_since := zero_time\<rparr>
        in case get_authz k d of None \<Rightarrow> r | Some q \<Rightarrow> authz_merge q r)
      else get_authz k d)"
  by (auto simp: get_authz_def put_authorization_def rows Let_def split: option.splits)

lemma get_update_authz:
  "(\<And>a. a_key (f a) = a_key a) \<Longrightarrow>
   get_authz k (update_authz n u f d) =
     map_option (\<lambda>a. if k = (n, u) then f a else a) (get_authz k d)"
proof -
  assume f: "\<And>a. a_key (f a) = a_key a"
  have "map_option (\<lambda>a. if a_key a = (n, u) then f a else a) (row_get a_key k rows) =
      map_option (\<lambda>a. if k = (n, u) then f a else a) (row_get a_key k rows)" for rows
    by (cases "row_get a_key k rows") (auto dest!: row_get_Some)
  then show ?thesis using f
    by (simp add: get_authz_def update_authz_def row_get_map)
qed

lemma get_delete_authzs:
  "get_authz k (delete_authorizations n d) = (if fst k = n then None else get_authz k d)"
  using row_get_del_of_key [of "\<lambda>a. a_cert_name a = n" "\<lambda>k. fst k = n" a_key k "d_authzs d"]
  by (simp add: get_authz_def delete_authorizations_def)

lemma get_delete_authz:
  "get_authz k (delete_authorization n u d) = (if k = (n, u) then None else get_authz k d)"
  using row_get_del_of_key [of "\<lambda>a. a_key a = (n, u)" "\<lambda>k. k = (n, u)" a_key k "d_authzs d"]
  by (simp add: get_authz_def delete_authorization_def)

text \<open>
  Two ages on an authorization row are evidence and are not lost: no operation takes a
  known challenge age back to unknown, and the instant a TXT record got stuck is moved by no
  operation but the clearing of that very row, so a later failed reclaim does not make the record look
  freshly stuck.
\<close>

theorem authz_clocks_kept:
  assumes "get_authz k d = Some a" and "get_authz k (store_step now x d) = Some a'"
  shows "(0 < to_unix (a_prepared_at a) \<longrightarrow> 0 < to_unix (a_prepared_at a')) \<and>
    (0 < to_unix (a_stuck_since a) \<and> a_stuck_since a' \<noteq> a_stuck_since a \<longrightarrow>
       x = ClearStuck (fst k) (snd k))"
proof (cases x)
  case (PutAuthz q)
  then show ?thesis using assms
    by (cases "k = a_key q") (auto simp: get_put_authz authz_merge_def Let_def)
next
  case (MarkStuck n u e)
  then show ?thesis using assms
    by (auto simp: mark_txt_reclaim_stuck_def get_update_authz split: if_splits)
next
  case (ClearStuck n u)
  then show ?thesis using assms
    by (auto simp: clear_txt_reclaim_stuck_def get_update_authz split: if_splits)
next
  case (RunTx f xs)
  then show ?thesis using assms by (simp add: get_authz_def with_tx_authzs)
next
  case (DeleteCert n)
  then show ?thesis using assms get_delete_authzs [of k n d]
    by (simp add: get_authz_def delete_cert_def delete_authorizations_def split: if_splits)
next
  case (DeleteAuthzs n)
  then show ?thesis using assms get_delete_authzs [of k n d] by (simp split: if_splits)
next
  case (DeleteAuthz n u)
  then show ?thesis using assms get_delete_authz [of k n u d] by (simp split: if_splits)
qed (use assms in \<open>auto simp: op_defs get_authz_def Let_def split: if_splits option.splits\<close>)


definition sample_authz :: authorization where
  "sample_authz = \<lparr>a_cert_name = ''a'', a_authz_url = ''u'', a_identifier = ''a.com'', a_status = ''pending'',
     a_challenge_url = [], a_challenge_token = [], a_txt_name = ''_acme-challenge.a.com'', a_txt_value = ''v'',
     a_presented = True, a_challenge_sent = False, a_prepared_at = 9000000000, a_reclaim_attempts = 0,
     a_reclaim_error = [], a_stuck_since = zero_time\<rparr>"

theorem authz_clocks_kept_witness:
  "0 < to_unix (a_prepared_at (the (get_authz (''a'', ''u'')
     (store_step 0 (PutAuthz (sample_authz\<lparr>a_prepared_at := zero_time\<rparr>)) (put_authorization sample_authz empty_db)))))"
proof -
  let ?k = "(''a'', ''u'')" and ?d = "put_authorization sample_authz empty_db"
  let ?d' = "store_step 0 (PutAuthz (sample_authz\<lparr>a_prepared_at := zero_time\<rparr>)) ?d"
  have a: "get_authz ?k ?d = Some sample_authz"
    by (simp add: get_put_authz) (simp add: sample_authz_def get_authz_def empty_db_def from_unix_def
        to_unix_def unix_def ns_defs zero_time_def)
  obtain a' where a': "get_authz ?k ?d' = Some a'"
    by (cases "get_authz ?k ?d'") (simp_all add: get_put_authz sample_authz_def)
  have "0 < to_unix (a_prepared_at sample_authz)"
    by (simp add: sample_authz_def to_unix_def zero_time_def unix_def ns_defs)
  then show ?thesis using authz_clocks_kept [OF a a'] a' by simp
qed


section \<open>Fallback records, retired certificates, deletion\<close>

text \<open>A name as the fallback record can carry it: not empty, no comma, no blank at either end.\<close>

definition listable :: "string \<Rightarrow> bool" where
  "listable n \<longleftrightarrow> n \<noteq> [] \<and> CHR '','' \<notin> set n \<and> trim_space n = n"

lemma read_dropped:
  assumes "\<forall>n \<in> set ns. listable n"
  shows "filter (\<lambda>x. x \<noteq> []) (map trim_space (split_on (CHR '','') (join_with '','' ns))) = ns"
proof (cases "ns = []")
  case True
  then show ?thesis by (simp add: trim_space_def)
next
  case False
  then have "split_on (CHR '','') (join_with '','' ns) = ns"
    using assms by (intro split_join) (auto simp: listable_def)
  moreover have "map trim_space ns = ns"
    using assms by (intro map_idI) (auto simp: listable_def)
  ultimately show ?thesis using assms by (auto simp: listable_def filter_id_conv)
qed

lemma get_put_fallback:
  assumes "\<forall>n \<in> set (fb_dropped f). listable n"
  shows "get_fallback name (put_fallback f d) =
    (if name = fb_cert_name f
     then Some \<lparr>fb_cert_name = name, fb_dropped = sort (fb_dropped f),
        fb_since = (case get_fallback name d of None \<Rightarrow> from_unix (unix (fb_since f)) | Some old \<Rightarrow> fb_since old),
        fb_reason = truncate_text (fb_reason f) max_last_error_bytes\<rparr>
     else get_fallback name d)"
proof -
  have "\<forall>n \<in> set (sort (fb_dropped f)). listable n" using assms by simp
  from read_dropped [OF this] show ?thesis
    by (auto simp: get_fallback_def put_fallback_def read_fallback_def rows split: option.splits)
qed

lemma read_listable: "\<forall>n \<in> set (fb_dropped (read_fallback r)). listable n"
  using set_trim_space split_on_pieces by (fastforce simp: read_fallback_def listable_def)

text \<open>
  A fallback record reads back with its names sorted, and rewriting it on every degraded
  pass never refreshes \<open>since\<close>: the record answers how long the certificate has been degraded.
\<close>

theorem fallback_roundtrip:
  assumes "\<forall>n \<in> set (fb_dropped f). listable n"
  shows "get_fallback name (put_fallback f d) =
    (if name = fb_cert_name f
     then Some \<lparr>fb_cert_name = name, fb_dropped = sort (fb_dropped f),
        fb_since = (case get_fallback name d of None \<Rightarrow> from_unix (unix (fb_since f)) | Some old \<Rightarrow> fb_since old),
        fb_reason = truncate_text (fb_reason f) max_last_error_bytes\<rparr>
     else get_fallback name d)"
  using assms by (rule get_put_fallback)

theorem fallback_roundtrip_witness:
  "let f = \<lparr>fb_cert_name = ''a'', fb_dropped = [''b.com'', ''a.com''], fb_since = 3000000000, fb_reason = ''r''\<rparr>
   in get_fallback ''a'' (put_fallback (f\<lparr>fb_since := 9000000000\<rparr>) (put_fallback f empty_db)) =
      Some (f\<lparr>fb_dropped := [''a.com'', ''b.com'']\<rparr>)"
proof -
  let ?f = "\<lparr>fb_cert_name = ''a'', fb_dropped = [''b.com'', ''a.com''], fb_since = 3000000000, fb_reason = ''r''\<rparr>"
  have h: "\<forall>n \<in> set (fb_dropped ?f). listable n" "\<forall>n \<in> set (fb_dropped (?f\<lparr>fb_since := 9000000000\<rparr>)). listable n"
    by code_simp+
  have s: "sort (fb_dropped ?f) = [''a.com'', ''b.com'']" by code_simp
  have "get_fallback ''a'' empty_db = None" by (simp add: get_fallback_def empty_db_def)
  then show ?thesis
    using fallback_roundtrip [OF h(1), of "''a''" empty_db]
      fallback_roundtrip [OF h(2), of "''a''" "put_fallback ?f empty_db"] s
    by (simp add: Let_def from_unix_def unix_def ns_defs truncate_text_def max_last_error_bytes_def)
qed

definition get_retired :: "string \<Rightarrow> db \<Rightarrow> retired_cert option" where
  "get_retired i d = row_get r_cert_id i (d_retired d)"

lemma get_add_retired:
  "get_retired i (add_retired_exec now c n p k d) =
     (if i = c then Some (case get_retired c d of
         None \<Rightarrow> \<lparr>r_cert_id = c, r_cert_name = n, r_retired_at = from_unix (unix now), r_cert_pem = p, r_key_pem = k\<rparr>
       | Some q \<Rightarrow> q\<lparr>r_cert_pem := coalesce p (r_cert_pem q), r_key_pem := coalesce k (r_key_pem q),
           r_retired_at := from_unix (unix now)\<rparr>)
      else get_retired i d)"
  by (auto simp: get_retired_def add_retired_exec_def rows split: option.splits)

text \<open>
  Queueing a certificate for reclamation restarts its clock and cannot cost the archived
  material: afterwards the row holds material if it was given any or had any, no other row
  changed, and no cutoff up to the second of the write lists it.
\<close>

theorem retiring_restarts_clock:
  assumes "add_retired_cert now c n p k d = Some d'" and "zero_time + ns_second \<le> now"
  shows "\<exists>r. get_retired c d' = Some r \<and>
      (p \<noteq> None \<or> (\<exists>q. get_retired c d = Some q \<and> r_cert_pem q \<noteq> None) \<longrightarrow> r_cert_pem r \<noteq> None) \<and>
      (\<forall>i. i \<noteq> c \<longrightarrow> get_retired i d' = get_retired i d) \<and>
      (\<forall>cutoff. unix cutoff \<le> unix now \<longrightarrow> r \<notin> set (list_retired_before cutoff d'))"
proof -
  have d': "d' = add_retired_exec now c n p k d"
    using assms(1) by (simp add: add_retired_cert_def split: if_splits)
  obtain r where r: "get_retired c d' = Some r" and at: "r_retired_at r = from_unix (unix now)"
    and pem: "r_cert_pem r = (case get_retired c d of None \<Rightarrow> p | Some q \<Rightarrow> coalesce p (r_cert_pem q))"
    unfolding d' get_add_retired by (auto split: option.splits)
  have "unix zero_time < unix now"
    using assms(2) by (simp add: unix_def zero_time_def ns_defs)
  then have "to_unix (r_retired_at r) = unix now" by (simp add: at to_unix_from_unix)
  then show ?thesis using r pem
    by (auto simp: d' get_add_retired list_retired_before_def coalesce_def split: option.splits)
qed

theorem retiring_restarts_clock_witness:
  "\<exists>r. get_retired ''c'' (the (add_retired_cert 7000000000 ''c'' ''a'' None None
       (add_retired_exec 3000000000 ''c'' ''a'' (Some ''pem'') None empty_db))) = Some r \<and> r_cert_pem r \<noteq> None"
proof -
  let ?d = "add_retired_exec 3000000000 ''c'' ''a'' (Some ''pem'') None empty_db"
  have e: "add_retired_cert 7000000000 ''c'' ''a'' None None ?d =
      Some (add_retired_exec 7000000000 ''c'' ''a'' None None ?d)" by (simp add: add_retired_cert_def)
  have q: "\<exists>q. get_retired ''c'' ?d = Some q \<and> r_cert_pem q \<noteq> None"
    by (simp add: get_retired_def add_retired_exec_def empty_db_def row_get_Cons)
  have t: "zero_time + ns_second \<le> 7000000000" by (simp add: zero_time_def ns_defs)
  show ?thesis using retiring_restarts_clock [OF e t] q e by auto
qed

end
