(* ===== verification/Fallback.thy ===== *)
theory Fallback
  imports PassLogic StoreLaws
begin

text \<open>
  The pre-expiry degradation (\<open>internal/acme/fallback.go\<close>, \<open>internal/config/failure_fallback.go\<close>):
  which names a pass orders for when one identifier keeps failing, the durable record of what was
  dropped, and the test that tells a degraded certificate from a changed configuration.

  \<open>pass_round\<close> is the code's \<open>round\<close>: the intent of one pass over one certificate, threaded
  through it by value. Log lines and metrics are left out; a read made only for a metric is kept,
  since it is an effect whose answer is numbered.
\<close>

record pass_round =
  rd_degraded :: bool
  rd_full_set :: bool
  rd_fallback_unknown :: bool
  rd_fallback_active :: bool

definition empty_round :: pass_round where
  "empty_round = \<lparr>rd_degraded = False, rd_full_set = False, rd_fallback_unknown = False,
     rd_fallback_active = False\<rparr>"

section \<open>The policy and its defaults\<close>

definition enabled_or :: "failure_fallback \<Rightarrow> bool \<Rightarrow> bool" where
  "enabled_or p def = (case ff_enabled p of None \<Rightarrow> def | Some b \<Rightarrow> b)"

definition after_failures_or :: "failure_fallback \<Rightarrow> int \<Rightarrow> int" where
  "after_failures_or p def = (if ff_after_failures p \<le> 0 then def else ff_after_failures p)"

definition min_identifier_failures_or :: "failure_fallback \<Rightarrow> int \<Rightarrow> int" where
  "min_identifier_failures_or p def =
     (if ff_min_identifier_failures p \<le> 0 then def else ff_min_identifier_failures p)"

definition min_names_or :: "failure_fallback \<Rightarrow> int \<Rightarrow> int" where
  "min_names_or p def = (if ff_min_names p \<le> 0 then def else ff_min_names p)"

definition default_before_expiry :: duration where "default_before_expiry = 7 * 24 * ns_hour"
definition default_failure_window :: duration where "default_failure_window = 24 * ns_hour"

definition fallback_policy :: "env \<Rightarrow> cert_config \<Rightarrow> failure_fallback option" where
  "fallback_policy E c = (case cc_fallback c of Some p \<Rightarrow> Some p | None \<Rightarrow> e_policy E)"

definition fallback_window :: "env \<Rightarrow> cert_config \<Rightarrow> duration" where
  "fallback_window E c =
     (case fallback_policy E c of
        Some p \<Rightarrow> if ff_failure_window p > 0 then ff_failure_window p else default_failure_window
      | None \<Rightarrow> default_failure_window)"

definition before_expiry :: "failure_fallback \<Rightarrow> duration" where
  "before_expiry p = (if ff_before_expiry p \<le> 0 then default_before_expiry else ff_before_expiry p)"

section \<open>List helpers\<close>

definition still_configured :: "string list \<Rightarrow> string list \<Rightarrow> string list" where
  "still_configured want have = filter (\<lambda>x. x \<in> set have) want"

definition entries_of_not_in :: "string list \<Rightarrow> string list \<Rightarrow> string list" where
  "entries_of_not_in want have = filter (\<lambda>x. x \<notin> set have) want"

definition contains_all :: "string list \<Rightarrow> string list \<Rightarrow> bool" where
  "contains_all domains want \<longleftrightarrow> (\<forall>d \<in> set want. d \<in> set domains)"

section \<open>Deciding whether to degrade\<close>

definition bad_names :: "int \<Rightarrow> instant \<Rightarrow> identifier_failure list \<Rightarrow> string list" where
  "bad_names min_failures cutoff fs =
     map if_identifier (filter (\<lambda>f. if_failures f \<ge> min_failures \<and> if_last_failed_at f > cutoff) fs)"

definition expiry_text :: "duration \<Rightarrow> string" where
  "expiry_text left =
     (if left < 0 then ''expired '' @ duration_string (duration_round ns_hour (duration_neg left)) @ '' ago''
      else ''expires in '' @ duration_string (duration_round ns_hour left))"

definition fallback_reason :: "int \<Rightarrow> duration \<Rightarrow> string" where
  "fallback_reason n left =
     ''issuance has failed '' @ show_int n @ '' times in a row and the certificate '' @ expiry_text left @
     ''; dropping the names whose authorizations keep failing so the rest stay available ''
     @ ''(and so this stops consuming the exact-set quota every hour)''"

text \<open>The split itself, once the ledger and the two clock readings are in hand.\<close>

definition split_names ::
  "failure_fallback \<Rightarrow> cert_config \<Rightarrow> cert_state \<Rightarrow> bool \<Rightarrow> duration \<Rightarrow> string list \<Rightarrow>
   string list \<times> string list \<times> string" where
  "split_names p c st held left bad =
     (let kept = filter (\<lambda>d. d \<notin> set bad) (cc_domains c);
          dropped = filter (\<lambda>d. d \<in> set bad) (cc_domains c)
      in if bad = [] then (cc_domains c, [], '''')
         else if \<not> held \<and> left > before_expiry p then (cc_domains c, [], '''')
         else if int (length kept) < min_names_or p 1 then (cc_domains c, [], '''')
         else (kept, dropped, fallback_reason (c_failures st) left))"

definition fallback_domains ::
  "env \<Rightarrow> cert_config \<Rightarrow> cert_state \<Rightarrow> bool \<Rightarrow> (string list \<times> string list \<times> string) pass" where
  "fallback_domains E c st held =
     (case fallback_policy E c of
        None \<Rightarrow> ret (cc_domains c, [], '''')
      | Some p \<Rightarrow>
          if \<not> enabled_or p False \<or> c_not_after st = zero_time \<or> c_failures st < after_failures_or p 5
          then ret (cc_domains c, [], '''')
          else do {
            now \<leftarrow> clock E;
            fs \<leftarrow> store_read E (list_identifier_failures (cc_name c));
            case fs of
              Inl e \<Rightarrow> ret (cc_domains c, [], '''')
            | Inr fs \<Rightarrow> do {
                now' \<leftarrow> clock E;
                ret (split_names p c st held (time_sub (c_not_after st) now)
                  (bad_names (min_identifier_failures_or p 3) (now' - fallback_window E c) fs)) } })"

section \<open>The durable record\<close>

definition prune_fallback :: "env \<Rightarrow> cert_config \<Rightarrow> pass_round \<Rightarrow> pass_round pass" where
  "prune_fallback E c rd = do {
     fb \<leftarrow> store_read E (get_fallback (cc_name c));
     case fb of
       Inl e \<Rightarrow> ret rd
     | Inr None \<Rightarrow> ret rd
     | Inr (Some fb) \<Rightarrow>
         (let kept = still_configured (fb_dropped fb) (cc_domains c)
          in if fb_dropped fb = [] \<or> length kept = length (fb_dropped fb) then ret rd
             else if kept = [] then do {
               r \<leftarrow> store_write E (\<lambda>_. clear_fallback (cc_name c));
               ret (if r = None then rd\<lparr>rd_fallback_active := False\<rparr> else rd) }
             else do {
               store_write E (\<lambda>_. put_fallback (fb\<lparr>fb_cert_name := cc_name c, fb_dropped := kept\<rparr>));
               ret rd }) }"

definition apply_fallback ::
  "env \<Rightarrow> cert_config \<Rightarrow> cert_state \<Rightarrow> pass_round \<Rightarrow> (cert_config \<times> pass_round) pass" where
  "apply_fallback E c st rd0 = do {
     rd \<leftarrow> prune_fallback E c rd0;
     (kept, dropped, reason) \<leftarrow> fallback_domains E c st (rd_fallback_active rd);
     if dropped = [] then do {
       store_read E (get_fallback (cc_name c));
       now \<leftarrow> clock E;
       store_write E (\<lambda>_. prune_identifier_failures (cc_name c) now (fallback_window E c));
       ret (c, rd) }
     else do {
       now \<leftarrow> clock E;
       store_write E (\<lambda>_. put_fallback \<lparr>fb_cert_name = cc_name c, fb_dropped = dropped,
         fb_since = now, fb_reason = reason\<rparr>);
       ret (c\<lparr>cc_domains := kept\<rparr>, rd\<lparr>rd_degraded := True, rd_fallback_active := True\<rparr>) } }"

section \<open>Drift or degradation\<close>

definition degraded_set :: "fallback \<Rightarrow> cert_config \<Rightarrow> string list" where
  "degraded_set fb c = entries_of_not_in (cc_domains c) (fb_dropped fb)"

definition drift_is_the_degradation :: "env \<Rightarrow> leaf \<Rightarrow> cert_config \<Rightarrow> bool pass" where
  "drift_is_the_degradation E l c = do {
     fb \<leftarrow> store_read E (get_fallback (cc_name c));
     ret (case fb of
         Inl e \<Rightarrow> True
       | Inr None \<Rightarrow> False
       | Inr (Some fb) \<Rightarrow>
           fb_dropped fb \<noteq> [] \<and> domain_key (degraded_set fb c) = domain_key (lf_dns_names l)) }"

section \<open>What a degraded pass rests on\<close>

lemma split_names_sound:
  assumes "split_names p c st held left bad = (kept, dropped, reason)" and "dropped \<noteq> []"
  shows "kept = entries_of_not_in (cc_domains c) dropped \<and> dropped = still_configured (cc_domains c) bad
    \<and> (held \<or> left \<le> before_expiry p) \<and> min_names_or p 1 \<le> int (length kept)"
  using assms
  by (auto simp: split_names_def Let_def still_configured_def entries_of_not_in_def
      split: if_splits intro!: filter_cong)

lemma split_names_none:
  "split_names p c st held left bad = (kept, [], reason) \<Longrightarrow> kept = cc_domains c"
  by (auto simp: split_names_def Let_def filter_empty_conv split: if_splits)

text \<open>The names the code may drop: failing at least \<open>min\<close> times, the last time inside the window.\<close>

definition keeps_failing :: "env \<Rightarrow> failure_fallback \<Rightarrow> cert_config \<Rightarrow> instant \<Rightarrow> db \<Rightarrow> string \<Rightarrow> bool" where
  "keeps_failing E p c now d x \<longleftrightarrow>
     (\<exists>f \<in> set (list_identifier_failures (cc_name c) d).
        if_identifier f = x \<and> if_failures f \<ge> min_identifier_failures_or p 3 \<and>
        if_last_failed_at f > now - fallback_window E c)"

definition may_degrade :: "env \<Rightarrow> failure_fallback \<Rightarrow> cert_config \<Rightarrow> cert_state \<Rightarrow> bool \<Rightarrow> instant \<Rightarrow> bool" where
  "may_degrade E p c st held now \<longleftrightarrow>
     fallback_policy E c = Some p \<and> enabled_or p False \<and> c_not_after st \<noteq> zero_time \<and>
     c_failures st \<ge> after_failures_or p 5 \<and>
     (held \<or> time_sub (c_not_after st) now \<le> before_expiry p)"

lemma bad_names_iff:
  "x \<in> set (bad_names (min_identifier_failures_or p 3) (now - fallback_window E c)
      (list_identifier_failures (cc_name c) d)) \<longleftrightarrow> keeps_failing E p c now d x"
  by (auto simp: bad_names_def keeps_failing_def)

lemma run_fallback_domains:
  assumes "run_state (fallback_domains E c st held) w = ((kept, dropped, reason), w')"
  shows "w_db w' = w_db w \<and> (dropped = [] \<longrightarrow> kept = cc_domains c) \<and>
    (dropped \<noteq> [] \<longrightarrow> (\<exists>p now now'. may_degrade E p c st held now \<and>
       dropped = filter (keeps_failing E p c now' (w_db w)) (cc_domains c) \<and>
       kept = entries_of_not_in (cc_domains c) dropped \<and> min_names_or p 1 \<le> int (length kept)))"
proof (cases "dropped = []")
  case True
  then show ?thesis
    using assms
    by (auto simp: fallback_domains_def split_names_none split: option.splits if_splits)
next
  case False
  then obtain p where p: "fallback_policy E c = Some p"
    using assms by (cases "fallback_policy E c") (auto simp: fallback_domains_def)
  define now where "now = e_now E (w_tick w)"
  define now' where "now' = e_now E (Suc (Suc (w_tick w)))"
  have g: "enabled_or p False" "c_not_after st \<noteq> zero_time" "c_failures st \<ge> after_failures_or p 5"
    "w_db w' = w_db w" and
    s: "split_names p c st held (time_sub (c_not_after st) now)
      (bad_names (min_identifier_failures_or p 3) (now' - fallback_window E c)
        (list_identifier_failures (cc_name c) (w_db w))) = (kept, dropped, reason)"
    using assms False p by (auto simp: fallback_domains_def now_def now'_def split: if_splits)
  have d: "dropped = filter (keeps_failing E p c now' (w_db w)) (cc_domains c)"
    using split_names_sound [OF s False] by (simp add: still_configured_def bad_names_iff)
  have m: "may_degrade E p c st held now" "kept = entries_of_not_in (cc_domains c) dropped"
    "min_names_or p 1 \<le> int (length kept)"
    using split_names_sound [OF s False] g p unfolding may_degrade_def by blast+
  show ?thesis using m d g(4) False by blast
qed

lemma ifails_fallback [rows]:
  "list_identifier_failures n (put_fallback f d) = list_identifier_failures n d"
  "list_identifier_failures n (clear_fallback m d) = list_identifier_failures n d"
  by (simp_all add: list_identifier_failures_def put_fallback_def clear_fallback_def)

lemma keeps_failing_cong:
  "list_identifier_failures (cc_name c) d = list_identifier_failures (cc_name c) d' \<Longrightarrow>
   keeps_failing E p c now d = keeps_failing E p c now d'"
  by (simp add: keeps_failing_def fun_eq_iff)

lemma run_prune_fallback:
  assumes "run_state (prune_fallback E c rd) w = (rd', w')"
  shows "list_identifier_failures n (w_db w') = list_identifier_failures n (w_db w)
    \<and> (rd_fallback_active rd' \<longrightarrow> rd_fallback_active rd) \<and> rd_degraded rd' = rd_degraded rd"
  using assms by (auto simp: prune_fallback_def Let_def rows split: if_splits option.splits)


definition failing_db :: db where
  "failing_db = empty_db\<lparr>d_ifails := [\<lparr>if_cert_name = ''c'', if_identifier = ''b.example.com'',
     if_failures = 3, if_last_error = ''dns'', if_last_failed_at = sample_now - ns_hour\<rparr>]\<rparr>"

definition ailing_cert :: cert_state where
  "ailing_cert = (empty_cert ''c'')\<lparr>c_not_after := sample_now + 24 * ns_hour, c_failures := 5\<rparr>"


lemma get_fallback_rows [rows]:
  "get_fallback n (prune_identifier_failures m now age d) = get_fallback n d"
  "get_fallback n (clear_fallback m d) = (if n = m then None else get_fallback n d)"
  by (auto simp: get_fallback_def prune_identifier_failures_def clear_fallback_def rows)

lemma get_fallback_listable:
  "get_fallback n d = Some fb \<Longrightarrow> \<forall>x \<in> set (fb_dropped fb). listable x"
  using read_listable by (auto simp: get_fallback_def)

lemma run_prune_tracks:
  assumes "\<And>k. \<not> e_fault E k"
    and "rd_fallback_active rd = (get_fallback (cc_name c) (w_db w) \<noteq> None)"
    and "run_state (prune_fallback E c rd) w = (rd', w')"
  shows "(\<forall>fb. get_fallback (cc_name c) (w_db w') = Some fb \<longrightarrow> set (fb_dropped fb) \<subseteq> set (cc_domains c))
    \<and> rd_fallback_active rd' = (get_fallback (cc_name c) (w_db w') \<noteq> None)"
proof (cases "get_fallback (cc_name c) (w_db w)")
  case None
  then show ?thesis using assms by (auto simp: prune_fallback_def)
next
  case (Some fb)
  let ?n = "cc_name c" and ?k = "still_configured (fb_dropped fb) (cc_domains c)"
  have sub: "length ?k = length (fb_dropped fb) \<Longrightarrow> set (fb_dropped fb) \<subseteq> set (cc_domains c)"
    by (auto simp: still_configured_def) (metis filter_id_conv length_filter_less less_irrefl)
  let ?f = "fb\<lparr>fb_cert_name := ?n, fb_dropped := ?k\<rparr>"
  have l: "\<forall>x \<in> set (fb_dropped ?f). listable x"
    using get_fallback_listable [OF Some] by (auto simp: still_configured_def)
  have ks: "\<And>x. x \<in> set ?k \<Longrightarrow> x \<in> set (cc_domains c)" by (auto simp: still_configured_def)
  show ?thesis
    using assms Some sub ks get_put_fallback [OF l, of ?n "w_db w"]
    by (auto simp: prune_fallback_def Let_def rows split: if_splits)
qed

text \<open>
  With a store that answers, the record never waits for a name that can no longer come back:
  after \<open>applyFallback\<close> every name it lists is configured, and the pass's \<open>fallbackActive\<close> says
  exactly whether a record exists, whatever the pruning did to it.
\<close>

theorem record_tracks_config:
  assumes "\<And>k. \<not> e_fault E k" and "\<forall>x \<in> set (cc_domains c). listable x"
    and "rd_fallback_active rd = (get_fallback (cc_name c) (w_db w) \<noteq> None)"
    and "run_state (apply_fallback E c st rd) w = ((c', rd'), w')"
  shows "(\<forall>fb. get_fallback (cc_name c) (w_db w') = Some fb \<longrightarrow> set (fb_dropped fb) \<subseteq> set (cc_domains c))
    \<and> rd_fallback_active rd' = (get_fallback (cc_name c) (w_db w') \<noteq> None)"
proof -
  let ?n = "cc_name c"
  obtain rd1 w1 where p: "run_state (prune_fallback E c rd) w = (rd1, w1)" by fastforce
  obtain kept dropped reason w2 where
    f: "run_state (fallback_domains E c st (rd_fallback_active rd1)) w1 = ((kept, dropped, reason), w2)"
    by (metis prod_cases3 surj_pair)
  note F = run_fallback_domains [OF f]
  have pr: "(\<forall>fb. get_fallback ?n (w_db w1) = Some fb \<longrightarrow> set (fb_dropped fb) \<subseteq> set (cc_domains c))
    \<and> rd_fallback_active rd1 = (get_fallback ?n (w_db w1) \<noteq> None)"
  proof (rule run_prune_tracks [OF assms(1) _ p])
    show "rd_fallback_active rd = (get_fallback ?n (w_db w) \<noteq> None)" by (rule assms(3))
  qed
  show ?thesis
  proof (cases "dropped = []")
    case True
    then have "rd' = rd1" "get_fallback ?n (w_db w') = get_fallback ?n (w_db w1)"
      using assms(1,4) p f F by (auto simp: apply_fallback_def rows)
    then show ?thesis using pr by simp
  next
    case False
    let ?f = "\<lparr>fb_cert_name = ?n, fb_dropped = dropped, fb_since = e_now E (w_tick w2), fb_reason = reason\<rparr>"
    have d: "set dropped \<subseteq> set (cc_domains c)" using F False by auto
    then have l: "\<forall>x \<in> set (fb_dropped ?f). listable x" using assms(2) by auto
    have "rd_fallback_active rd'" "w_db w' = put_fallback ?f (w_db w2)"
      using assms(1,4) p f False by (auto simp: apply_fallback_def)
    then show ?thesis using get_put_fallback [OF l, of ?n "w_db w2"] d by auto
  qed
qed

definition degraded_db :: db where
  "degraded_db = put_fallback \<lparr>fb_cert_name = ''c'', fb_dropped = [''gone.example.com'', ''b.example.com''],
     fb_since = sample_now, fb_reason = ''r''\<rparr> empty_db"

theorem record_tracks_config_witness:
  "\<exists>c' rd' w'. run_state (apply_fallback sample_env sample_config ailing_cert
      (empty_round\<lparr>rd_fallback_active := True\<rparr>)) (empty_world degraded_db) = ((c', rd'), w')
    \<and> map_option fb_dropped (get_fallback ''c'' (w_db w')) = Some [''b.example.com''] \<and> rd_fallback_active rd'"
proof -
  let ?m = "run_state (apply_fallback sample_env sample_config ailing_cert
      (empty_round\<lparr>rd_fallback_active := True\<rparr>)) (empty_world degraded_db)"
  obtain c' rd' w' where r: "?m = ((c', rd'), w')" by (metis surj_pair)
  have "map_option fb_dropped (get_fallback ''c'' (w_db (snd ?m))) = Some [''b.example.com'']" by code_simp
  then have g: "map_option fb_dropped (get_fallback ''c'' (w_db w')) = Some [''b.example.com'']" by (simp add: r)
  have h: "\<forall>x \<in> set (cc_domains sample_config). listable x" "\<not> e_fault sample_env k"
    "rd_fallback_active (empty_round\<lparr>rd_fallback_active := True\<rparr>) =
      (get_fallback (cc_name sample_config) (w_db (empty_world degraded_db)) \<noteq> None)" for k
    by code_simp (simp add: sample_env_def, code_simp)
  from record_tracks_config [OF h(2,1,3) r] g show ?thesis
    unfolding r by (auto simp: sample_config_def)
qed

end
