(* ===== verification/Backoff.thy ===== *)
theory Backoff
  imports Fallback
begin

text \<open>
  What the manager remembers between passes besides the database (\<open>internal/acme/manager.go\<close>): the
  backoff deadline that could not be written, the count of failed order fetches, the identifier
  cooldowns, the binding throttle and the certificate URLs already booked; and how a failed pass is
  recorded (\<open>recordFailure\<close>, \<open>recordFailureUnreadable\<close> in \<open>manager_done.go\<close>).

  A Go map is an association list with distinct keys (\<open>HOL-Library.AList\<close>); only its lookups and
  its size are observable.
\<close>

datatype outcome = Done | InBackoff | Failed string | OutOfFuel

section \<open>Deadlines in memory\<close>

definition cooldown_map_limit :: nat where "cooldown_map_limit = 512"
definition max_order_fetch_failures :: nat where "max_order_fetch_failures = 4"
definition identifier_cooldown_for :: duration where "identifier_cooldown_for = ns_hour"

definition prune_expired :: "instant \<Rightarrow> nat \<Rightarrow> (string \<times> instant) list \<Rightarrow> (string \<times> instant) list" where
  "prune_expired now limit m =
     (if length m < limit then m else filter (\<lambda>(k, t). now < t) m)"

definition set_transient :: "string \<Rightarrow> instant \<Rightarrow> instant \<Rightarrow> world \<Rightarrow> world" where
  "set_transient name until now w = w\<lparr>w_transient :=
     prune_expired now cooldown_map_limit (AList.update name until (w_transient w))\<rparr>"

definition set_transient_backoff :: "env \<Rightarrow> string \<Rightarrow> instant \<Rightarrow> unit pass" where
  "set_transient_backoff E name until = do { now \<leftarrow> clock E; modify (set_transient name until now) }"

definition transient_backoff_for :: "env \<Rightarrow> string \<Rightarrow> instant option pass" where
  "transient_backoff_for E name = do {
     m \<leftarrow> gets w_transient;
     case map_of m name of
       None \<Rightarrow> ret None
     | Some until \<Rightarrow> do {
         now \<leftarrow> clock E;
         if now < until then ret (Some until)
         else do { modify (\<lambda>w. w\<lparr>w_transient := AList.delete name (w_transient w)\<rparr>); ret None } } }"

definition honour_backoff :: "env \<Rightarrow> cert_state \<Rightarrow> bool pass" where
  "honour_backoff E st = do {
     t \<leftarrow> transient_backoff_for E (c_name st);
     case t of
       Some until \<Rightarrow> ret True
     | None \<Rightarrow>
         if c_next_attempt_at st = zero_time then ret False
         else do { now \<leftarrow> clock E; ret (now < c_next_attempt_at st) } }"

section \<open>Orders that cannot be fetched\<close>

definition fetch_failures :: "string \<Rightarrow> world \<Rightarrow> nat" where
  "fetch_failures url w = (case map_of (w_fetch_fails w) url of None \<Rightarrow> 0 | Some n \<Rightarrow> n)"

definition note_order_fetch_failure :: "string \<Rightarrow> bool pass" where
  "note_order_fetch_failure url = do {
     n \<leftarrow> gets (fetch_failures url);
     if Suc n \<ge> max_order_fetch_failures
     then do { modify (\<lambda>w. w\<lparr>w_fetch_fails := AList.delete url (w_fetch_fails w)\<rparr>); ret True }
     else do { modify (\<lambda>w. w\<lparr>w_fetch_fails := AList.update url (Suc n) (w_fetch_fails w)\<rparr>); ret False } }"

definition clear_order_fetch_failures :: "string \<Rightarrow> unit pass" where
  "clear_order_fetch_failures url = modify (\<lambda>w. w\<lparr>w_fetch_fails := AList.delete url (w_fetch_fails w)\<rparr>)"

section \<open>Identifier cooldowns\<close>

definition latest_failure :: "identifier_failure list \<Rightarrow> instant" where
  "latest_failure fs = foldl (\<lambda>l f. if if_last_failed_at f > l then if_last_failed_at f else l) zero_time fs"

definition persisted_cooldown :: "env \<Rightarrow> string \<Rightarrow> instant \<Rightarrow> instant option pass" where
  "persisted_cooldown E ident now =
     (if ident = [] then ret None
      else do {
        r \<leftarrow> store_read E (list_failures_by_identifier ident);
        ret (case r of
            Inl e \<Rightarrow> None
          | Inr fs \<Rightarrow>
              (let latest = latest_failure fs; until = latest + identifier_cooldown_for
               in if latest = zero_time then None else if now < until then Some until else None)) })"

definition cooldown_of :: "env \<Rightarrow> instant \<Rightarrow> string \<Rightarrow> (string \<times> instant) option pass" where
  "cooldown_of E now d = do {
     m \<leftarrow> gets w_cooldown;
     case map_of m d of
       Some until \<Rightarrow>
         if now < until then ret (Some (d, until))
         else do {
           modify (\<lambda>w. w\<lparr>w_cooldown := AList.delete d (w_cooldown w)\<rparr>);
           seeded \<leftarrow> persisted_cooldown E d now;
           case seeded of
             None \<Rightarrow> ret None
           | Some s \<Rightarrow> do { modify (\<lambda>w. w\<lparr>w_cooldown := AList.update d s (w_cooldown w)\<rparr>); ret (Some (d, s)) } }
     | None \<Rightarrow> do {
         seeded \<leftarrow> persisted_cooldown E d now;
         case seeded of
           None \<Rightarrow> ret None
         | Some s \<Rightarrow> do { modify (\<lambda>w. w\<lparr>w_cooldown := AList.update d s (w_cooldown w)\<rparr>); ret (Some (d, s)) } } }"

definition cooling_down :: "env \<Rightarrow> string list \<Rightarrow> (string \<times> instant) option pass" where
  "cooling_down E ds = do { now \<leftarrow> clock E; find_first ds (cooldown_of E now) }"

definition note_identifier_failure :: "env \<Rightarrow> string \<Rightarrow> unit pass" where
  "note_identifier_failure E ident =
     (if ident = [] then ret ()
      else do {
        now \<leftarrow> clock E;
        modify (\<lambda>w. w\<lparr>w_cooldown := prune_expired now cooldown_map_limit
          (AList.update ident (now + identifier_cooldown_for) (w_cooldown w))\<rparr>) })"

definition clear_identifier_cooldown :: "string \<Rightarrow> unit pass" where
  "clear_identifier_cooldown ident =
     (if ident = [] then ret ()
      else modify (\<lambda>w. w\<lparr>w_cooldown := AList.delete ident (w_cooldown w)\<rparr>))"

section \<open>Certificates already booked, bindings already asked about\<close>

definition note_cert_spend :: "string \<Rightarrow> bool pass" where
  "note_cert_spend url = do {
     seen \<leftarrow> gets w_spent;
     if url \<in> set seen then ret False
     else do { modify (\<lambda>w. w\<lparr>w_spent := url # w_spent w\<rparr>); ret True } }"

definition binding_check_ready :: "env \<Rightarrow> string \<Rightarrow> bool pass" where
  "binding_check_ready E name = do {
     now \<leftarrow> clock E;
     m \<leftarrow> gets w_binding;
     ret (case map_of m name of
         None \<Rightarrow> True
       | Some prev \<Rightarrow> prev > now \<or> time_sub now prev \<ge> e_binding_every E) }"

definition binding_note_attempt :: "env \<Rightarrow> string \<Rightarrow> unit pass" where
  "binding_note_attempt E name = do {
     now \<leftarrow> clock E;
     modify (\<lambda>w. (let m = AList.update name now (w_binding w) in
       w\<lparr>w_binding := (if length m \<ge> cooldown_map_limit
          then filter (\<lambda>(k, t). time_sub now t < e_binding_every E) m else m)\<rparr>)) }"

definition binding_check_due :: "env \<Rightarrow> string \<Rightarrow> bool pass" where
  "binding_check_due E name = do {
     r \<leftarrow> binding_check_ready E name;
     if r then do { binding_note_attempt E name; ret True } else ret False }"

section \<open>Recording a failed pass\<close>

definition max_backoff :: duration where "max_backoff = 6 * ns_hour"

definition backoff :: "int \<Rightarrow> duration" where
  "backoff failures =
     (let shift = (if failures - 1 > 10 then 10 else failures - 1);
          b = ns_minute * 2 ^ nat shift
      in if b > max_backoff \<or> b \<le> 0 then max_backoff else b)"

definition join_errors :: "string \<Rightarrow> string \<Rightarrow> string" where
  "join_errors a b = a @ char_of (10 :: nat) # b"

definition fail_pass :: "env \<Rightarrow> cert_state \<Rightarrow> string \<Rightarrow> outcome pass" where
  "fail_pass E st err = do {
     stopped \<leftarrow> cancelled E;
     if stopped then ret (Failed err)
     else do {
       now \<leftarrow> clock E;
       (let n = c_failures st + 1;
            st' = st\<lparr>c_failures := n, c_last_error := e_redact E err, c_next_attempt_at := now + backoff n\<rparr>
        in do {
          r \<leftarrow> store_write E (\<lambda>t. put_cert t st');
          case r of
            None \<Rightarrow> ret (Failed err)
          | Some perr \<Rightarrow> do {
              set_transient_backoff E (c_name st') (c_next_attempt_at st');
              ret (Failed (join_errors err perr)) } }) } }"

definition fail_unreadable :: "env \<Rightarrow> string \<Rightarrow> string \<Rightarrow> outcome pass" where
  "fail_unreadable E name err = do {
     stopped \<leftarrow> cancelled E;
     if stopped then ret (Failed err)
     else do {
       now \<leftarrow> clock E;
       (let next = now + ns_minute
        in do {
          r \<leftarrow> store_write E (\<lambda>t. record_failure t name err 1 next);
          case r of
            None \<Rightarrow> ret (Failed err)
          | Some perr \<Rightarrow> do {
              set_transient_backoff E name next;
              ret (Failed (join_errors err perr)) } }) } }"

section \<open>A failure costs a backoff window\<close>

lemma backoff_le: "backoff n \<le> max_backoff"
  by (simp add: backoff_def Let_def max_backoff_def ns_defs)

lemma backoff_ge: "1 \<le> n \<Longrightarrow> ns_minute \<le> backoff n"
proof -
  assume "1 \<le> n"
  have "(1 :: int) \<le> 2 ^ k" for k by simp
  then show ?thesis by (auto simp: backoff_def Let_def max_backoff_def ns_defs)
qed

lemma backoff_pos: "0 < backoff n"
  by (simp add: backoff_def Let_def max_backoff_def ns_defs)

text \<open>
  The retry delay doubles from one minute with every consecutive failure and settles at six
  hours from the tenth on, whatever the counter: never zero, never negative, never shorter after a
  further failure.
\<close>

theorem backoff_schedule:
  "backoff n = (if n \<le> 1 then ns_minute else if n < 10 then ns_minute * 2 ^ nat (n - 1) else max_backoff)
   \<and> backoff n \<le> backoff (n + 1)"
proof -
  have c: "n \<le> 1 \<or> n \<in> {2..9} \<or> 10 \<le> n" by auto
  have b: "backoff m = max_backoff" if "10 \<le> m" for m
  proof -
    have "m - 1 > 10 \<or> m = 10 \<or> m = 11" using that by auto
    then show ?thesis by (elim disjE) (simp_all add: backoff_def Let_def max_backoff_def ns_defs)
  qed
  have s: "backoff m = ns_minute" if "m \<le> 1" for m
    using that by (simp add: backoff_def Let_def max_backoff_def ns_defs)
  have i: "{2..9 :: int} = {2, 3, 4, 5, 6, 7, 8, 9}" by auto
  have m: "backoff k = ns_minute * 2 ^ nat (k - 1) \<and> backoff k \<le> backoff (k + 1)" if "k \<in> {2..9}" for k
    using that unfolding i by (auto simp: backoff_def Let_def max_backoff_def ns_defs)
  from c show ?thesis
  proof (elim disjE)
    assume n: "n \<le> 1"
    have "backoff n \<le> backoff (n + 1)"
      using s [OF n] backoff_ge [of "n + 1"] s [of "n + 1"] by (cases "n + 1 \<le> 1") auto
    then show ?thesis using s [OF n] n by simp
  next
    assume "n \<in> {2..9}"
    then show ?thesis using m [of n] by auto
  next
    assume n: "10 \<le> n"
    then show ?thesis using b [of n] b [of "n + 1"] by simp
  qed
qed

lemma map_of_prune:
  "map_of m k = Some t \<Longrightarrow> now < t \<Longrightarrow> map_of (prune_expired now l m) k = Some t"
proof -
  have "map_of m k = Some t \<Longrightarrow> now < t \<Longrightarrow> map_of (filter (\<lambda>(k, t). now < t) m) k = Some t"
    by (induction m) (auto split: if_splits)
  then show "map_of m k = Some t \<Longrightarrow> now < t \<Longrightarrow> map_of (prune_expired now l m) k = Some t"
    by (simp add: prune_expired_def)
qed

lemma transient_blocks:
  "map_of (w_transient w) n = Some until \<Longrightarrow> e_now E (w_tick w) < until \<Longrightarrow>
     fst (run_state (honour_backoff E st) w) \<or> c_name st \<noteq> n"
  by (auto simp: honour_backoff_def transient_backoff_for_def)

lemma row_blocks:
  assumes "c_next_attempt_at st \<noteq> zero_time" and "\<And>k. e_now E k < c_next_attempt_at st"
  shows "fst (run_state (honour_backoff E st) w)"
  using assms
  by (auto simp: honour_backoff_def transient_backoff_for_def split: option.splits)

text \<open>The row a pass works on: the stored one, or an empty one for a certificate not yet known.\<close>

definition row_or_new :: "string \<Rightarrow> db \<Rightarrow> cert_state" where
  "row_or_new name d = (case get_cert name d of None \<Rightarrow> empty_cert name | Some st \<Rightarrow> st)"

lemma row_or_new_name [simp]: "c_name (row_or_new name d) = name"
  by (auto simp: row_or_new_def empty_cert_def get_cert_def dest: row_get_Some split: option.splits)

lemma row_or_new_put: "c_name st = name \<Longrightarrow>
   c_next_attempt_at (row_or_new name (put_cert t st d)) = stored (c_next_attempt_at st)"
  by (simp add: row_or_new_def rows cert_row_def split: option.splits)



section \<open>Cooldowns survive a restart\<close>

lemma find_first_some:
  assumes "\<And>x w. x \<in> set xs \<Longrightarrow> P w \<Longrightarrow> P (snd (run_state (f x) w))"
    and "x \<in> set xs" and "\<And>w. P w \<Longrightarrow> fst (run_state (f x) w) \<noteq> None" and "P w"
  shows "fst (run_state (find_first xs f) w) \<noteq> None"
  using assms
proof (induction xs arbitrary: w)
  case (Cons y ys)
  obtain r w' where r: "run_state (f y) w = (r, w')" by fastforce
  have p: "P w'" using Cons.prems(1) [of y w] Cons.prems(4) r by simp
  show ?case
  proof (cases r)
    case None
    then have "x \<noteq> y" using Cons.prems(3,4) r by fastforce
    then have "x \<in> set ys" using Cons.prems(2) by simp
    with Cons.IH [of w'] Cons.prems(1,3) p show ?thesis by (simp add: r None)
  qed (simp add: r)
qed simp

lemma latest_failure_ge:
  "f \<in> set fs \<Longrightarrow> if_last_failed_at f \<le> latest_failure fs"
proof -
  have "l \<le> foldl (\<lambda>l f. if if_last_failed_at f > l then if_last_failed_at f else l) l fs
      \<and> (\<forall>f \<in> set fs. if_last_failed_at f \<le>
        foldl (\<lambda>l f. if if_last_failed_at f > l then if_last_failed_at f else l) l fs)" for l
    by (induction fs arbitrary: l) (force, smt (verit) foldl_Cons set_ConsD)
  then show "f \<in> set fs \<Longrightarrow> if_last_failed_at f \<le> latest_failure fs"
    by (simp add: latest_failure_def)
qed

text \<open>
  A name whose authorization failed within the last hour keeps every certificate that carries
  it from ordering, also right after a restart has emptied the in-memory map and also when the
  failure was recorded under another certificate: the stored ledger re-arms the cooldown.
\<close>

theorem cooldown_survives_restart:
  assumes "f \<in> set (list_failures_by_identifier (if_identifier f) (w_db w))"
    and "if_identifier f \<noteq> []" and "if_identifier f \<in> set ds"
    and "zero_time < if_last_failed_at f"
    and "e_now E (w_tick w) < if_last_failed_at f + identifier_cooldown_for"
    and "\<And>k. \<not> e_fault E k"
  shows "fst (run_state (cooling_down E ds) w) \<noteq> None"
proof -
  let ?now = "e_now E (w_tick w)" and ?d = "if_identifier f"
  define P where "P = (\<lambda>v :: world. w_db v = w_db w)"
  have keep: "P (snd (run_state (cooldown_of E ?now x) v))" if "P v" for x v
    using that by (auto simp: P_def cooldown_of_def persisted_cooldown_def Let_def split: option.splits)
  have hit: "fst (run_state (cooldown_of E ?now ?d) v) \<noteq> None" if "P v" for v
  proof -
    have l: "if_last_failed_at f \<le> latest_failure (list_failures_by_identifier ?d (w_db v))"
      using assms(1) that latest_failure_ge by (auto simp: P_def)
    then have "latest_failure (list_failures_by_identifier ?d (w_db v)) \<noteq> zero_time"
      "?now < latest_failure (list_failures_by_identifier ?d (w_db v)) + identifier_cooldown_for"
      using assms(4,5) by auto
    then show ?thesis
      using assms(2,6) by (auto simp: cooldown_of_def persisted_cooldown_def Let_def split: option.splits)
  qed
  have "fst (run_state (find_first ds (cooldown_of E ?now)) v) \<noteq> None" if "P v" for v
    using find_first_some [of ds P "cooldown_of E ?now" ?d v] keep hit assms(3) that by blast
  then show ?thesis by (simp add: cooling_down_def P_def)
qed

theorem cooldown_survives_restart_witness:
  "fst (run_state (cooling_down sample_env [''a.example.com'', ''b.example.com''])
     (empty_world (failing_db\<lparr>d_ifails := map (\<lambda>f. f\<lparr>if_cert_name := ''other'',
        if_last_failed_at := sample_now - 59 * ns_minute\<rparr>) (d_ifails failing_db)\<rparr>))) \<noteq> None"
proof -
  let ?f = "\<lparr>if_cert_name = ''other'', if_identifier = ''b.example.com'', if_failures = 3,
    if_last_error = ''dns'', if_last_failed_at = sample_now - 59 * ns_minute\<rparr>"
  let ?w = "empty_world (failing_db\<lparr>d_ifails := map (\<lambda>f. f\<lparr>if_cert_name := ''other'',
        if_last_failed_at := sample_now - 59 * ns_minute\<rparr>) (d_ifails failing_db)\<rparr>)"
  have h: "?f \<in> set (list_failures_by_identifier (if_identifier ?f) (w_db ?w))"
    "if_identifier ?f \<noteq> []" "if_identifier ?f \<in> set [''a.example.com'', ''b.example.com'']"
    "zero_time < if_last_failed_at ?f"
    "e_now sample_env (w_tick ?w) < if_last_failed_at ?f + identifier_cooldown_for"
    by code_simp+
  have "\<not> e_fault sample_env k" for k by (simp add: sample_env_def)
  from cooldown_survives_restart [OF h this] show ?thesis .
qed

end
