(* ===== verification/Txt.thy ===== *)
theory Txt
  imports Backoff
begin

text \<open>
  Reclaiming challenge records (\<open>flow_cleanup.go\<close>, \<open>txt_reclaim_guard.go\<close>, and \<open>CleanUp\<close> with its
  lease registry in \<open>dns.go\<close> and \<open>dns_leases.go\<close>): which TXT values the process believes to be live
  at a name, when the provider's delete call may run, and which authorization rows may be deleted.

  The registry \<open>challengeLeases\<close> is the set of pairs of name and value in \<open>w_leases\<close>; its mutexes
  order concurrent passes and have no counterpart in one pass. \<open>e_challenge_info\<close> is lego's
  \<open>GetChallengeInfo\<close>: the record's name and value. The provider's answer to a cleanup
  (\<open>e_provider_cleanup\<close>) stands for the bounded provider call with its Cloudflare recovery.
\<close>

section \<open>Leases\<close>

definition lease_add :: "string \<Rightarrow> string \<Rightarrow> unit pass" where
  "lease_add fqdn v = modify (\<lambda>w. w\<lparr>w_leases := List.insert (fqdn, v) (w_leases w)\<rparr>)"

text \<open>Dropping one value; the answer says whether another value is still live at the name.\<close>

definition lease_remove :: "string \<Rightarrow> string \<Rightarrow> bool pass" where
  "lease_remove fqdn v = do {
     modify (\<lambda>w. w\<lparr>w_leases := filter (\<lambda>l. l \<noteq> (fqdn, v)) (w_leases w)\<rparr>);
     gets (\<lambda>w. \<exists>l \<in> set (w_leases w). fst l = fqdn) }"

definition clean_up :: "env \<Rightarrow> string \<Rightarrow> string \<Rightarrow> string option pass" where
  "clean_up E domain ka =
     (case e_challenge_info E domain ka of
        (fqdn, v) \<Rightarrow> do {
          others \<leftarrow> lease_remove fqdn v;
          if others \<and> \<not> e_value_scoped E then ret None
          else perform (ProviderCleanUp fqdn v) (e_provider_cleanup E) })"

definition present :: "env \<Rightarrow> string \<Rightarrow> string \<Rightarrow> (string + string \<times> string) pass" where
  "present E domain ka =
     (case e_challenge_info E domain ka of
        (fqdn, v) \<Rightarrow> do {
          r \<leftarrow> perform (Present fqdn v) (e_present E);
          case r of
            Inl e \<Rightarrow> ret (Inl (''present TXT: '' @ e))
          | Inr _ \<Rightarrow> do { lease_add fqdn v; ret (Inr (fqdn, v)) } })"

text \<open>\<open>WaitAll\<close> registers every record it looks at; a zone that cannot be found ends it early.\<close>

definition wait_all :: "env \<Rightarrow> (string \<times> string) list \<Rightarrow> (string \<times> bool) option pass" where
  "wait_all E recs = do {
     r \<leftarrow> perform (WaitAll recs) (e_wait_all E);
     case r of
       None \<Rightarrow> do { for_each recs (\<lambda>(f, v). lease_add f v); ret None }
     | Some (e, stopped, n) \<Rightarrow> do {
         for_each (take n recs) (\<lambda>(f, v). lease_add f v);
         ret (Some (e, stopped)) } }"

definition lookup_txt :: "env \<Rightarrow> string \<Rightarrow> string \<Rightarrow> (string + bool) pass" where
  "lookup_txt E domain ka = perform (LookupTXT (fst (e_challenge_info E domain ka))) (e_lookup_txt E)"

definition register_recovered_leases :: "env \<Rightarrow> unit pass" where
  "register_recovered_leases E = do {
     rows \<leftarrow> store_read E list_presented;
     case rows of
       Inl e \<Rightarrow> ret ()
     | Inr rows \<Rightarrow> for_each rows (\<lambda>a.
         if a_txt_name a \<noteq> [] \<and> a_txt_value a \<noteq> [] then lease_add (a_txt_name a) (a_txt_value a) else ret ()) }"

definition same_row :: "authorization \<Rightarrow> authorization option \<Rightarrow> bool" where
  "same_row r x = (case x of None \<Rightarrow> False
     | Some a \<Rightarrow> a_cert_name r = a_cert_name a \<and> a_authz_url r = a_authz_url a)"

definition release_stale_lease_except :: "env \<Rightarrow> string \<Rightarrow> string \<Rightarrow> authorization option \<Rightarrow> unit pass" where
  "release_stale_lease_except E fqdn v x =
     (if fqdn = [] \<or> v = [] then ret ()
      else do {
        rows \<leftarrow> store_read E list_presented;
        case rows of
          Inl e \<Rightarrow> ret ()
        | Inr rows \<Rightarrow>
            if \<exists>r \<in> set rows. \<not> same_row r x \<and> a_txt_name r = fqdn \<and> a_txt_value r = v then ret ()
            else do { others \<leftarrow> lease_remove fqdn v; ret () } })"

definition release_stale_lease :: "env \<Rightarrow> string \<Rightarrow> string \<Rightarrow> unit pass" where
  "release_stale_lease E fqdn v = release_stale_lease_except E fqdn v None"

definition release_row_stale_lease :: "env \<Rightarrow> authorization \<Rightarrow> string \<Rightarrow> unit pass" where
  "release_row_stale_lease E a ka =
     (if a_txt_name a = [] \<or> a_txt_value a = [] then ret ()
      else if snd (e_challenge_info E (a_identifier a) ka) = a_txt_value a then ret ()
      else release_stale_lease_except E (a_txt_name a) (a_txt_value a) (Some a))"

section \<open>Taking one record down\<close>

definition remove_authz_txt :: "env \<Rightarrow> authorization \<Rightarrow> (string + bool) pass" where
  "remove_authz_txt E a =
     (if \<not> a_presented a then ret (Inr True)
      else if a_challenge_token a = [] \<or> a_identifier a = [] then ret (Inr False)
      else case e_key_auth E (a_challenge_token a) of
          None \<Rightarrow> ret (Inl (''compute the key authorization: '' @ e_lib_error E ''key authorization''))
        | Some ka \<Rightarrow> do {
            (if a_txt_name a \<noteq> [] then lease_add (a_txt_name a) (snd (e_challenge_info E (a_identifier a) ka))
             else ret ());
            release_row_stale_lease E a ka;
            r \<leftarrow> clean_up E (a_identifier a) ka;
            ret (case r of None \<Rightarrow> Inr True
              | Some e \<Rightarrow> Inl (''clean up TXT '' @ a_txt_name a @ '': '' @ e)) })"

text \<open>Why a reclaim failed: the provider no longer knows the record, or anything else.\<close>

datatype reclaim_error = LostRecord string | OtherError string

definition reclaim_error_text :: "reclaim_error \<Rightarrow> string" where
  "reclaim_error_text e = (case e of
       LostRecord s \<Rightarrow> ''the DNS provider does not know this record: '' @ s | OtherError s \<Rightarrow> s)"

datatype txt_reclaim = ReclaimDone | KeptPropagating | ReclaimFailed reclaim_error

definition provider_forgot_record :: string where "provider_forgot_record = ''unknown record ID''"

definition provider_lost_record_message :: "string \<Rightarrow> string" where
  "provider_lost_record_message record =
     ''the DNS provider cannot delete '' @ record @ '': it only removes records it created in '' @
     ''this process and has already forgotten this one, so delete it in the DNS console''"

text \<open>A denial is evidence of absence only once the write would have had time to appear.\<close>

definition still_propagating :: "env \<Rightarrow> authorization \<Rightarrow> bool pass" where
  "still_propagating E a =
     (if a_prepared_at a = zero_time then ret False
      else do {
        now \<leftarrow> clock E;
        if a_prepared_at a > now then ret False
        else do {
          now' \<leftarrow> clock E;
          ret (time_sub now' (a_prepared_at a) < e_propagation E) } })"

definition reclaim_unpresented_txt :: "env \<Rightarrow> authorization \<Rightarrow> txt_reclaim pass" where
  "reclaim_unpresented_txt E a =
     (case e_key_auth E (a_challenge_token a) of
        None \<Rightarrow> ret (ReclaimFailed (OtherError (e_lib_error E ''key authorization'')))
      | Some ka \<Rightarrow>
          (case e_challenge_info E (a_identifier a) ka of (fqdn, v) \<Rightarrow> do {
             probe \<leftarrow> lookup_txt E (a_identifier a) ka;
             case probe of
               Inl e \<Rightarrow> ret (ReclaimFailed (OtherError e))
             | Inr found \<Rightarrow>
                 if \<not> found then do {
                   wait \<leftarrow> still_propagating E a;
                   if wait then ret KeptPropagating
                   else do { release_stale_lease E fqdn v; ret ReclaimDone } }
                 else do {
                   lease_add fqdn v;
                   release_row_stale_lease E a ka;
                   r \<leftarrow> clean_up E (a_identifier a) ka;
                   case r of
                     None \<Rightarrow> ret ReclaimDone
                   | Some e \<Rightarrow>
                       if \<not> contains e provider_forgot_record then ret (ReclaimFailed (OtherError e))
                       else do {
                         again \<leftarrow> lookup_txt E (a_identifier a) ka;
                         case again of
                           Inl e' \<Rightarrow> ret (ReclaimFailed (LostRecord e))
                         | Inr there \<Rightarrow>
                             if \<not> there then do { release_stale_lease E fqdn v; ret ReclaimDone }
                             else ret (ReclaimFailed (LostRecord (provider_lost_record_message fqdn))) } } }))"

definition missing_txt_clue :: string where
  "missing_txt_clue = ''the presented TXT could not be located to reclaim it''"

definition mark_reclaim_stuck :: "env \<Rightarrow> authorization \<Rightarrow> string \<Rightarrow> unit pass" where
  "mark_reclaim_stuck E a msg = do {
     store_write E (\<lambda>now. mark_txt_reclaim_stuck now (a_cert_name a) (a_authz_url a) msg);
     ret () }"

section \<open>Cleaning up after an order\<close>

definition cleanup_row :: "env \<Rightarrow> authorization \<Rightarrow> unit pass" where
  "cleanup_row E a = do {
     r \<leftarrow> remove_authz_txt E a;
     case r of
       Inl e \<Rightarrow> ret ()
     | Inr cleaned \<Rightarrow>
         if \<not> cleaned then ret ()
         else do { store_write E (\<lambda>_. put_authorization (a\<lparr>a_presented := False\<rparr>)); ret () } }"

definition cleanup :: "env \<Rightarrow> authorization list \<Rightarrow> unit pass" where
  "cleanup E rows = do { register_recovered_leases E; for_each rows (cleanup_row E) }"

definition drop_row :: "env \<Rightarrow> string \<Rightarrow> authorization \<Rightarrow> unit pass" where
  "drop_row E name a = do { store_write E (\<lambda>_. delete_authorization name (a_authz_url a)); ret () }"

definition cleanup_orphan_row :: "env \<Rightarrow> string \<Rightarrow> authorization \<Rightarrow> unit pass" where
  "cleanup_orphan_row E name a =
     (if \<not> a_presented a then
        (if a_challenge_token a = [] then drop_row E name a
         else do {
           r \<leftarrow> reclaim_unpresented_txt E a;
           case r of
             KeptPropagating \<Rightarrow> ret ()
           | ReclaimFailed e \<Rightarrow> mark_reclaim_stuck E a (reclaim_error_text e)
           | ReclaimDone \<Rightarrow> drop_row E name a })
      else do {
        r \<leftarrow> remove_authz_txt E a;
        case r of
          Inl e \<Rightarrow> mark_reclaim_stuck E a e
        | Inr gone \<Rightarrow>
            if \<not> gone then mark_reclaim_stuck E a missing_txt_clue
            else do {
              store_write E (\<lambda>_. clear_txt_reclaim_stuck (a_cert_name a) (a_authz_url a));
              drop_row E name a } })"

definition cleanup_orphan_txt :: "env \<Rightarrow> string \<Rightarrow> string option pass" where
  "cleanup_orphan_txt E name = do {
     register_recovered_leases E;
     rows \<leftarrow> store_read E (list_authorizations name);
     case rows of
       Inl e \<Rightarrow> ret (Some e)
     | Inr rows \<Rightarrow> do { for_each rows (cleanup_orphan_row E name); ret None } }"

section \<open>The guardian of stuck records\<close>

definition reclaim_one_stuck :: "env \<Rightarrow> authorization \<Rightarrow> txt_reclaim pass" where
  "reclaim_one_stuck E a =
     (if a_presented a then do {
        r \<leftarrow> remove_authz_txt E a;
        ret (case r of
            Inl e \<Rightarrow> ReclaimFailed (OtherError e)
          | Inr gone \<Rightarrow> if gone then ReclaimDone else ReclaimFailed (OtherError missing_txt_clue)) }
      else reclaim_unpresented_txt E a)"

definition sweep_row :: "env \<Rightarrow> authorization \<Rightarrow> bool pass" where
  "sweep_row E a = do {
     r \<leftarrow> reclaim_one_stuck E a;
     case r of
       ReclaimDone \<Rightarrow> do {
         store_write E (\<lambda>_. clear_txt_reclaim_stuck (a_cert_name a) (a_authz_url a));
         drop_row E (a_cert_name a) a;
         ret True }
     | KeptPropagating \<Rightarrow> ret False
     | ReclaimFailed e \<Rightarrow> do { mark_reclaim_stuck E a (reclaim_error_text e); ret False } }"

fun sweep_rows :: "env \<Rightarrow> authorization list \<Rightarrow> nat \<Rightarrow> nat \<Rightarrow> (nat \<times> nat \<times> string option) pass" where
  "sweep_rows E [] retried cleared = ret (retried, cleared, None)"
| "sweep_rows E (a # as) retried cleared = do {
     stopped \<leftarrow> cancelled E;
     if stopped then ret (retried, cleared, Some ''context canceled'')
     else do {
       done_ok \<leftarrow> sweep_row E a;
       sweep_rows E as (Suc retried) (if done_ok then Suc cleared else cleared) } }"

definition sweep_stuck_txt :: "env \<Rightarrow> (nat \<times> nat \<times> string option) pass" where
  "sweep_stuck_txt E = do {
     register_recovered_leases E;
     rows \<leftarrow> store_read E list_stuck_txt_reclaims;
     case rows of
       Inl e \<Rightarrow> ret (0, 0, Some e)
     | Inr rows \<Rightarrow> sweep_rows E rows 0 0 }"

definition stuck_guardian_lag :: "authorization list \<Rightarrow> instant \<Rightarrow> duration" where
  "stuck_guardian_lag rows now =
     foldl (\<lambda>oldest a. if a_stuck_since a = zero_time then oldest
       else if time_sub now (a_stuck_since a) > oldest then time_sub now (a_stuck_since a) else oldest) 0 rows"

section \<open>The only clue to a record is kept until the record is gone\<close>

definition has_row :: "string \<Rightarrow> string \<Rightarrow> world \<Rightarrow> bool" where
  "has_row n u w \<longleftrightarrow> (n, u) \<in> (\<lambda>r. (a_cert_name r, a_authz_url r)) ` set (d_authzs (w_db w))"

lemma update_authz_keys:
  assumes "\<And>a. a_cert_name (f a) = a_cert_name a" and "\<And>a. a_authz_url (f a) = a_authz_url a"
  shows "(\<lambda>r. (a_cert_name r, a_authz_url r)) ` set (d_authzs (update_authz c u f d)) =
    (\<lambda>r. (a_cert_name r, a_authz_url r)) ` set (d_authzs d)"
proof -
  have "map (\<lambda>r. (a_cert_name r, a_authz_url r)) (d_authzs (update_authz c u f d)) =
      map (\<lambda>r. (a_cert_name r, a_authz_url r)) (d_authzs d)"
    using assms by (simp add: update_authz_def)
  then show ?thesis by (metis list.set_map)
qed

interpretation hr: pass_inv "has_row n u" for n u
  by unfold_locales (simp add: has_row_def)

lemma has_row_leases [inv]:
  "inv (has_row n u) (lease_add f v)" "inv (has_row n u) (lease_remove f v)"
  by (auto simp: lease_add_def lease_remove_def has_row_def intro!: inv inv_modify)

lemma has_row_reads [inv]: "inv (has_row n u) (store_read E f)" "inv (has_row n u) (ask g)"
  "inv (has_row n u) (perform c g)"
  by (rule hr.reads_keep hr.perform_keeps | simp add: has_row_def)+

lemma has_row_register [inv]: "inv (has_row n u) (register_recovered_leases E)"
  by (auto simp: register_recovered_leases_def intro!: inv split: option.split)

lemma has_row_release [inv]:
  "inv (has_row n u) (release_stale_lease_except E f v x)" "inv (has_row n u) (release_stale_lease E f v)"
  "inv (has_row n u) (release_row_stale_lease E a ka)"
  by (auto simp: release_stale_lease_except_def release_stale_lease_def release_row_stale_lease_def intro!: inv)

lemma has_row_solver [inv]:
  "inv (has_row n u) (clean_up E d ka)" "inv (has_row n u) (lookup_txt E d ka)"
  "inv (has_row n u) (remove_authz_txt E a)" "inv (has_row n u) (still_propagating E a)"
  by (auto simp: clean_up_def lookup_txt_def remove_authz_txt_def still_propagating_def intro!: inv)

lemma has_row_reclaim [inv]: "inv (has_row n u) (reclaim_unpresented_txt E a)"
  by (auto simp: reclaim_unpresented_txt_def intro!: inv)

lemma has_row_stamps [inv]:
  "inv (has_row n u) (store_write E (\<lambda>now. mark_txt_reclaim_stuck now c r m))"
  "inv (has_row n u) (store_write E (\<lambda>now. clear_txt_reclaim_stuck c r))"
  by (rule hr.store_write_keeps,
      simp add: has_row_def mark_txt_reclaim_stuck_def clear_txt_reclaim_stuck_def update_authz_keys)+

lemma has_row_mark [inv]: "inv (has_row n u) (mark_reclaim_stuck E a m)"
  by (auto simp: mark_reclaim_stuck_def intro!: inv)

lemma has_row_drop:
  "(c, a_authz_url a) \<noteq> (n, u) \<Longrightarrow> inv (has_row n u) (drop_row E c a)"
  unfolding drop_row_def
  by (intro inv hr.store_write_keeps) (auto simp: has_row_def delete_authorization_def image_iff)

text \<open>A solver that never learns that a record is gone: no denial, no completed delete, no deferral.\<close>

definition never_gone :: "env \<Rightarrow> bool" where
  "never_gone E \<longleftrightarrow> e_value_scoped E \<and> (\<forall>k. e_lookup_txt E k \<noteq> Inr False) \<and> (\<forall>k. e_provider_cleanup E k \<noteq> None)"

lemma clean_up_fails: "never_gone E \<Longrightarrow> answers (clean_up E d ka) (\<lambda>r. r \<noteq> None)"
  by (auto simp: clean_up_def never_gone_def split: prod.split intro!: answers_bind_any answers_perform)

lemma remove_fails: "never_gone E \<Longrightarrow> a_presented a \<Longrightarrow> answers (remove_authz_txt E a) (\<lambda>r. r \<noteq> Inr True)"
proof -
  assume n: "never_gone E" and p: "a_presented a"
  show ?thesis
    unfolding remove_authz_txt_def
    by (rule answers_bind [OF clean_up_fails [OF n]] answers_bind_any answers_cases answers_ret
        | simp add: p split: option.split)+
qed

lemma reclaim_fails: "never_gone E \<Longrightarrow> answers (reclaim_unpresented_txt E a) (\<lambda>r. r \<noteq> ReclaimDone)"
proof -
  assume n: "never_gone E"
  have l: "answers (lookup_txt E d ka) (\<lambda>r. r \<noteq> Inr False)" for d ka
    using n by (auto simp: lookup_txt_def never_gone_def intro!: answers_perform)
  show ?thesis
    unfolding reclaim_unpresented_txt_def
    by (rule answers_bind [OF l] answers_bind [OF clean_up_fails [OF n]] answers_bind_any
          answers_cases answers_ret | simp)+
qed

lemma inv_txt_reclaim [inv]:
  "(r = ReclaimDone \<Longrightarrow> inv I m) \<Longrightarrow> (r = KeptPropagating \<Longrightarrow> inv I n) \<Longrightarrow>
   (\<And>e. r = ReclaimFailed e \<Longrightarrow> inv I (f e)) \<Longrightarrow>
   inv I (case r of ReclaimDone \<Rightarrow> m | KeptPropagating \<Rightarrow> n | ReclaimFailed e \<Rightarrow> f e)"
  by (cases r) simp_all

lemma has_row_orphan_row:
  assumes "never_gone E" and "(c, a_authz_url a) = (n, u) \<Longrightarrow> a_presented a \<or> a_challenge_token a \<noteq> []"
  shows "inv (has_row n u) (cleanup_orphan_row E c a)"
proof (cases "(c, a_authz_url a) = (n, u)")
  case True
  note steps = inv_bind_answers [OF has_row_reclaim reclaim_fails [OF assms(1)]]
    inv_bind_answers [OF has_row_solver(3) remove_fails [OF assms(1)]]
  show ?thesis
    unfolding cleanup_orphan_row_def
    by (rule steps inv_if inv_sum inv_txt_reclaim inv_ret has_row_mark
        | use assms(2) [OF True] in simp; fail)+
next
  case False
  note d = has_row_drop [OF False, of E]
  show ?thesis
    unfolding cleanup_orphan_row_def
    by (intro inv d)
qed

interpretation same_db: db_inv "\<lambda>d. d = d0" for d0 .

lemma register_db: "inv (same_db.I d0) (register_recovered_leases E)"
  unfolding register_recovered_leases_def lease_add_def
  by (auto intro!: inv same_db.store_read_db same_db.modify_db)

lemma list_authorizations_mem: "a \<in> set (list_authorizations n d) \<longleftrightarrow> a \<in> set (d_authzs d) \<and> a_cert_name a = n"
  by (auto simp: list_authorizations_def)



section \<open>A cleanup spares the records of other certificates\<close>

definition deletes_at :: "string \<Rightarrow> call list \<Rightarrow> nat" where
  "deletes_at f cs = length (filter (\<lambda>c. case c of ProviderCleanUp g v \<Rightarrow> g = f | _ \<Rightarrow> False) cs)"

text \<open>
  The record \<open>(f, v)\<close> of the presented row \<open>b\<close> is registered, its row is stored, and \<open>k\<close> delete
  calls have been made at its name.
\<close>

definition spared :: "string \<Rightarrow> string \<Rightarrow> authorization \<Rightarrow> nat \<Rightarrow> world \<Rightarrow> bool" where
  "spared f v b k w \<longleftrightarrow> (f, v) \<in> set (w_leases w) \<and> b \<in> set (d_authzs (w_db w)) \<and> deletes_at f (w_calls w) = k"

definition row_of :: "authorization \<Rightarrow> string \<Rightarrow> string \<Rightarrow> bool" where
  "row_of b f v \<longleftrightarrow> a_presented b \<and> a_txt_name b = f \<and> a_txt_value b = v"

definition foreign :: "env \<Rightarrow> string \<Rightarrow> string \<Rightarrow> authorization \<Rightarrow> bool" where
  "foreign E f v a \<longleftrightarrow>
     (\<forall>ka. e_key_auth E (a_challenge_token a) = Some ka \<longrightarrow> e_challenge_info E (a_identifier a) ka \<noteq> (f, v))"

interpretation sp: pass_inv "spared f v b k" for f v b k
  by unfold_locales (simp add: spared_def)

lemma spared_reads [inv]:
  "inv (spared f v b k) (store_read E g)" "inv (spared f v b k) (ask h)"
  "inv (spared f v b k) (lookup_txt E d ka)"
  unfolding lookup_txt_def
  by (rule sp.reads_keep sp.perform_keeps | simp add: spared_def deletes_at_def)+

lemma spared_lease_add [inv]: "inv (spared f v b k) (lease_add g x)"
  by (simp add: lease_add_def inv_def spared_def)

lemma spared_lease_remove: "(g, x) \<noteq> (f, v) \<Longrightarrow> inv (spared f v b k) (lease_remove g x)"
  by (auto simp: lease_remove_def inv_def spared_def)

lemma spared_others:
  "(f, x) \<noteq> (f, v) \<Longrightarrow> post (spared f v b k) (lease_remove f x) (\<lambda>r w. spared f v b k w \<and> r)"
  by (auto simp: post_def lease_remove_def spared_def intro!: bexI [of _ "(f, v)"])

lemma spared_presented:
  "a_presented b \<Longrightarrow> post (spared f v b k) (store_read E list_presented)
     (\<lambda>r w. spared f v b k w \<and> (\<forall>rows. r = Inr rows \<longrightarrow> b \<in> set rows))"
  by (auto simp: post_def spared_def list_presented_def)

lemma spared_release_except [inv]:
  assumes "row_of b f v" and "\<not> same_row b x"
  shows "inv (spared f v b k) (release_stale_lease_except E g y x)"
proof (cases "(g, y) = (f, v)")
  case True
  show ?thesis
    unfolding release_stale_lease_except_def
    by (rule inv_if inv_ret inv_sum inv_bind_post [OF spared_presented]
        | use assms True in \<open>auto simp: row_of_def\<close>; fail)+
next
  case False
  show ?thesis
    unfolding release_stale_lease_except_def
    by (intro inv spared_lease_remove [OF False])
qed

lemma spared_clean_up:
  assumes "e_challenge_info E d ka \<noteq> (f, v)" and "\<not> e_value_scoped E"
  shows "inv (spared f v b k) (clean_up E d ka)"
proof -
  obtain g x where i: "e_challenge_info E d ka = (g, x)" by fastforce
  show ?thesis
  proof (cases "g = f")
    case True
    have "(f, x) \<noteq> (f, v)" using assms(1) i True by simp
    note o = spared_others [OF this, of b k]
    show ?thesis
      unfolding clean_up_def i True prod.case
      by (rule inv_bind_post [OF o], rule inv_if, rule inv_ret) (use assms(2) in simp)
  next
    case False
    then have "inv (spared f v b k) (perform (ProviderCleanUp g x) h)" for h :: "nat \<Rightarrow> string option"
      by (intro sp.perform_keeps) (simp add: spared_def deletes_at_def)
    then show ?thesis
      using False by (auto simp: clean_up_def i intro!: inv spared_lease_remove)
  qed
qed

text \<open>What the cleanup of a row of another certificate does.\<close>

lemma spared_release_row:
  assumes "row_of b f v" and "a_cert_name a \<noteq> a_cert_name b"
  shows "inv (spared f v b k) (release_row_stale_lease E a ka)"
    and "inv (spared f v b k) (release_stale_lease E g x)"
proof -
  have "\<not> same_row b (Some a)" "\<not> same_row b None" using assms(2) by (auto simp: same_row_def)
  note r = this [THEN spared_release_except [OF assms(1)]]
  show "inv (spared f v b k) (release_row_stale_lease E a ka)"
    unfolding release_row_stale_lease_def by (intro inv r)
  show "inv (spared f v b k) (release_stale_lease E g x)"
    unfolding release_stale_lease_def by (rule r)
qed

lemma spared_remove:
  assumes "row_of b f v" and "a_cert_name a \<noteq> a_cert_name b" and "foreign E f v a" and "\<not> e_value_scoped E"
  shows "inv (spared f v b k) (remove_authz_txt E a)"
  unfolding remove_authz_txt_def
  by (intro inv spared_release_row [OF assms(1,2)] spared_clean_up)
    (use assms(3,4) in \<open>auto simp: foreign_def\<close>)

lemma spared_reclaim:
  assumes "row_of b f v" and "a_cert_name a \<noteq> a_cert_name b" and "foreign E f v a" and "\<not> e_value_scoped E"
  shows "inv (spared f v b k) (reclaim_unpresented_txt E a)"
  unfolding reclaim_unpresented_txt_def still_propagating_def
  by (intro inv spared_release_row [OF assms(1,2)] spared_clean_up)
    (use assms(3,4) in \<open>auto simp: foreign_def\<close>)

lemma spared_row_writes:
  assumes "a_cert_name a \<noteq> a_cert_name b"
  shows "inv (spared f v b k) (drop_row E (a_cert_name a) a)"
    and "inv (spared f v b k) (mark_reclaim_stuck E a m)"
    and "inv (spared f v b k) (store_write E (\<lambda>_. clear_txt_reclaim_stuck (a_cert_name a) u))"
    unfolding drop_row_def mark_reclaim_stuck_def
  by (intro inv sp.store_write_keeps,
      use assms in \<open>force simp: spared_def delete_authorization_def mark_txt_reclaim_stuck_def
        clear_txt_reclaim_stuck_def update_authz_def\<close>)+

lemma spared_orphan_row:
  assumes "row_of b f v" and "a_cert_name a \<noteq> a_cert_name b" and "foreign E f v a" and "\<not> e_value_scoped E"
  shows "inv (spared f v b k) (cleanup_orphan_row E (a_cert_name a) a)"
  unfolding cleanup_orphan_row_def
  by (intro inv spared_remove [OF assms] spared_reclaim [OF assms] spared_row_writes [OF assms(2)])

lemma run_register_rows:
  "run_state (for_each rows (\<lambda>a. if a_txt_name a \<noteq> [] \<and> a_txt_value a \<noteq> []
      then lease_add (a_txt_name a) (a_txt_value a) else ret ())) w = ((), w') \<Longrightarrow>
   w_db w' = w_db w \<and> w_calls w' = w_calls w \<and> set (w_leases w) \<subseteq> set (w_leases w') \<and>
   (\<forall>a \<in> set rows. a_txt_name a \<noteq> [] \<and> a_txt_value a \<noteq> [] \<longrightarrow> (a_txt_name a, a_txt_value a) \<in> set (w_leases w'))"
proof (induction rows arbitrary: w)
  case (Cons a rows)
  let ?w1 = "if a_txt_name a \<noteq> [] \<and> a_txt_value a \<noteq> []
    then w\<lparr>w_leases := List.insert (a_txt_name a, a_txt_value a) (w_leases w)\<rparr> else w"
  have "run_state (for_each rows (\<lambda>a. if a_txt_name a \<noteq> [] \<and> a_txt_value a \<noteq> []
      then lease_add (a_txt_name a) (a_txt_value a) else ret ())) ?w1 = ((), w')"
    using Cons.prems by (auto simp: lease_add_def split: if_splits)
  from Cons.IH [OF this] show ?case by (auto split: if_splits)
qed simp

text \<open>
  A provider that deletes every value at a name is never called for a name at which another
  certificate still has a presented record: whatever the cleanup of one certificate does, and
  also right after a restart that emptied the lease registry, the other certificate's lease and row
  stay and no delete call is made at that name.
\<close>

theorem others_records_spared:
  assumes "\<not> e_value_scoped E" and "row_of b f v" and "f \<noteq> []" and "v \<noteq> []"
    and "b \<in> set (d_authzs (w_db w))" and "a_cert_name b \<noteq> name"
    and "\<forall>a \<in> set (list_authorizations name (w_db w)). foreign E f v a"
    and "(f, v) \<in> set (w_leases w) \<or> \<not> e_fault E (w_tick w)"
    and "run_state (cleanup_orphan_txt E name) w = (r, w')"
  shows "deletes_at f (w_calls w') = deletes_at f (w_calls w) \<and> (f, v) \<in> set (w_leases w')
    \<and> b \<in> set (d_authzs (w_db w'))"
proof -
  let ?k = "deletes_at f (w_calls w)"
  obtain w1 where w1: "run_state (register_recovered_leases E) w = ((), w1)"
    by (metis old.unit.exhaust surj_pair)
  have b: "b \<in> set (list_presented (w_db w))"
    using assms(2,5) by (simp add: list_presented_def row_of_def)
  have "w_db w1 = w_db w \<and> w_calls w1 = w_calls w \<and> (f, v) \<in> set (w_leases w1)"
  proof (cases "e_fault E (w_tick w)")
    case True
    then show ?thesis using w1 assms(8) by (auto simp: register_recovered_leases_def)
  next
    case False
    have "run_state (for_each (list_presented (w_db w)) (\<lambda>a. if a_txt_name a \<noteq> [] \<and> a_txt_value a \<noteq> []
      then lease_add (a_txt_name a) (a_txt_value a) else ret ())) (w\<lparr>w_tick := Suc (w_tick w)\<rparr>) = ((), w1)"
      using w1 False by (simp add: register_recovered_leases_def)
    from run_register_rows [OF this] show ?thesis using b assms(2,3,4) by (auto simp: row_of_def)
  qed
  then have d1: "w_db w1 = w_db w" and s1: "spared f v b ?k (w1\<lparr>w_tick := n\<rparr>)" for n
    using assms(5) by (auto simp: spared_def)
  have "spared f v b ?k w'"
  proof (cases "e_fault E (w_tick w1)")
    case True
    then show ?thesis using assms(9) w1 s1 by (auto simp: cleanup_orphan_txt_def)
  next
    case False
    let ?rows = "list_authorizations name (w_db w)"
    have i: "inv (spared f v b ?k) (for_each ?rows (cleanup_orphan_row E name))"
    proof (rule inv_for_each)
      fix a assume a: "a \<in> set ?rows"
      then have n: "a_cert_name a = name" by (simp add: list_authorizations_mem)
      show "inv (spared f v b ?k) (cleanup_orphan_row E name a)"
        using spared_orphan_row [OF assms(2) _ _ assms(1), of a ?k] a assms(6,7) n by auto
    qed
    have "run_state (for_each ?rows (cleanup_orphan_row E name)) (w1\<lparr>w_tick := Suc (w_tick w1)\<rparr>) = ((), w')"
      using assms(9) w1 d1 False by (auto simp: cleanup_orphan_txt_def split: prod.splits)
    from inv_run [of "spared f v b ?k", OF i s1 this] show ?thesis .
  qed
  then show ?thesis by (simp add: spared_def)
qed

definition shared_name_db :: db where
  "shared_name_db = empty_db\<lparr>d_authzs := [
     sample_authz\<lparr>a_cert_name := ''apex'', a_authz_url := ''u1'', a_identifier := ''example.com'',
       a_txt_name := ''_acme-challenge.example.com.'', a_txt_value := ''t1'', a_challenge_token := ''t1'', a_presented := True\<rparr>,
     sample_authz\<lparr>a_cert_name := ''wild'', a_authz_url := ''u2'', a_identifier := ''example.com'',
       a_txt_name := ''_acme-challenge.example.com.'', a_txt_value := ''t2'', a_challenge_token := ''t2'', a_presented := True\<rparr>]\<rparr>"

theorem others_records_spared_witness:
  "let w' = snd (run_state (cleanup_orphan_txt sample_env ''apex'') (empty_world shared_name_db))
   in deletes_at ''_acme-challenge.example.com.'' (w_calls w') = 0 \<and>
      map a_cert_name (d_authzs (w_db w')) = [''wild'']"
proof -
  let ?f = "''_acme-challenge.example.com.''" and ?w = "empty_world shared_name_db"
  let ?b = "sample_authz\<lparr>a_cert_name := ''wild'', a_authz_url := ''u2'', a_identifier := ''example.com'',
       a_txt_name := ''_acme-challenge.example.com.'', a_txt_value := ''t2'', a_challenge_token := ''t2'', a_presented := True\<rparr>"
  obtain r w' where r: "run_state (cleanup_orphan_txt sample_env ''apex'') ?w = (r, w')" by fastforce
  have m: "map a_cert_name (d_authzs (w_db (snd (run_state (cleanup_orphan_txt sample_env ''apex'') ?w)))) = [''wild'']"
    by code_simp
  have h: "\<not> e_value_scoped sample_env" "row_of ?b ?f ''t2''" "?f \<noteq> []" "''t2'' \<noteq> []"
    "?b \<in> set (d_authzs (w_db ?w))" "a_cert_name ?b \<noteq> ''apex''"
    "\<forall>a \<in> set (list_authorizations ''apex'' (w_db ?w)). foreign sample_env ?f ''t2'' a"
    "(?f, ''t2'') \<in> set (w_leases ?w) \<or> \<not> e_fault sample_env (w_tick ?w)"
    by (simp_all add: sample_env_def row_of_def empty_world_def shared_name_db_def foreign_def list_authorizations_def)
  have z: "deletes_at ?f (w_calls ?w) = 0" by code_simp
  from others_records_spared [OF h r] z have "deletes_at ?f (w_calls w') = 0" by simp
  then show ?thesis using m by (simp add: r)
qed

end
