(* ===== verification/Group.thy ===== *)
theory Group
  imports Domain
begin

text \<open>
  \<open>internal/group/group.go\<close>: from the names declared to need certificates to certificate
  groups. A group is keyed by its registered domain, its certificate name is derived
  from that key alone (\<open>CertName\<close>), and \<open>Cover\<close> picks the SAN set: declared wildcards, and
  the declared names no wildcard covers.
\<close>

section \<open>Names\<close>

datatype name_error = EmptyName | BadName domain_error

definition normalize_name :: "golib \<Rightarrow> string \<Rightarrow> name_error + string" where
  "normalize_name L raw =
     (let n = trim_suffix ''.'' (to_lower (trim_space raw)) in
      if n = [] then Inl EmptyName
      else case validate_domain L n of Some e \<Rightarrow> Inl (BadName e) | None \<Rightarrow> Inr n)"

definition registered_domain :: "golib \<Rightarrow> string \<Rightarrow> string" where
  "registered_domain L host =
     (let h = base_name (trim_suffix ''.'' (to_lower (trim_space host))) in
      if h = [] then []
      else if parse_ip L h then h
      else case etld_plus_one L h of None \<Rightarrow> h | Some r \<Rightarrow> r)"

definition wildcard_covers :: "string \<Rightarrow> string \<Rightarrow> bool" where
  "wildcard_covers wc host =
     (if \<not> is_wildcard wc then False
      else let parent = base_name wc in
        if host = parent then False
        else if \<not> suffix (''.'' @ parent) host then False
        else let rest = trim_suffix (''.'' @ parent) host in rest \<noteq> [] \<and> CHR ''.'' \<notin> set rest)"

lemma wildcard_covers_iff:
  "wildcard_covers wc host \<longleftrightarrow>
     (\<exists>l. is_wildcard wc \<and> host = l @ ''.'' @ base_name wc \<and> l \<noteq> [] \<and> CHR ''.'' \<notin> set l)"
proof
  assume a: "wildcard_covers wc host"
  then have "suffix (''.'' @ base_name wc) host"
    by (auto simp: wildcard_covers_def Let_def split: if_splits)
  then obtain l where "host = l @ ''.'' @ base_name wc" by (auto elim: suffixE)
  then show "\<exists>l. is_wildcard wc \<and> host = l @ ''.'' @ base_name wc \<and> l \<noteq> [] \<and> CHR ''.'' \<notin> set l"
    using a trim_suffix_append [of "''.'' @ base_name wc" l]
    by (auto simp: wildcard_covers_def Let_def split: if_splits)
next
  assume "\<exists>l. is_wildcard wc \<and> host = l @ ''.'' @ base_name wc \<and> l \<noteq> [] \<and> CHR ''.'' \<notin> set l"
  then obtain l where l: "is_wildcard wc" "host = l @ ''.'' @ base_name wc" "l \<noteq> []" "CHR ''.'' \<notin> set l"
    by blast
  have "trim_suffix (''.'' @ base_name wc) host = l"
    unfolding l(2) by (rule trim_suffix_append)
  moreover have "suffix (''.'' @ base_name wc) host"
    unfolding l(2) by (rule suffixI [OF refl])
  moreover have "length host \<noteq> length (base_name wc)" using l(2) by simp
  then have "host \<noteq> base_name wc" by blast
  ultimately show "wildcard_covers wc host"
    using l by (simp only: wildcard_covers_def Let_def if_False if_True not_True_eq_False simp_thms)
qed

lemma redundant_under_iff: "is_wildcard w \<Longrightarrow> redundant_under w n \<longleftrightarrow> n \<noteq> w \<and> wildcard_covers w n"
  by (auto simp: redundant_under_def wildcard_covers_def Let_def split: if_splits)

text \<open>A wildcard never covers another wildcard.\<close>

lemma wildcard_covers_wildcard:
  assumes "wildcard_covers w v" and v: "is_wildcard v"
  shows "v = w"
proof -
  obtain l where l: "is_wildcard w" "v = l @ ''.'' @ base_name w" "l \<noteq> []" "CHR ''.'' \<notin> set l"
    using assms(1) wildcard_covers_iff by blast
  obtain b where b: "v = ''*'' @ CHR ''.'' # b" using v wildcard_decomp [of v] by auto
  have "split_on (CHR ''.'') v = l # split_on (CHR ''.'') (base_name w)"
    unfolding l(2) using split_on_append_sep [OF l(4)] by simp
  moreover have "split_on (CHR ''.'') v = ''*'' # split_on (CHR ''.'') b"
    unfolding b by (rule split_on_append_sep) simp
  ultimately have "l = ''*''" by simp
  then show ?thesis using l(1,2) wildcard_decomp [of w] by simp
qed

section \<open>The certificate name of a registered domain\<close>

definition double_dash :: "string \<Rightarrow> string" where
  "double_dash s = concat (map (\<lambda>c. if c = CHR ''-'' then ''--'' else [c]) s)"

definition trim_dashes :: "string \<Rightarrow> string" where
  "trim_dashes s = rev (dropWhile (\<lambda>c. c = CHR ''-'') (rev (dropWhile (\<lambda>c. c = CHR ''-'') s)))"

definition cert_name :: "string \<Rightarrow> string" where
  "cert_name registered =
     (let s = double_dash (to_lower registered);
          s = map (\<lambda>c. if c = CHR ''.'' \<or> c = CHR '':'' then CHR ''-'' else c) s
      in trim_dashes s)"

text \<open>The reading the source describes: a doubled dash was a dash, a lone one a dot.\<close>

fun decode_name :: "string \<Rightarrow> string" where
  "decode_name [] = []"
| "decode_name [c] = (if c = CHR ''-'' then ''.'' else [c])"
| "decode_name (c # d # s) =
     (if c = CHR ''-'' then
        (if d = CHR ''-'' then CHR ''-'' # decode_name s else CHR ''.'' # decode_name (d # s))
      else c # decode_name (d # s))"

definition encode_char :: "char \<Rightarrow> string" where
  "encode_char c = (if c = CHR ''-'' then ''--'' else if c = CHR ''.'' then ''-'' else [c])"

fun dots_separate :: "string \<Rightarrow> bool" where
  "dots_separate [] = True"
| "dots_separate [c] = True"
| "dots_separate (c # d # s) =
     ((c = CHR ''.'' \<longrightarrow> d \<noteq> CHR ''.'' \<and> d \<noteq> CHR ''-'') \<and> dots_separate (d # s))"

lemma encode_char_simps [simp]:
  "encode_char (CHR ''-'') = ''--''" "encode_char (CHR ''.'') = ''-''"
  "c \<noteq> CHR ''-'' \<Longrightarrow> c \<noteq> CHR ''.'' \<Longrightarrow> encode_char c = [c]"
  by (simp_all add: encode_char_def)

lemma decode_name_other: "c \<noteq> CHR ''-'' \<Longrightarrow> decode_name (c # s) = c # decode_name s"
  by (cases s) auto

lemma decode_name_dashes: "decode_name (CHR ''-'' # CHR ''-'' # s) = CHR ''-'' # decode_name s"
  by simp

lemma decode_encode: "dots_separate s \<Longrightarrow> decode_name (concat (map encode_char s)) = s"
proof (induction s)
  case (Cons c s)
  have IH: "decode_name (concat (map encode_char s)) = s"
    using Cons by (cases s) auto
  consider "c = CHR ''-''" | "c = CHR ''.''" | "c \<noteq> CHR ''-'' \<and> c \<noteq> CHR ''.''" by blast
  then show ?case
  proof cases
    case 1
    then show ?thesis using IH by simp
  next
    case 2
    show ?thesis
    proof (cases s)
      case Nil
      then show ?thesis using 2 by simp
    next
      case (Cons d t)
      then have "d \<noteq> CHR ''-''" "d \<noteq> CHR ''.''" using Cons.prems 2 by auto
      then show ?thesis using 2 Cons IH by simp
    qed
  next
    case 3
    then show ?thesis using IH decode_name_other by simp
  qed
qed simp

lemma split_on_hd: "split_on (CHR ''.'') (c # s) = w # ws \<Longrightarrow> c \<noteq> CHR ''.'' \<Longrightarrow> w \<noteq> [] \<and> hd w = c"
  by (auto split: list.splits)

lemma host_name_dots: "host_name n \<Longrightarrow> dots_separate n"
proof -
  have "list_all host_label (tl (split_on (CHR ''.'') n)) \<Longrightarrow> dots_separate n" for n
  proof (induction n)
    case (Cons c n)
    then have IH: "list_all host_label (tl (split_on (CHR ''.'') n)) \<Longrightarrow> dots_separate n" by blast
    show ?case
    proof (cases n)
      case Nil then show ?thesis by simp
    next
      case (Cons d m)
      obtain w ws where w: "split_on (CHR ''.'') n = w # ws" by (cases "split_on (CHR ''.'') n") auto
      show ?thesis
      proof (cases "c = CHR ''.''")
        case True
        then have hl: "host_label w" "list_all host_label ws" using Cons.prems w by simp_all
        then have "w \<noteq> []" "hd w \<noteq> CHR ''-''" by (auto simp: host_label_def)
        have "d \<noteq> CHR ''.''" using w Cons \<open>w \<noteq> []\<close> by auto
        moreover have "d \<noteq> CHR ''-''"
          using w Cons split_on_hd [of d m w ws] \<open>d \<noteq> CHR ''.''\<close> \<open>hd w \<noteq> CHR ''-''\<close> by auto
        ultimately show ?thesis using IH hl w Cons by simp
      next
        case False
        then have "list_all host_label ws" using Cons.prems w by simp
        then show ?thesis using IH w Cons False by simp
      qed
    qed
  qed simp
  moreover assume "host_name n"
  then have "list_all host_label (tl (split_on (CHR ''.'') n))"
    by (cases "split_on (CHR ''.'') n") (auto simp: host_name_def)
  ultimately show ?thesis by blast
qed

lemma last_split_on_last:
  "s \<noteq> [] \<Longrightarrow> last s \<noteq> c \<Longrightarrow> last (split_on c s) \<noteq> [] \<and> last (last (split_on c s)) = last s"
  by (induction s) (auto simp: split_on_Nil_iff split: list.splits if_splits)

lemma host_name_ends:
  assumes "host_name n"
  shows "n \<noteq> []" "hd n \<noteq> CHR ''-''" "hd n \<noteq> CHR ''.''" "last n \<noteq> CHR ''-''" "last n \<noteq> CHR ''.''"
proof -
  show ne: "n \<noteq> []" and l: "last n \<noteq> CHR ''.''"
    using assms host_name_not_Nil host_name_last by blast+
  obtain c s where cs: "n = c # s" using ne by (cases n) auto
  obtain w ws where w: "split_on (CHR ''.'') n = w # ws" by (cases "split_on (CHR ''.'') n") auto
  then have hw: "host_label w" using assms by (simp add: host_name_def)
  then have "w \<noteq> []" "hd w \<noteq> CHR ''-''" by (auto simp: host_label_def)
  then show hd: "hd n \<noteq> CHR ''.''" using w cs by auto
  then show "hd n \<noteq> CHR ''-''"
    using split_on_hd [of c s w ws] cs w \<open>hd w \<noteq> CHR ''-''\<close> by simp
  have "last (split_on (CHR ''.'') n) \<in> set (split_on (CHR ''.'') n)" by simp
  then have "host_label (last (split_on (CHR ''.'') n))"
    using assms by (simp add: host_name_def list_all_iff)
  then show "last n \<noteq> CHR ''-''"
    using last_split_on_last [OF ne l] by (auto simp: host_label_def)
qed

lemma lower_char_dot: "lower_char (CHR ''.'') = CHR ''.''"
  by (simp add: lower_char_def)

lemma host_name_lower: "host_name n \<Longrightarrow> to_lower n = n"
proof -
  assume h: "host_name n"
  have "lower_char x = x" if "x \<in> set n" for x
    using host_name_chars [OF h that] by (auto simp: lower_char_dot)
  then show ?thesis by (simp add: to_lower_def map_idI)
qed

lemma trim_dashes_id: "s \<noteq> [] \<Longrightarrow> hd s \<noteq> CHR ''-'' \<Longrightarrow> last s \<noteq> CHR ''-'' \<Longrightarrow> trim_dashes s = s"
proof -
  assume a: "s \<noteq> []" "hd s \<noteq> CHR ''-''" "last s \<noteq> CHR ''-''"
  have "dropWhile (\<lambda>c. c = CHR ''-'') s = s" using a by (simp only: dropWhile_eq_self_iff) simp
  moreover have "dropWhile (\<lambda>c. c = CHR ''-'') (rev s) = rev s"
    using a by (simp only: dropWhile_eq_self_iff) (simp add: hd_rev)
  ultimately show ?thesis by (simp add: trim_dashes_def)
qed

lemma encode_nonempty [simp]: "encode_char c \<noteq> []"
  by (simp add: encode_char_def)

lemma double_dash_encode:
  "CHR '':'' \<notin> set s \<Longrightarrow>
   map (\<lambda>c. if c = CHR ''.'' \<or> c = CHR '':'' then CHR ''-'' else c) (double_dash s) =
     concat (map encode_char s)"
  by (induction s) (auto simp: double_dash_def encode_char_def)

lemma cert_name_encode:
  assumes h: "host_name r"
  shows "cert_name r = concat (map encode_char r)"
proof -
  note e = host_name_ends [OF h]
  have colon: "CHR '':'' \<notin> set r" using host_name_chars [OF h] by fastforce
  obtain c s where c: "r = c # s" using e(1) by (cases r) auto
  obtain q d where d: "r = q @ [d]" using e(1) by (cases r rule: rev_cases) auto
  have "hd (concat (map encode_char r)) \<noteq> CHR ''-''" using c e by simp
  moreover have "d \<noteq> CHR ''-''" "d \<noteq> CHR ''.''" using d e by simp_all
  then have "last (concat (map encode_char r)) \<noteq> CHR ''-''" unfolding d by simp
  moreover have "concat (map encode_char r) \<noteq> []" using c by simp
  ultimately have "trim_dashes (concat (map encode_char r)) = concat (map encode_char r)"
    by (intro trim_dashes_id)
  then show ?thesis
    by (simp add: cert_name_def host_name_lower [OF h] double_dash_encode [OF colon])
qed

text \<open>
  A certificate name determines its registered domain: reading \<open>--\<close> as a dash and a
  lone \<open>-\<close> as a dot recovers the domain \<open>CertName\<close> was given, for every host name. So two
  registered domains never collapse to one certificate name.
\<close>

theorem cert_name_roundtrip:
  assumes "host_name r"
  shows "decode_name (cert_name r) = r"
  using decode_encode [OF host_name_dots [OF assms]] cert_name_encode [OF assms] by simp

theorem cert_name_roundtrip_witness:
  "cert_name ''a-b.co.uk'' = ''a--b-co-uk'' \<and> decode_name ''a--b-co-uk'' = ''a-b.co.uk''"
proof -
  have h: "host_name ''a-b.co.uk''" by code_simp
  have "cert_name ''a-b.co.uk'' = ''a--b-co-uk''" by code_simp
  then show ?thesis using cert_name_roundtrip [OF h] by simp
qed

lemma cert_name_inj: "host_name a \<Longrightarrow> host_name b \<Longrightarrow> cert_name a = cert_name b \<Longrightarrow> a = b"
  using decode_encode host_name_dots cert_name_encode by metis

section \<open>Cover\<close>

record group =
  g_registered :: string
  g_name :: string
  g_wildcards :: "string list"
  g_names :: "string list"

record coverage =
  cov_domains :: "string list"
  cov_covered :: "string \<rightharpoonup> string"

datatype group_error =
    DeclaredName string name_error
  | NoRegisteredDomain string
  | TooManyNames string nat nat

definition coverer :: "string list \<Rightarrow> string \<Rightarrow> string option" where
  "coverer wcs n = find (\<lambda>w. wildcard_covers w n) wcs"

definition search_strings :: "string list \<Rightarrow> string \<Rightarrow> nat" where
  "search_strings xs x = length (takeWhile (\<lambda>y. y < x) xs)"

definition cover :: "int \<Rightarrow> group \<Rightarrow> group_error + coverage" where
  "cover max_names g =
     (let covered = fold (\<lambda>n m. case coverer (g_wildcards g) n of
              None \<Rightarrow> m | Some w \<Rightarrow> m(n \<mapsto> w)) (g_names g) Map.empty;
          uncovered = sort (filter (\<lambda>n. coverer (g_wildcards g) n = None) (g_names g));
          i = search_strings uncovered (g_registered g);
          bare = i < length uncovered \<and> uncovered ! i = g_registered g;
          rest = (if bare then take i uncovered @ drop (Suc i) uncovered else uncovered);
          domains = (if bare then [g_registered g] else []) @ g_wildcards g @ rest
      in if 0 < max_names \<and> max_names < int (length domains)
         then Inl (TooManyNames (g_name g) (length domains) (nat max_names))
         else Inr \<lparr>cov_domains = domains, cov_covered = covered\<rparr>)"

definition uncovered_names :: "group \<Rightarrow> string list" where
  "uncovered_names g = filter (\<lambda>n. coverer (g_wildcards g) n = None) (g_names g)"

lemma search_strings_correct:
  assumes "sorted xs"
  shows "(search_strings xs x < length xs \<and> xs ! search_strings xs x = x) \<longleftrightarrow> x \<in> set xs"
proof
  assume "x \<in> set xs"
  then have "dropWhile (\<lambda>y. y < x) xs \<noteq> []" by (auto simp: dropWhile_eq_Nil_conv)
  then obtain y ys where d: "dropWhile (\<lambda>y. y < x) xs = y # ys" by (cases "dropWhile (\<lambda>y. y < x) xs") auto
  have split: "xs = takeWhile (\<lambda>y. y < x) xs @ y # ys" using d takeWhile_dropWhile_id [of "\<lambda>y. y < x" xs] by simp
  have "\<not> y < x" using d by (metis hd_dropWhile list.sel(1) list.distinct(1))
  moreover have "x \<in> set (y # ys)"
    using \<open>x \<in> set xs\<close> split set_takeWhileD [of x "\<lambda>y. y < x" xs] by (metis Un_iff order_less_irrefl set_append)
  moreover have "sorted (y # ys)" using assms split by (metis sorted_append)
  ultimately have "y = x" by (auto simp: order.order_iff_strict)
  then show "search_strings xs x < length xs \<and> xs ! search_strings xs x = x"
    using split unfolding search_strings_def
    by (metis length_append length_Cons less_add_Suc1 add_Suc_right nth_append_length)
next
  assume "search_strings xs x < length xs \<and> xs ! search_strings xs x = x"
  then show "x \<in> set xs" by (metis nth_mem)
qed

lemma set_take_drop:
  "i < length xs \<Longrightarrow> set xs = insert (xs ! i) (set (take i xs @ drop (Suc i) xs))"
  by (metis Cons_nth_drop_Suc append_take_drop_id insert_is_Un list.simps(15) set_append Un_insert_right)

lemma cover_Inr:
  assumes "cover k g = Inr cov"
  shows "set (cov_domains cov) = set (g_wildcards g) \<union> set (uncovered_names g)"
    "0 < k \<longrightarrow> int (length (cov_domains cov)) \<le> k"
    "length (cov_domains cov) = length (g_wildcards g) + length (uncovered_names g)"
    "g_registered g \<in> set (uncovered_names g) \<Longrightarrow> hd (cov_domains cov) = g_registered g"
proof -
  let ?u = "sort (uncovered_names g)"
  let ?i = "search_strings ?u (g_registered g)"
  let ?b = "?i < length ?u \<and> ?u ! ?i = g_registered g"
  have d: "cov_domains cov = (if ?b then [g_registered g] else []) @ g_wildcards g @
      (if ?b then take ?i ?u @ drop (Suc ?i) ?u else ?u)"
    and len: "0 < k \<longrightarrow> int (length (cov_domains cov)) \<le> k"
    using assms unfolding cover_def uncovered_names_def Let_def by (auto split: if_splits)
  show "0 < k \<longrightarrow> int (length (cov_domains cov)) \<le> k" by (rule len)
  have b: "?b \<longleftrightarrow> g_registered g \<in> set (uncovered_names g)"
    using search_strings_correct [of ?u "g_registered g"] by simp
  show "set (cov_domains cov) = set (g_wildcards g) \<union> set (uncovered_names g)"
  proof (cases ?b)
    case True
    then have "set (uncovered_names g) = insert (g_registered g) (set (take ?i ?u @ drop (Suc ?i) ?u))"
      using set_take_drop [of ?i ?u] by simp
    then show ?thesis using True d by auto
  next
    case False
    then show ?thesis using d by (simp only: if_False append_Nil set_append set_sort)
  qed
  show "length (cov_domains cov) = length (g_wildcards g) + length (uncovered_names g)"
    using d by (cases ?b) auto
  show "hd (cov_domains cov) = g_registered g" if "g_registered g \<in> set (uncovered_names g)"
    using d b that by simp
qed

definition declared :: "group \<Rightarrow> string set" where
  "declared g = set (g_wildcards g) \<union> set (g_names g)"

definition group_ok :: "group \<Rightarrow> bool" where
  "group_ok g \<longleftrightarrow> list_all is_wildcard (g_wildcards g) \<and> list_all (\<lambda>n. \<not> is_wildcard n) (g_names g)"

definition covers_all :: "string set \<Rightarrow> string set \<Rightarrow> bool" where
  "covers_all S D \<longleftrightarrow> (\<forall>n \<in> D. n \<in> S \<or> (\<exists>w \<in> S. wildcard_covers w n))"

lemma coverer_Some: "coverer wcs n = Some w \<Longrightarrow> w \<in> set wcs \<and> wildcard_covers w n"
  unfolding coverer_def by (metis (mono_tags, lifting) find_Some_iff nth_mem)

lemma coverer_None: "coverer wcs n = None \<longleftrightarrow> (\<forall>w \<in> set wcs. \<not> wildcard_covers w n)"
  unfolding coverer_def by (auto simp: find_None_iff)

lemma covered_fold:
  "fold (\<lambda>n m. case coverer wcs n of None \<Rightarrow> m | Some w \<Rightarrow> m(n \<mapsto> w)) ns m n =
     (if n \<in> set ns \<and> coverer wcs n \<noteq> None then coverer wcs n else m n)"
  by (induction ns arbitrary: m) (auto split: option.splits)

lemma cover_covered:
  "cover k g = Inr cov \<Longrightarrow> n \<in> set (g_names g) \<Longrightarrow> cov_covered cov n = coverer (g_wildcards g) n"
  by (auto simp: cover_def Let_def covered_fold split: if_splits)

lemma cover_covers: "cover k g = Inr cov \<Longrightarrow> covers_all (set (cov_domains cov)) (declared g)"
  using cover_Inr(1) [of k g cov]
  by (auto simp: covers_all_def declared_def uncovered_names_def coverer_None)

lemma cover_least:
  assumes "cover k g = Inr cov" "group_ok g" "S \<subseteq> declared g" "covers_all S (declared g)"
  shows "set (cov_domains cov) \<subseteq> S"
proof
  fix n assume n: "n \<in> set (cov_domains cov)"
  then have nd: "n \<in> declared g"
    using cover_Inr(1) [OF assms(1)] by (auto simp: declared_def uncovered_names_def)
  show "n \<in> S"
  proof (rule ccontr)
    assume ns: "n \<notin> S"
    then obtain w where w: "w \<in> S" "wildcard_covers w n" using assms(4) nd by (auto simp: covers_all_def)
    then have "is_wildcard w" by (simp add: wildcard_covers_iff)
    then have wg: "w \<in> set (g_wildcards g)"
      using w assms(2,3) by (auto simp: declared_def group_ok_def list_all_iff)
    show False
    proof (cases "is_wildcard n")
      case True
      then show False using w ns wildcard_covers_wildcard by blast
    next
      case False
      then have "n \<in> set (uncovered_names g)"
        using n cover_Inr(1) [OF assms(1)] assms(2) by (auto simp: group_ok_def list_all_iff)
      then show False using w wg by (auto simp: uncovered_names_def coverer_None)
    qed
  qed
qed

text \<open>
  \<open>Cover\<close> computes the smallest SAN set: every declared name is in it or under one of its
  wildcards, nothing is invented (it is a subset of the declarations), and every other set of
  declared names that covers the declarations contains it. A name missing from it is
  recorded in \<open>Covered\<close> with the wildcard that covers it.
\<close>

theorem cover_minimal:
  assumes "cover k g = Inr cov" and "group_ok g"
  shows "set (cov_domains cov) \<subseteq> declared g \<and> covers_all (set (cov_domains cov)) (declared g) \<and>
    (\<forall>S. S \<subseteq> declared g \<longrightarrow> covers_all S (declared g) \<longrightarrow> set (cov_domains cov) \<subseteq> S) \<and>
    (\<forall>n \<in> declared g - set (cov_domains cov).
       \<exists>w \<in> set (cov_domains cov). cov_covered cov n = Some w \<and> wildcard_covers w n)"
proof (intro conjI allI impI)
  show "set (cov_domains cov) \<subseteq> declared g"
    using cover_Inr(1) [OF assms(1)] by (auto simp: declared_def uncovered_names_def)
  show "covers_all (set (cov_domains cov)) (declared g)" by (rule cover_covers [OF assms(1)])
  show "set (cov_domains cov) \<subseteq> S" if "S \<subseteq> declared g" "covers_all S (declared g)" for S
    using cover_least [OF assms that] .
  show "\<forall>n \<in> declared g - set (cov_domains cov).
       \<exists>w \<in> set (cov_domains cov). cov_covered cov n = Some w \<and> wildcard_covers w n"
  proof
    fix n assume n: "n \<in> declared g - set (cov_domains cov)"
    then have nn: "n \<in> set (g_names g)" "n \<notin> set (uncovered_names g)"
      using cover_Inr(1) [OF assms(1)] by (auto simp: declared_def)
    then obtain w where w: "coverer (g_wildcards g) n = Some w" by (auto simp: uncovered_names_def)
    then show "\<exists>w \<in> set (cov_domains cov). cov_covered cov n = Some w \<and> wildcard_covers w n"
      using cover_covered [OF assms(1) nn(1)] coverer_Some [OF w] cover_Inr(1) [OF assms(1)] by auto
  qed
qed

definition sample_group :: group where
  "sample_group = \<lparr>g_registered = ''example.com'', g_name = ''example-com'',
     g_wildcards = [''*.example.com''], g_names = [''a.example.com'', ''example.com'', ''x.a.example.com'']\<rparr>"

theorem cover_minimal_witness:
  "covers_all {''example.com'', ''*.example.com'', ''x.a.example.com''} (declared sample_group)"
proof -
  define cov where "cov = \<lparr>cov_domains = [''example.com'', ''*.example.com'', ''x.a.example.com''],
     cov_covered = [''a.example.com'' \<mapsto> ''*.example.com'']\<rparr>"
  have "coverer [''*.example.com''] ''a.example.com'' = Some ''*.example.com''"
    "coverer [''*.example.com''] ''example.com'' = None"
    "coverer [''*.example.com''] ''x.a.example.com'' = None" by code_simp+
  moreover have "search_strings [''example.com'', ''x.a.example.com''] ''example.com'' = 0" by code_simp
  ultimately have "cover 100 sample_group = Inr cov"
    by (simp add: cover_def sample_group_def cov_def Let_def)
  moreover have "group_ok sample_group" by code_simp
  ultimately show ?thesis using cover_minimal [of 100 sample_group cov] by (simp add: cov_def)
qed

text \<open>
  \<open>Cover\<close> never produces a set the CA rejects for redundancy: no name in it is covered by
  a wildcard of the same set, so \<open>rejectRedundantWildcardNames\<close> passes; and it refuses the
  group exactly when the limit is set and the set is longer than it.
\<close>

theorem cover_not_redundant:
  assumes "group_ok g"
  shows "(\<forall>cov. cover k g = Inr cov \<longrightarrow>
      reject_redundant_wildcards (cov_domains cov) (cov_domains cov) = None) \<and>
    ((\<exists>e. cover k g = Inl e) \<longleftrightarrow>
      0 < k \<and> k < int (length (g_wildcards g) + length (uncovered_names g)))"
proof (intro conjI allI impI)
  fix cov assume c: "cover k g = Inr cov"
  show "reject_redundant_wildcards (cov_domains cov) (cov_domains cov) = None"
    unfolding reject_redundant_None
  proof (intro ballI impI notI)
    fix w n assume w: "w \<in> set (cov_domains cov)" "is_wildcard w" and n: "n \<in> set (cov_domains cov)"
      and r: "redundant_under w n"
    then have wc: "n \<noteq> w" "wildcard_covers w n" using redundant_under_iff by blast+
    have wg: "w \<in> set (g_wildcards g)"
      using w cover_Inr(1) [OF c] assms by (auto simp: group_ok_def list_all_iff uncovered_names_def)
    show False
    proof (cases "is_wildcard n")
      case True
      then show False using wc wildcard_covers_wildcard by blast
    next
      case False
      then have "n \<in> set (uncovered_names g)"
        using n cover_Inr(1) [OF c] assms by (auto simp: group_ok_def list_all_iff)
      then show False using wc wg by (auto simp: uncovered_names_def coverer_None)
    qed
  qed
next
  have len: "length (cov_domains cov) = length (g_wildcards g) + length (uncovered_names g)"
    and le: "0 < k \<longrightarrow> int (length (cov_domains cov)) \<le> k"
    if "cover k g = Inr cov" for cov
    using cover_Inr(2,3) [OF that] by auto
  have big: "\<exists>n. cover k g = Inl (TooManyNames (g_name g) n (nat k)) \<and> 0 < k \<and> k < int n \<and>
      n = length (g_wildcards g) + length (uncovered_names g)" if e: "cover k g = Inl e" for e
  proof -
    have z: "cover 0 g = Inr (projr (cover 0 g))" by (simp add: cover_def Let_def)
    obtain n where n: "cover k g = Inl (TooManyNames (g_name g) n (nat k))" "0 < k" "k < int n"
      "n = length (cov_domains (projr (cover 0 g)))"
      using e by (auto simp: cover_def Let_def split: if_splits)
    then show ?thesis using cover_Inr(3) [OF z] by blast
  qed
  show "(\<exists>e. cover k g = Inl e) \<longleftrightarrow>
      0 < k \<and> k < int (length (g_wildcards g) + length (uncovered_names g))"
    using big len le by (cases "cover k g") fastforce+
qed

theorem cover_not_redundant_witness:
  "\<exists>e. cover 2 sample_group = Inl e"
proof -
  have h: "group_ok sample_group" by code_simp
  have "length (g_wildcards sample_group) + length (uncovered_names sample_group) = 3" by code_simp
  then show ?thesis using cover_not_redundant [OF h, of 2] by simp
qed

section \<open>GroupBy\<close>

definition new_group :: "string \<Rightarrow> group" where
  "new_group reg = \<lparr>g_registered = reg, g_name = cert_name reg, g_wildcards = [], g_names = []\<rparr>"

definition add_name :: "string \<Rightarrow> group \<Rightarrow> group" where
  "add_name n g =
     (if is_wildcard n then g\<lparr>g_wildcards := g_wildcards g @ [n]\<rparr>
      else g\<lparr>g_names := g_names g @ [n]\<rparr>)"

definition ensure_group :: "string \<Rightarrow> group list \<Rightarrow> group list" where
  "ensure_group reg gs = (if row_get g_registered reg gs = None then gs @ [new_group reg] else gs)"

type_synonym group_state = "group list \<times> (string \<times> string) list"

definition group_step :: "golib \<Rightarrow> group_state \<Rightarrow> string \<Rightarrow> group_error + group_state" where
  "group_step L s raw =
     (case normalize_name L raw of
        Inl e \<Rightarrow> Inl (DeclaredName raw e)
      | Inr n \<Rightarrow>
          let reg = registered_domain L n in
          if reg = [] then Inl (NoRegisteredDomain raw)
          else let gs = ensure_group reg (fst s) in
            if (reg, n) \<in> set (snd s) then Inr (gs, snd s)
            else Inr (map (\<lambda>g. if g_registered g = reg then add_name n g else g) gs,
                      (reg, n) # snd s))"

fun group_all :: "golib \<Rightarrow> group_state \<Rightarrow> string list \<Rightarrow> group_error + group_state" where
  "group_all L s [] = Inr s"
| "group_all L s (raw # rest) =
     (case group_step L s raw of Inl e \<Rightarrow> Inl e | Inr s' \<Rightarrow> group_all L s' rest)"

definition sort_fields :: "group \<Rightarrow> group" where
  "sort_fields g = g\<lparr>g_wildcards := sort (g_wildcards g), g_names := sort (g_names g)\<rparr>"

definition group_by :: "golib \<Rightarrow> string list \<Rightarrow> group_error + group list" where
  "group_by L ds =
     (case group_all L ([], []) ds of
        Inl e \<Rightarrow> Inl e
      | Inr s \<Rightarrow> Inr (sort_key g_name (map sort_fields (fst s))))"

text \<open>What the loop knows after the names \<open>N\<close>.\<close>

definition group_fits :: "golib \<Rightarrow> string set \<Rightarrow> group \<Rightarrow> bool" where
  "group_fits L N g \<longleftrightarrow> g_name g = cert_name (g_registered g) \<and>
     distinct (g_wildcards g) \<and> distinct (g_names g) \<and>
     set (g_wildcards g) = {n \<in> N. registered_domain L n = g_registered g \<and> is_wildcard n} \<and>
     set (g_names g) = {n \<in> N. registered_domain L n = g_registered g \<and> \<not> is_wildcard n}"

definition group_inv :: "golib \<Rightarrow> string set \<Rightarrow> group_state \<Rightarrow> bool" where
  "group_inv L N s \<longleftrightarrow>
     set (snd s) = (\<lambda>n. (registered_domain L n, n)) ` N \<and>
     distinct (map g_registered (fst s)) \<and>
     g_registered ` set (fst s) = registered_domain L ` N \<and>
     (\<forall>g \<in> set (fst s). group_fits L N g)"

lemma add_name_simps [simp]:
  "g_registered (add_name n g) = g_registered g" "g_name (add_name n g) = g_name g"
  "set (g_wildcards (add_name n g)) = set (g_wildcards g) \<union> (if is_wildcard n then {n} else {})"
  "set (g_names (add_name n g)) = set (g_names g) \<union> (if is_wildcard n then {} else {n})"
  by (auto simp: add_name_def)

lemma add_name_distinct:
  "n \<notin> set (g_wildcards g) \<Longrightarrow> distinct (g_wildcards g) \<Longrightarrow> distinct (g_wildcards (add_name n g))"
  "n \<notin> set (g_names g) \<Longrightarrow> distinct (g_names g) \<Longrightarrow> distinct (g_names (add_name n g))"
  by (auto simp: add_name_def)

lemma new_group_fits: "\<forall>n \<in> N. registered_domain L n \<noteq> reg \<Longrightarrow> group_fits L N (new_group reg)"
  by (simp add: group_fits_def new_group_def) blast

lemma add_name_fits:
  assumes fits: "group_fits L N g" and n: "n \<notin> N" and reg: "registered_domain L n = g_registered g"
  shows "group_fits L (insert n N) (add_name n g)"
proof -
  note F = fits [unfolded group_fits_def]
  have "n \<notin> set (g_wildcards g)" "n \<notin> set (g_names g)" using F n by simp_all
  then have "distinct (g_wildcards (add_name n g))" "distinct (g_names (add_name n g))"
    using F by (simp_all add: add_name_distinct)
  moreover have "set (g_wildcards (add_name n g)) =
      {m \<in> insert n N. registered_domain L m = g_registered g \<and> is_wildcard m}"
    using F reg by (simp only: add_name_simps) auto
  moreover have "set (g_names (add_name n g)) =
      {m \<in> insert n N. registered_domain L m = g_registered g \<and> \<not> is_wildcard m}"
    using F reg by (simp only: add_name_simps) auto
  ultimately show ?thesis using F by (simp only: group_fits_def add_name_simps)
qed

lemma other_group_fits:
  "group_fits L N g \<Longrightarrow> registered_domain L n \<noteq> g_registered g \<Longrightarrow> group_fits L (insert n N) g"
  by (simp only: group_fits_def) auto

lemma ensure_group_inv:
  assumes "group_inv L N s"
  shows "distinct (map g_registered (ensure_group reg (fst s)))"
    "g_registered ` set (ensure_group reg (fst s)) = insert reg (registered_domain L ` N)"
    "\<forall>g \<in> set (ensure_group reg (fst s)). group_fits L N g"
proof -
  have regs: "g_registered ` set (fst s) = registered_domain L ` N"
    and rest: "distinct (map g_registered (fst s))" "\<forall>g \<in> set (fst s). group_fits L N g"
    using assms by (simp_all add: group_inv_def)
  have known: "row_get g_registered reg (fst s) = None \<longleftrightarrow> reg \<notin> registered_domain L ` N"
    unfolding row_get_None regs [symmetric] by blast
  have reg: "g_registered (new_group reg) = reg" by (simp add: new_group_def)
  show "distinct (map g_registered (ensure_group reg (fst s)))"
    using rest known regs reg by (simp add: ensure_group_def)
  show "g_registered ` set (ensure_group reg (fst s)) = insert reg (registered_domain L ` N)"
    using known regs reg by (simp add: ensure_group_def insert_absorb)
  show "\<forall>g \<in> set (ensure_group reg (fst s)). group_fits L N g"
    using rest known new_group_fits [of N L reg] by (auto simp: ensure_group_def)
qed

lemma group_step_Inr:
  assumes "group_step L s raw = Inr s'"
  shows "\<exists>n. normalize_name L raw = Inr n \<and>
    s' = (let reg = registered_domain L n; gs = ensure_group reg (fst s) in
      if (reg, n) \<in> set (snd s) then (gs, snd s)
      else (map (\<lambda>g. if g_registered g = reg then add_name n g else g) gs, (reg, n) # snd s))"
proof -
  obtain n where "normalize_name L raw = Inr n"
    using assms by (cases "normalize_name L raw") (simp_all add: group_step_def)
  then show ?thesis using assms by (simp add: group_step_def Let_def split: if_splits)
qed

lemma group_step_inv:
  assumes inv: "group_inv L N s" and st: "group_step L s raw = Inr s'"
  shows "\<exists>n. normalize_name L raw = Inr n \<and> group_inv L (insert n N) s'"
proof -
  obtain n reg where n: "normalize_name L raw = Inr n" and reg: "reg = registered_domain L n"
    and old: "(reg, n) \<in> set (snd s) \<Longrightarrow> s' = (ensure_group reg (fst s), snd s)"
    and new: "(reg, n) \<notin> set (snd s) \<Longrightarrow>
       s' = (map (\<lambda>g. if g_registered g = reg then add_name n g else g) (ensure_group reg (fst s)),
             (reg, n) # snd s)"
    using group_step_Inr [OF st] by (auto simp: Let_def)
  note E = ensure_group_inv [OF inv, of reg]
  have seen: "set (snd s) = (\<lambda>n. (registered_domain L n, n)) ` N"
    using inv by (simp add: group_inv_def)
  show ?thesis
  proof (cases "(reg, n) \<in> set (snd s)")
    case True
    then have nN: "insert n N = N" "insert reg (registered_domain L ` N) = registered_domain L ` N"
      using seen reg by auto
    have "group_inv L (insert n N) s'"
      using E old [OF True] seen nN by (simp add: group_inv_def)
    then show ?thesis using n by blast
  next
    case False
    then have nN: "n \<notin> N" using seen reg by auto
    define f where "f = (\<lambda>g. if g_registered g = reg then add_name n g else g)"
    have f: "g_registered (f g) = g_registered g" for g by (simp add: f_def)
    have s': "fst s' = map f (ensure_group reg (fst s))" "snd s' = (reg, n) # snd s"
      using new [OF False] by (simp_all add: f_def)
    have "\<forall>g \<in> set (fst s'). group_fits L (insert n N) g"
    proof
      fix g' assume "g' \<in> set (fst s')"
      then obtain g where "g \<in> set (ensure_group reg (fst s))" "g' = f g" using s'(1) by auto
      then have g: "group_fits L N g" "g' = f g" using E(3) by blast+
      show "group_fits L (insert n N) g'"
      proof (cases "g_registered g = reg")
        case True
        then show ?thesis
          unfolding g(2) f_def if_P [OF True] using add_name_fits [OF g(1) nN] reg by metis
      next
        case False
        then show ?thesis
          unfolding g(2) f_def if_not_P [OF False] using other_group_fits [OF g(1)] reg by metis
      qed
    qed
    then have "group_inv L (insert n N) s'"
      using E(1,2) s' seen reg by (simp add: group_inv_def f comp_def image_image)
    then show ?thesis using n by blast
  qed
qed

definition normals :: "golib \<Rightarrow> string list \<Rightarrow> string set" where
  "normals L ds = {n. \<exists>raw \<in> set ds. normalize_name L raw = Inr n}"

lemma group_all_inv:
  "group_inv L N s \<Longrightarrow> group_all L s ds = Inr s' \<Longrightarrow>
   group_inv L (N \<union> normals L ds) s' \<and> (\<forall>raw \<in> set ds. \<exists>n. normalize_name L raw = Inr n)"
proof (induction ds arbitrary: N s)
  case Nil
  then show ?case by (simp add: normals_def)
next
  case (Cons raw rest)
  obtain s1 where s1: "group_step L s raw = Inr s1" "group_all L s1 rest = Inr s'"
    using Cons.prems(2) by (auto split: sum.splits)
  obtain n where n: "normalize_name L raw = Inr n" "group_inv L (insert n N) s1"
    using group_step_inv [OF Cons.prems(1) s1(1)] by blast
  have "insert n N \<union> normals L rest = N \<union> normals L (raw # rest)"
    using n(1) by (auto simp: normals_def)
  then show ?case using Cons.IH [OF n(2) s1(2)] n(1) by auto
qed

text \<open>
  The Public Suffix List is not part of the repository. What is relied on is its documented
  answer: the registered domain of a host is the host itself or a parent of it.
\<close>

definition psl_ok :: "golib \<Rightarrow> bool" where
  "psl_ok L \<longleftrightarrow> (\<forall>h r. etld_plus_one L h = Some r \<longrightarrow> r = h \<or> suffix (CHR ''.'' # r) h)"

lemma split_on_append: "split_on c (a @ c # b) = split_on c a @ split_on c b"
proof (induction a)
  case (Cons x xs)
  then show ?case by (cases "split_on c xs") auto
qed simp

lemma host_name_parent: "host_name h \<Longrightarrow> suffix (CHR ''.'' # r) h \<Longrightarrow> host_name r"
  by (auto simp: suffix_def host_name_def split_on_append)

lemma normalize_name_valid: "normalize_name L raw = Inr n \<Longrightarrow> validate_domain L n = None"
  by (auto simp: normalize_name_def Let_def split: if_splits option.splits)

lemma no_space: "host_name b \<Longrightarrow> x \<in> set b \<Longrightarrow> \<not> is_space x"
  using host_name_chars [of b x] by (auto simp: label_char_def is_space_def Let_def)

lemma trim_space_id: "\<forall>x \<in> set s. \<not> is_space x \<Longrightarrow> trim_space s = s"
proof -
  assume a: "\<forall>x \<in> set s. \<not> is_space x"
  have "dropWhile is_space s = s" "dropWhile is_space (rev s) = rev s"
    using a last_in_set [of s] by (auto simp: dropWhile_eq_self_iff hd_rev)
  then show ?thesis by (simp add: trim_space_def)
qed

lemma trim_suffix_id: "\<not> suffix q s \<Longrightarrow> trim_suffix q s = s"
  by (simp add: trim_suffix_def)

text \<open>A valid name passes unchanged through the cleaning that starts both functions.\<close>

lemma host_name_clean:
  assumes b: "host_name b" "n = b \<or> n = ''*.'' @ b"
  shows "trim_suffix ''.'' (to_lower (trim_space n)) = n"
proof -
  have "\<forall>x \<in> set n. \<not> is_space x" using b no_space by (auto simp: is_space_def)
  moreover have "to_lower n = n"
    using b host_name_lower by (auto simp: to_lower_def lower_char_def)
  moreover have "\<not> suffix ''.'' n" using b host_name_ends(1,5) [of b] by (auto simp: suffix_single)
  ultimately show ?thesis by (simp add: trim_space_id trim_suffix_id)
qed

lemma valid_name_clean:
  assumes "validate_domain L n = None"
  shows "trim_suffix ''.'' (to_lower (trim_space n)) = n"
  using assms validate_domain_iff host_name_clean by blast

lemma registered_domain_host:
  assumes "psl_ok L" and "validate_domain L n = None"
  shows "host_name (registered_domain L n)"
proof -
  have h: "host_name (base_name n)" using assms(2) by (rule validate_domain_host)
  then have "host_name r" if "etld_plus_one L (base_name n) = Some r" for r
    using assms(1) that host_name_parent unfolding psl_ok_def by blast
  then show ?thesis
    using h host_name_not_Nil
    by (auto simp: registered_domain_def valid_name_clean [OF assms(2)] Let_def split: option.split)
qed

text \<open>The group a registered domain gets, as a function of the set of declared names.\<close>

definition group_of :: "golib \<Rightarrow> string set \<Rightarrow> string \<Rightarrow> group" where
  "group_of L N r = \<lparr>g_registered = r, g_name = cert_name r,
     g_wildcards = sorted_list_of_set {n \<in> N. registered_domain L n = r \<and> is_wildcard n},
     g_names = sorted_list_of_set {n \<in> N. registered_domain L n = r \<and> \<not> is_wildcard n}\<rparr>"

lemma sort_fields_group_of: "group_fits L N g \<Longrightarrow> sort_fields g = group_of L N (g_registered g)"
proof -
  assume f: "group_fits L N g"
  have s: "sort xs = sorted_list_of_set (set xs)" if "distinct xs" for xs :: "string list"
    using that sorted_list_of_set_sort_remdups [of xs] by (simp add: distinct_remdups_id)
  show ?thesis
    using f s [of "g_wildcards g"] s [of "g_names g"]
    by (cases g) (auto simp: group_fits_def sort_fields_def group_of_def)
qed

lemma group_by_spec:
  assumes psl: "psl_ok L" and gb: "group_by L ds = Inr gs"
  shows "set gs = group_of L (normals L ds) ` registered_domain L ` normals L ds"
    "sorted (map g_name gs)" "distinct (map g_name gs)"
    "\<forall>raw \<in> set ds. \<exists>n. normalize_name L raw = Inr n"
proof -
  let ?N = "normals L ds"
  obtain s where s: "group_all L ([], []) ds = Inr s" and gs: "gs = sort_key g_name (map sort_fields (fst s))"
    using gb by (auto simp: group_by_def split: sum.splits)
  have "group_inv L {} ([], [])" by (simp add: group_inv_def)
  from group_all_inv [OF this s] have inv: "group_inv L ?N s"
    and ok: "\<forall>raw \<in> set ds. \<exists>n. normalize_name L raw = Inr n" by simp_all
  show "\<forall>raw \<in> set ds. \<exists>n. normalize_name L raw = Inr n" by (rule ok)
  show "sorted (map g_name gs)" unfolding gs by simp
  note I = inv [unfolded group_inv_def]
  have sf: "sort_fields g = group_of L ?N (g_registered g)" if "g \<in> set (fst s)" for g
    using I that sort_fields_group_of by blast
  have maps: "map sort_fields (fst s) = map (group_of L ?N) (map g_registered (fst s))"
    using sf by simp
  show "set gs = group_of L ?N ` registered_domain L ` ?N"
    unfolding gs maps using I by (simp only: set_sort set_map)
  have "inj_on cert_name (registered_domain L ` ?N)"
  proof (rule inj_onI)
    fix a b assume "a \<in> registered_domain L ` ?N" "b \<in> registered_domain L ` ?N" "cert_name a = cert_name b"
    then show "a = b"
      using registered_domain_host [OF psl] normalize_name_valid cert_name_inj
      by (auto simp: normals_def)
  qed
  then have dc: "distinct (map cert_name (map g_registered (fst s)))"
    using I by (simp only: distinct_map set_map)
  have "map g_name (map sort_fields (fst s)) = map cert_name (map g_registered (fst s))"
    unfolding maps by (simp add: group_of_def)
  then have "distinct (map g_name (map sort_fields (fst s)))" using dc by argo
  then show "distinct (map g_name gs)"
    unfolding gs distinct_map [of g_name] distinct_sort set_sort .
qed

text \<open>
  \<open>GroupBy\<close> is a function of the set of declared names: two declarations that normalise
  to the same names, in any order and with any repetition, give the same groups in the same
  order. The group names are pairwise different and come out strictly increasing, and every
  declared name lands in the group of its registered domain.
\<close>

theorem group_by_canonical:
  assumes "psl_ok L" and "group_by L xs = Inr gs" and "group_by L ys = Inr hs"
    and "normals L xs = normals L ys"
  shows "gs = hs \<and> distinct (map g_name gs) \<and> sorted (map g_name gs) \<and>
    set gs = group_of L (normals L xs) ` registered_domain L ` normals L xs"
proof -
  note G = group_by_spec [OF assms(1,2)]
  note H = group_by_spec [OF assms(1,3)]
  have sets: "set gs = set hs" using G(1) H(1) assms(4) by simp
  moreover have "inj_on g_name (set gs \<union> set hs)" using G(3) sets by (simp add: distinct_map)
  ultimately have "gs = hs"
    using map_sorted_distinct_set_unique [of g_name gs hs] G(2,3) H(2,3) by blast
  then show ?thesis using G by blast
qed

definition sample_lib :: golib where
  "sample_lib = \<lparr>parse_ip = (\<lambda>s. s = ''10.0.0.1''),
     public_suffix = (\<lambda>h. if h = ''com'' then ''com'' else if suffix ''.com'' h then ''com'' else h),
     etld_plus_one = (\<lambda>h. if suffix ''.example.com'' h then Some ''example.com'' else None)\<rparr>"

lemma sample_lib_psl: "psl_ok sample_lib"
  by (auto simp: psl_ok_def sample_lib_def)

theorem group_by_canonical_witness:
  "group_by sample_lib [''b.example.com'', ''A.example.com'', ''b.example.com''] =
   group_by sample_lib [''a.example.com.'', ''B.example.com'']"
proof -
  let ?x = "[''b.example.com'', ''A.example.com'', ''b.example.com'']"
  let ?y = "[''a.example.com.'', ''B.example.com'']"
  have n: "normalize_name sample_lib ''b.example.com'' = Inr ''b.example.com''"
    "normalize_name sample_lib ''A.example.com'' = Inr ''a.example.com''"
    "normalize_name sample_lib ''a.example.com.'' = Inr ''a.example.com''"
    "normalize_name sample_lib ''B.example.com'' = Inr ''b.example.com''" by code_simp+
  then have eq: "normals sample_lib ?x = normals sample_lib ?y" by (auto simp: normals_def)
  have "\<not> isl (group_by sample_lib ?x) \<and> \<not> isl (group_by sample_lib ?y)" by code_simp
  then obtain gs hs where "group_by sample_lib ?x = Inr gs" "group_by sample_lib ?y = Inr hs"
    by (cases "group_by sample_lib ?x"; cases "group_by sample_lib ?y") auto
  then show ?thesis using group_by_canonical [OF sample_lib_psl _ _ eq] by metis
qed

end
