(* ===== verification/Refusal.thy ===== *)
theory Refusal
  imports Backoff Group
begin

text \<open>
  What the manager reads out of a refused order and how a recorded deadline gates the next one
  (\<open>manager_renew.go\<close>): the wording that names a limit, the scope it is booked under, the
  identifier pause that names no instant, the checks made before an order is placed, and the two
  gates \<open>refuseWhileCoolingDown\<close> and \<open>refuseWhileCALockedOut\<close>.

  \<open>strings.EqualFold\<close> is modelled on ASCII, which is what the markers are: a window of as many bytes
  as the marker that holds a character outside ASCII has fewer characters than the marker and
  cannot be equal to it.
\<close>

section \<open>Scopes\<close>

definition bare_identifier_scope :: "string \<Rightarrow> string" where
  "bare_identifier_scope ident = trim_prefix ''*.'' (to_lower ident)"

definition unique_registered_domains :: "golib \<Rightarrow> string list \<Rightarrow> string list" where
  "unique_registered_domains L ds = dedup (filter (\<lambda>r. r \<noteq> []) (map (registered_domain L) ds))"

definition scope_label :: "string \<Rightarrow> string" where
  "scope_label scope = (if scope = [] then [] else '' for '' @ scope)"

section \<open>Reading a refusal\<close>

definition dquote :: char where "dquote = char_of (34 :: nat)"

definition quoted_domain :: "string \<Rightarrow> string" where
  "quoted_domain msg =
     (case dropWhile (\<lambda>c. c \<noteq> dquote) msg of
        [] \<Rightarrow> []
      | q # rest \<Rightarrow> if dquote \<notin> set rest then [] else to_lower (takeWhile (\<lambda>c. c \<noteq> dquote) rest))"

fun index_of_fold :: "string \<Rightarrow> string \<Rightarrow> nat option" where
  "index_of_fold sub [] = (if sub = [] then Some 0 else None)"
| "index_of_fold sub (c # s) =
     (if length sub \<le> length (c # s) \<and> to_lower (take (length sub) (c # s)) = to_lower sub then Some 0
      else map_option Suc (index_of_fold sub s))"

definition forbidden_chars :: string where
  "forbidden_chars = map char_of [32, 9, 13, 10, 47, 92, 34, 39, 60, 62, 91, 93, 40, 41 :: nat]"

definition looks_like_identifier :: "string \<Rightarrow> bool" where
  "looks_like_identifier s \<longleftrightarrow> s \<noteq> [] \<and> length s \<le> 253 \<and> \<not> contains_any s forbidden_chars"

definition pause_marker :: string where
  "pause_marker = ''temporarily prevented from requesting certificates for ''"

definition cut_at :: "nat option \<Rightarrow> string \<Rightarrow> string" where
  "cut_at i s = (case i of None \<Rightarrow> s | Some j \<Rightarrow> take j s)"

definition paused_domain :: "string \<Rightarrow> string" where
  "paused_domain msg =
     (case index_of_fold pause_marker msg of
        None \<Rightarrow> []
      | Some i \<Rightarrow>
          (let rest = drop (i + length pause_marker) msg;
               rest = cut_at (index_of_fold '' and possibly'' rest) rest;
               rest = trim_space (takeWhile (\<lambda>c. c \<noteq> CHR '','') rest)
           in if looks_like_identifier rest then to_lower rest else []))"

definition is_pause_refusal :: "timelib \<Rightarrow> string \<Rightarrow> bool" where
  "is_pause_refusal T msg =
     (let lower = to_lower msg
      in if contains lower ''temporarily prevented from requesting certificates'' then True
         else if parse_retry_after T msg \<noteq> None then False
         else contains lower ''failed authorizations'')"

definition refused_limits :: "timelib \<Rightarrow> string \<Rightarrow> limit list" where
  "refused_limits T msg =
     (let lower = to_lower msg;
          exact = contains lower ''exact set of identifiers'' \<or> contains lower ''exact-identifier-set''
      in (if exact then [certs_per_exact_identifier_set] else [])
       @ (if \<not> exact \<and> contains lower ''already issued for'' then [certs_per_registered_domain] else [])
       @ (if contains lower ''failed authorizations'' then [authz_failures_per_identifier] else [])
       @ (if is_pause_refusal T msg then [consecutive_authz_failures] else [])
       @ (if contains lower ''new orders'' \<or> contains lower ''new-orders'' then [new_orders_per_account] else []))"

definition named_limits :: "timelib \<Rightarrow> string \<Rightarrow> limit list" where
  "named_limits T msg = (let ls = refused_limits T msg in if ls = [] then [new_orders_per_account] else ls)"

definition new_order_refusal_scope :: "golib \<Rightarrow> limit \<Rightarrow> cert_config \<Rightarrow> string \<Rightarrow> string" where
  "new_order_refusal_scope L l c msg =
     (let first_bare = (case cc_domains c of [] \<Rightarrow> [] | d # _ \<Rightarrow> bare_identifier_scope d)
      in if l_name l = l_name certs_per_exact_identifier_set then domain_key (cc_domains c)
         else if l_name l = l_name certs_per_registered_domain then
           (if quoted_domain msg \<noteq> [] then quoted_domain msg
            else case unique_registered_domains L (cc_domains c) of [] \<Rightarrow> [] | d # _ \<Rightarrow> d)
         else if l_name l = l_name authz_failures_per_identifier then
           (if quoted_domain msg \<noteq> [] then bare_identifier_scope (quoted_domain msg) else first_bare)
         else if l_name l = l_name consecutive_authz_failures then
           (if quoted_domain msg \<noteq> [] then quoted_domain msg
            else if paused_domain msg \<noteq> [] then paused_domain msg
            else first_bare)
         else [])"

section \<open>Recording a refusal\<close>

definition later_of :: "instant \<Rightarrow> instant option \<Rightarrow> instant" where
  "later_of t x = (case x of None \<Rightarrow> t | Some u \<Rightarrow> if u > t then u else t)"

definition header_deadline :: "env \<Rightarrow> ca_error \<Rightarrow> instant option pass" where
  "header_deadline E err =
     (if ce_retry_after err = [] then ret None
      else do {
        now \<leftarrow> clock E;
        ret (parse_retry_after_header_at (e_timelib E) (ce_retry_after err) now) })"

definition note_refused_limit ::
  "env \<Rightarrow> cert_config \<Rightarrow> string \<Rightarrow> instant option \<Rightarrow> limit \<Rightarrow> bool pass" where
  "note_refused_limit E c msg header l =
     (let scope = new_order_refusal_scope (e_golib E) l c msg
      in do {
        named \<leftarrow> quota_note_retry_after E l scope msg;
        if l_spent_by_ca l then do {
          now \<leftarrow> clock E;
          noted \<leftarrow> quota_note_deadline E l scope (later_of (later_of (now + l_refill l) named) header);
          ret (noted \<noteq> None) }
        else case (named, header) of
            (None, Some h) \<Rightarrow> do { quota_note_deadline E l scope h; ret True }
          | _ \<Rightarrow> ret (named \<noteq> None) })"

fun note_refused_limits ::
  "env \<Rightarrow> cert_config \<Rightarrow> string \<Rightarrow> instant option \<Rightarrow> limit list \<Rightarrow> bool pass" where
  "note_refused_limits E c msg header [] = ret False"
| "note_refused_limits E c msg header (l # ls) = do {
     b \<leftarrow> note_refused_limit E c msg header l;
     bs \<leftarrow> note_refused_limits E c msg header ls;
     ret (b \<or> bs) }"

definition note_new_order_refusal :: "env \<Rightarrow> cert_config \<Rightarrow> ca_error \<Rightarrow> bool pass" where
  "note_new_order_refusal E c err = do {
     header \<leftarrow> header_deadline E err;
     note_refused_limits E c (ce_text err) header (named_limits (e_timelib E) (ce_text err)) }"

section \<open>The gates before an order\<close>

definition recorded_checks :: "golib \<Rightarrow> cert_config \<Rightarrow> (limit \<times> string) list" where
  "recorded_checks L c =
     [(new_orders_per_account, []), (certs_per_exact_identifier_set, domain_key (cc_domains c))]
     @ map (\<lambda>d. (certs_per_registered_domain, d)) (unique_registered_domains L (cc_domains c))
     @ concat (map (\<lambda>d. [(authz_failures_per_identifier, bare_identifier_scope d),
         (consecutive_authz_failures, bare_identifier_scope d)]) (cc_domains c))"

definition check_recorded :: "env \<Rightarrow> limit \<times> string \<Rightarrow> (instant \<times> limit \<times> string) option pass" where
  "check_recorded E ch =
     (case ch of (l, scope) \<Rightarrow>
        if scope = [] \<and> l_scope l \<noteq> ''account'' then ret None
        else do {
          b \<leftarrow> quota_blocked_until E l scope;
          ret (map_option (\<lambda>(t, why). (t, l, scope)) b) })"

definition blocked_by_recorded_deadline :: "env \<Rightarrow> cert_config \<Rightarrow> (instant \<times> limit \<times> string) option pass" where
  "blocked_by_recorded_deadline E c = find_first (recorded_checks (e_golib E) c) (check_recorded E)"

definition refuse_while_cooling_down :: "env \<Rightarrow> cert_config \<Rightarrow> cert_state \<Rightarrow> outcome option pass" where
  "refuse_while_cooling_down E c st = do {
     cooling \<leftarrow> cooling_down E (cc_domains c);
     case cooling of
       None \<Rightarrow> ret None
     | Some (name, until) \<Rightarrow> do {
         r \<leftarrow> fail_pass E st (''identifier '' @ name @
           '' is in its authorization-failure cooldown until '' @ e_format_rfc3339 E until @
           ''; not placing an order'');
         ret (Some r) } }"

definition refuse_while_ca_locked_out :: "env \<Rightarrow> cert_config \<Rightarrow> cert_state \<Rightarrow> outcome option pass" where
  "refuse_while_ca_locked_out E c st = do {
     b \<leftarrow> blocked_by_recorded_deadline E c;
     case b of
       None \<Rightarrow> ret None
     | Some (until, l, scope) \<Rightarrow> do {
         r \<leftarrow> fail_pass E st
           (if l_name l = l_name consecutive_authz_failures
            then ''the CA has paused identifier '' @ scope @
              '' (too many consecutive failed authorizations) and '' @
              ''names no instant; no order is placed before '' @ e_format_rfc3339 E until @
              '', our floor from the published '' @
              ''one-refill-per-day rate. Clear the pause in the CA's self-service portal: '' @
              ''https://letsencrypt.org/docs/rate-limits/#consecutive-authorization-failures-per-identifier-per-account''
            else ''limit '' @ l_name l @ scope_label scope @ '' is blocked until '' @
              e_format_rfc3339 E until @ '' according to the CA's own Retry-After; not placing an order'');
         ret (Some r) } }"

section \<open>Spending\<close>

definition spend_new_order :: "env \<Rightarrow> unit pass" where
  "spend_new_order E = quota_spend E new_orders_per_account []"

definition spend_authz_failure :: "env \<Rightarrow> string \<Rightarrow> unit pass" where
  "spend_authz_failure E ident = quota_spend E authz_failures_per_identifier (bare_identifier_scope ident)"

section \<open>A refusal that names a deadline stops every further order until then\<close>

text \<open>
  The invariant: the bucket of one limit and scope holds a deadline no earlier than \<open>u\<close>. Every
  operation of the tracker keeps it, so every pass does.
\<close>

interpretation gate: db_inv "\<lambda>d. rows_ok d \<and> u \<le> sb.deadline n s d" for u n s .

lemma gate_note [inv]: "inv (gate.I u n s) (quota_note_deadline E l s' t)"
proof (rule gate.quota_note_deadline_db)
  fix d
  assume "rows_ok d \<and> u \<le> sb.deadline n s d"
  then show "rows_ok (snd (note_deadline update_rate_bucket l s' t d))
      \<and> u \<le> sb.deadline n s (snd (note_deadline update_rate_bucket l s' t d))"
    using sb.note_ok [of d l s' t] sb.note_deadline_grows [of d n s l s' t] by linarith
qed

lemma gate_retry [inv]: "inv (gate.I u n s) (quota_note_retry_after E l s' msg)"
  by (auto simp: quota_note_retry_after_def intro!: inv)

lemma gate_refused_limit [inv]: "inv (gate.I u n s) (note_refused_limit E c msg h l)"
  by (auto simp: note_refused_limit_def intro!: inv gate.ask_db split: option.split)

lemma gate_refused_limits [inv]: "inv (gate.I u n s) (note_refused_limits E c msg h ls)"
  by (induction ls) (auto intro!: inv)

lemma run_quota_note_deadline:
  assumes "\<not> e_fault E (w_tick w)" and "t \<noteq> zero_time"
  shows "run_state (quota_note_deadline E l s t) w =
    (Some t, w\<lparr>w_tick := Suc (w_tick w), w_db := snd (note_deadline update_rate_bucket l s t (w_db w))\<rparr>)"
  using assms note_deadline_succeeds [OF assms(2), of l s "w_db w"]
  by (cases "note_deadline update_rate_bucket l s t (w_db w)") (simp add: quota_note_deadline_def)

lemma quota_note_reaches:
  assumes "\<And>k. \<not> e_fault E k" and "ns_second \<le> u" and "u \<le> t" and "rows_ok (w_db w)"
    and "run_state (quota_note_deadline E l s t) w = (r, w')"
  shows "r = Some t \<and> rows_ok (w_db w') \<and> stored u \<le> sb.deadline (l_name l) s (w_db w')"
proof -
  have t: "ns_second \<le> t" "t \<noteq> zero_time" using assms(2,3) by (auto simp: zero_time_def ns_defs)
  have r: "r = Some t" "w_db w' = snd (note_deadline update_rate_bucket l s t (w_db w))"
    using assms(1,5) run_quota_note_deadline [OF _ t(2), of E w l s] by auto
  have "note_deadline update_rate_bucket l s t (w_db w) = (Some t, w_db w')"
    using note_deadline_succeeds [OF t(2), of l s "w_db w"] r(2) by (metis prod.collapse)
  then show ?thesis
    using r sb.noted_reaches [OF assms(4) t(1) assms(3,2)] sb.note_ok [OF assms(4)] by simp
qed

text \<open>The instant a refusal stands for: the one in its text, else the header's, else the pause's floor.\<close>

definition refusal_names :: "env \<Rightarrow> string \<Rightarrow> instant option \<Rightarrow> limit \<Rightarrow> instant \<Rightarrow> bool" where
  "refusal_names E msg header l t \<longleftrightarrow>
     parse_retry_after (e_timelib E) msg = Some t \<or>
     parse_retry_after (e_timelib E) msg = None \<and> header = Some t \<or>
     l_spent_by_ca l \<and> (\<forall>k. t \<le> e_now E k + l_refill l)"

lemma later_of_ge: "t \<le> later_of t x" "x = Some u \<Longrightarrow> u \<le> later_of t x"
  by (auto simp: later_of_def split: option.splits)

lemma note_refused_limit_reaches:
  assumes f: "\<And>k. \<not> e_fault E k" and u: "ns_second \<le> u" and ok: "rows_ok (w_db w)"
    and nm: "refusal_names E msg header l u"
    and r: "run_state (note_refused_limit E c msg header l) w = (r, w')"
    and sc: "scope = new_order_refusal_scope (e_golib E) l c msg"
  shows "r \<and> rows_ok (w_db w') \<and> stored u \<le> sb.deadline (l_name l) scope (w_db w')"
proof -
  obtain named w1 where n: "run_state (quota_note_retry_after E l scope msg) w = (named, w1)" by fastforce
  have n1: "named = Some t \<and> rows_ok (w_db w1) \<and> stored t \<le> sb.deadline (l_name l) scope (w_db w1)"
    if "parse_retry_after (e_timelib E) msg = Some t" "ns_second \<le> t" for t
    using n that quota_note_reaches [OF f that(2) order_refl ok] by (simp add: quota_note_retry_after_def)
  have n0: "named = None \<and> w1 = w" if "parse_retry_after (e_timelib E) msg = None"
    using n that by (simp add: quota_note_retry_after_def)
  have ok1: "rows_ok (w_db w1)"
    using inv_run [OF gate_retry [of "sb.deadline [] [] (w_db w)" "[]" "[]"] _ n] ok by simp
  show ?thesis
  proof (cases "l_spent_by_ca l")
    case True
    define t where "t = later_of (later_of (e_now E (w_tick w1) + l_refill l) named) header"
    have ut: "u \<le> t"
      using nm n1 [of u] n0 u later_of_ge
      by (auto simp: refusal_names_def t_def) (meson order_trans later_of_ge)+
    let ?w2 = "w1\<lparr>w_tick := Suc (w_tick w1)\<rparr>"
    obtain d w3 where d: "run_state (quota_note_deadline E l scope t) ?w2 = (d, w3)" by fastforce
    have "r = (d \<noteq> None)" "w' = w3"
      using r n d True by (auto simp: note_refused_limit_def Let_def sc t_def)
    then show ?thesis using quota_note_reaches [OF f u ut _ d] ok1 by simp
  next
    case False
    show ?thesis
    proof (cases "parse_retry_after (e_timelib E) msg")
      case (Some t)
      then have "t = u" using nm False by (simp add: refusal_names_def)
      then show ?thesis using Some n1 u r n False by (auto simp: note_refused_limit_def Let_def sc)
    next
      case None
      then have h: "header = Some u" using nm False by (simp add: refusal_names_def)
      obtain d w3 where d: "run_state (quota_note_deadline E l scope u) w = (d, w3)" by fastforce
      have "r" "w' = w3"
        using r n n0 [OF None] d False h by (auto simp: note_refused_limit_def Let_def sc)
      then show ?thesis using quota_note_reaches [OF f u order_refl ok d] by simp
    qed
  qed
qed

lemma note_refused_limits_reaches:
  assumes f: "\<And>k. \<not> e_fault E k" and u: "ns_second \<le> u" and nm: "refusal_names E msg header l u"
    and sc: "scope = new_order_refusal_scope (e_golib E) l c msg"
  shows "rows_ok (w_db w) \<Longrightarrow> l \<in> set ls \<Longrightarrow> run_state (note_refused_limits E c msg header ls) w = (r, w') \<Longrightarrow>
    r \<and> rows_ok (w_db w') \<and> stored u \<le> sb.deadline (l_name l) scope (w_db w')"
proof (induction ls arbitrary: w r)
  case (Cons x xs)
  obtain b w1 where b: "run_state (note_refused_limit E c msg header x) w = (b, w1)" by fastforce
  obtain bs w2 where bs: "run_state (note_refused_limits E c msg header xs) w1 = (bs, w2)" by fastforce
  have rw: "r = (b \<or> bs)" "w' = w2" using Cons.prems(3) b bs by auto
  show ?case
  proof (cases "x = l")
    case True
    have "b \<and> rows_ok (w_db w1) \<and> stored u \<le> sb.deadline (l_name l) scope (w_db w1)"
      using note_refused_limit_reaches [OF f u Cons.prems(1) nm _ sc] b True by simp
    then show ?thesis
      using rw inv_run [OF gate_refused_limits [of "stored u" "l_name l" scope] _ bs] by simp
  next
    case False
    have "rows_ok (w_db w1)"
      using inv_run [OF gate_refused_limit [of "sb.deadline [] [] (w_db w)" "[]" "[]"] _ b] Cons.prems(1) by simp
    then show ?thesis using Cons.IH [of w1 bs] bs Cons.prems(2) False rw by simp
  qed
qed simp

lemma run_quota_blocked_until:
  "\<not> e_fault E (w_tick w) \<Longrightarrow> run_state (quota_blocked_until E l s) w =
     (blocked_until get_bucket (e_now E (Suc (w_tick w))) l s (w_db w), w\<lparr>w_tick := Suc (Suc (w_tick w))\<rparr>)"
  by (simp add: quota_blocked_until_def)

lemma recorded_deadline_gates:
  assumes "\<And>k. \<not> e_fault E k" and "(l, scope) \<in> set (recorded_checks (e_golib E) c)"
    and "scope \<noteq> [] \<or> l_scope l = ''account''"
    and "zero_time < u" and "u \<le> sb.deadline (l_name l) scope (w_db w)" and "\<And>k. e_now E k < u"
  shows "fst (run_state (blocked_by_recorded_deadline E c) w) \<noteq> None"
  unfolding blocked_by_recorded_deadline_def
proof (rule find_first_some [where P = "\<lambda>v. w_db v = w_db w" and x = "(l, scope)"])
  fix x and v :: world
  assume "w_db v = w_db w"
  then show "w_db (snd (run_state (check_recorded E x) v)) = w_db w"
    by (cases x) (simp add: check_recorded_def run_quota_blocked_until assms(1))
next
  fix v :: world
  assume "w_db v = w_db w"
  then have "blocked_until get_bucket (e_now E (Suc (w_tick v))) l scope (w_db v) \<noteq> None"
    using sb.deadline_blocks [OF assms(4), of l scope "w_db v"] assms(5,6) by simp
  then show "fst (run_state (check_recorded E (l, scope)) v) \<noteq> None"
    using assms(3) by (auto simp: check_recorded_def run_quota_blocked_until assms(1))
qed (use assms(2) in simp_all)


definition sample_refusal :: ca_error where
  "sample_refusal = \<lparr>ce_text = ''urn:ietf:params:acme:error:rateLimited :: too many new orders (300) from this account'',
     ce_retry_after = ''60'', ce_problem = True, ce_type = ''urn:ietf:params:acme:error:rateLimited'',
     ce_no_ari = False\<rparr>"


end
