(* ===== verification/Order.thy ===== *)
theory Order
  imports Txt Refusal
begin

text \<open>
  The bookkeeping of an order (\<open>manager_done.go\<close>, \<open>flow_order.go\<close>, \<open>orphan.go\<close>): how its URLs and
  status are persisted, how it is discarded together with the records it left in DNS, which uploaded
  certificate has to go on the reclaim list when it is, and the polling loop that waits for a status.

  The loop has no bound of its own but the clock: it takes fuel, and \<open>None\<close> is \<open>still waiting\<close>. The
  status in an error text is quoted without escapes, which no ACME status needs.
\<close>

definition default_order_ttl :: duration where "default_order_ttl = 7 * 24 * ns_hour"
definition order_wait_timeout :: duration where "order_wait_timeout = 2 * ns_minute"

definition parse_order_expires :: "env \<Rightarrow> string \<Rightarrow> instant \<Rightarrow> instant" where
  "parse_order_expires E raw now =
     (if raw = [] then now + default_order_ttl
      else case e_parse_rfc3339 E raw of Some t \<Rightarrow> t | None \<Rightarrow> now + default_order_ttl)"

definition order_matches_config :: "acme_order \<Rightarrow> cert_config \<Rightarrow> bool" where
  "order_matches_config r c \<longleftrightarrow> o_identifiers r = [] \<or> o_identifiers r = domain_key (cc_domains c)"

definition persist_order :: "env \<Rightarrow> acme_order \<Rightarrow> order_reply \<Rightarrow> (string + acme_order) pass" where
  "persist_order E r reply =
     (let r' = r\<lparr>o_status := e_status reply,
          o_finalize_url := (if e_finalize reply \<noteq> [] then e_finalize reply else o_finalize_url r),
          o_cert_url := (if e_certificate reply \<noteq> [] then e_certificate reply else o_cert_url r)\<rparr>
      in do {
        p \<leftarrow> store_write E (\<lambda>_. put_order r');
        ret (case p of None \<Rightarrow> Inr r' | Some e \<Rightarrow> Inl (''update the order state: '' @ e)) })"

section \<open>Discarding an order\<close>

definition orphan_to_record :: "env \<Rightarrow> string \<Rightarrow> string \<Rightarrow> string pass" where
  "orphan_to_record E name promoted = do {
     r \<leftarrow> store_read E (get_order name);
     case r of
       Inl e \<Rightarrow> ret []
     | Inr None \<Rightarrow> ret []
     | Inr (Some r) \<Rightarrow>
         if o_deployment_cert_id r = [] then ret []
         else do {
           live \<leftarrow> (if promoted \<noteq> [] then ret promoted
             else do {
               st \<leftarrow> store_read E (get_cert name);
               ret (case st of Inr (Some st) \<Rightarrow> c_deployed_cert_id st | _ \<Rightarrow> []) });
           ret (if o_deployment_cert_id r = live then [] else o_deployment_cert_id r) } }"

definition orphan_ops :: "string \<Rightarrow> string \<Rightarrow> tx_op list" where
  "orphan_ops name orphan = (if orphan \<noteq> [] then [TxAddRetired orphan name None None] else [])"

definition discard_order :: "env \<Rightarrow> string \<Rightarrow> string option pass" where
  "discard_order E name = do {
     orphan \<leftarrow> orphan_to_record E name [];
     r \<leftarrow> store_read E (get_order name);
     (let url = (case r of Inr (Some r) \<Rightarrow> o_order_url r | _ \<Rightarrow> [])
      in do {
        cleanup_orphan_txt E name;
        e \<leftarrow> store_tx E (orphan_ops name orphan @ [TxDeleteOrder name]);
        case e of
          Some e \<Rightarrow> ret (Some e)
        | None \<Rightarrow> do { clear_order_fetch_failures url; ret None } }) }"

definition cleanup_orphan :: "env \<Rightarrow> string \<Rightarrow> string option pass" where
  "cleanup_orphan E name = discard_order E name"

section \<open>Waiting for a status\<close>

definition quoted :: "string \<Rightarrow> string" where
  "quoted s = dquote # s @ [dquote]"

fun await_order :: "env \<Rightarrow> nat \<Rightarrow> string \<Rightarrow> string \<Rightarrow> duration \<Rightarrow> instant \<Rightarrow> (string + order_reply) option pass" where
  "await_order E 0 url want timeout deadline = ret None"
| "await_order E (Suc n) url want timeout deadline = do {
     r \<leftarrow> perform (GetOrder url) (e_get_order E);
     case r of
       Inl e \<Rightarrow> ret (Some (Inl (''poll order: '' @ ce_text e)))
     | Inr reply \<Rightarrow>
         if e_status reply = want \<or> e_status reply = ''valid'' then ret (Some (Inr reply))
         else if e_status reply = ''invalid'' then
           ret (Some (Inl (''order became invalid: '' @ e_error reply)))
         else do {
           now \<leftarrow> clock E;
           if now > deadline then
             ret (Some (Inl (''the order did not reach '' @ quoted want @ '' within '' @
               duration_string timeout @ '' (currently '' @ quoted (e_status reply) @ '')'')))
           else do {
             stopped \<leftarrow> cancelled E;
             if stopped then ret (Some (Inl ''context canceled''))
             else await_order E n url want timeout deadline } } }"

definition await_order_status ::
  "env \<Rightarrow> nat \<Rightarrow> string \<Rightarrow> string \<Rightarrow> duration \<Rightarrow> (string + order_reply) option pass" where
  "await_order_status E n url want timeout = do {
     now \<leftarrow> clock E;
     await_order E n url want timeout (now + timeout) }"

section \<open>The loop ends\<close>

text \<open>
  A clock that moves on by at least \<open>p\<close> over any three effects: a round of a polling loop has at
  least three, one of which is the wait of the poll interval.
\<close>

definition polling_clock :: "env \<Rightarrow> duration \<Rightarrow> bool" where
  "polling_clock E p \<longleftrightarrow> 0 < p \<and> (\<forall>k. e_now E k \<le> e_now E (Suc k)) \<and> (\<forall>k. e_now E k + p \<le> e_now E (k + 3))"

lemma polling_clock_mono: "polling_clock E p \<Longrightarrow> k \<le> m \<Longrightarrow> e_now E k \<le> e_now E m"
  unfolding polling_clock_def by (metis lift_Suc_mono_le)

lemma await_order_ends:
  assumes "polling_clock E p"
  shows "deadline < e_now E (w_tick w) + int n * p \<Longrightarrow>
    fst (run_state (await_order E (Suc n) url want timeout deadline) w) \<noteq> None"
proof (induction n arbitrary: w)
  case 0
  have "e_now E (w_tick w) \<le> e_now E (Suc (w_tick w))" using polling_clock_mono [OF assms] by simp
  then show ?case using 0 by (auto split: sum.split)
next
  case (Suc n)
  let ?k = "w_tick w"
  have "e_now E ?k + p \<le> e_now E (?k + 3)" using assms by (simp add: polling_clock_def)
  then have "deadline < e_now E (?k + 3) + int n * p"
    using Suc.prems by (simp add: algebra_simps)
  then show ?case
    using Suc.IH [of "w\<lparr>w_calls := GetOrder url # w_calls w, w_tick := ?k + 3\<rparr>"]
    by (simp split: sum.split add: numeral_3_eq_3 del: await_order.simps add: await_order.simps(2) [of E "Suc n"])
qed

text \<open>With the poll interval \<open>p\<close>, \<open>timeout / p + 2\<close> rounds are enough.\<close>

lemma await_order_status_ends:
  assumes "polling_clock E p" and "timeout < int n * p"
  shows "answers (await_order_status E (Suc n) url want timeout) (\<lambda>r. r \<noteq> None)"
proof -
  have "fst (run_state (await_order E (Suc n) url want timeout (e_now E k + timeout)) (w\<lparr>w_tick := Suc k\<rparr>)) \<noteq> None"
    for k and w :: world
    using await_order_ends [OF assms(1), of "e_now E k + timeout" "w\<lparr>w_tick := Suc k\<rparr>" n url want timeout]
      assms(2) polling_clock_mono [OF assms(1), of k "Suc k"] by (simp del: await_order.simps)
  then show ?thesis by (simp add: answers_def await_order_status_def del: await_order.simps)
qed

end
