(* ===== verification/Authz.thy ===== *)
theory Authz
  imports Order
begin

text \<open>
  Solving an order's challenges (\<open>flow_authz.go\<close>, \<open>pickDNS01\<close> and \<open>authzError\<close> in
  \<open>manager_done.go\<close>): the rows of the order's authorizations, the scan that writes every TXT record
  and books every invalid identifier, the one wait for propagation, the accepted challenges, and the
  poll until every authorization is valid.

  The code passes pointers to the rows; here a row is found again by its authorization URL, so
  \<open>settle\<close> is the effect of an update through the pointer. \<open>e_targeted\<close> is lego's
  \<open>GetTargetedDomain\<close>: the identifier as the operator wrote it. The concurrent fetches of
  \<open>fetchAuthzs\<close> write only their own slot and are made here in the order of the rows.
\<close>

definition targeted_domain :: "env \<Rightarrow> authz_reply \<Rightarrow> string" where
  "targeted_domain E cur = e_targeted E (av_identifier cur) (av_wildcard cur)"

fun authz_error_of :: "challenge_reply list \<Rightarrow> string" where
  "authz_error_of [] = ''the CA gave no specific reason''"
| "authz_error_of (ch # chs) = (case ch_error ch of Some detail \<Rightarrow> detail | None \<Rightarrow> authz_error_of chs)"

definition authz_error :: "authz_reply \<Rightarrow> string" where
  "authz_error cur = authz_error_of (av_challenges cur)"

definition pick_dns01 :: "authz_reply \<Rightarrow> string + challenge_reply" where
  "pick_dns01 cur = (case find (\<lambda>ch. ch_type ch = ''dns-01'') (av_challenges cur) of
       Some ch \<Rightarrow> Inr ch
     | None \<Rightarrow> Inl (''the authorization for identifier '' @ av_identifier cur @
         '' offers no dns-01 challenge (wildcards can only use DNS-01)''))"

section \<open>Reading the authorizations\<close>

definition fetch_authz :: "env \<Rightarrow> authorization \<Rightarrow> (string + authz_reply) pass" where
  "fetch_authz E a = do {
     stopped \<leftarrow> cancelled E;
     if stopped then ret (Inl ''context canceled'')
     else do {
       r \<leftarrow> perform (GetAuthz (a_authz_url a)) (e_get_authz E);
       ret (case r of Inl e \<Rightarrow> Inl (ce_text e) | Inr cur \<Rightarrow> Inr cur) } }"

fun all_fetched :: "authorization list \<Rightarrow> (string + authz_reply) list \<Rightarrow> string + authz_reply list" where
  "all_fetched (a # as) (Inl e # rs) = Inl (''get authorization '' @ a_authz_url a @ '': '' @ e)"
| "all_fetched (a # as) (Inr cur # rs) =
     (case all_fetched as rs of Inl e \<Rightarrow> Inl e | Inr curs \<Rightarrow> Inr (cur # curs))"
| "all_fetched as rs = Inr []"

definition fetch_authzs :: "env \<Rightarrow> authorization list \<Rightarrow> (string + authz_reply list) pass" where
  "fetch_authzs E rows = do { rs \<leftarrow> map_pass (fetch_authz E) rows; ret (all_fetched rows rs) }"

definition new_authz :: "string \<Rightarrow> string \<Rightarrow> authorization" where
  "new_authz name url = \<lparr>a_cert_name = name, a_authz_url = url, a_identifier = [], a_status = ''pending'',
     a_challenge_url = [], a_challenge_token = [], a_txt_name = [], a_txt_value = [], a_presented = False,
     a_challenge_sent = False, a_prepared_at = zero_time, a_reclaim_attempts = 0, a_reclaim_error = [],
     a_stuck_since = zero_time\<rparr>"

fun load_rows :: "env \<Rightarrow> string \<Rightarrow> (string \<Rightarrow> authorization option) \<Rightarrow> string list \<Rightarrow> (string + authorization list) pass" where
  "load_rows E name by_url [] = ret (Inr [])"
| "load_rows E name by_url (u # us) =
     (case by_url u of
        Some a \<Rightarrow> do { r \<leftarrow> load_rows E name by_url us; ret (map_sum id ((#) a) r) }
      | None \<Rightarrow> do {
          e \<leftarrow> store_write E (\<lambda>_. put_authorization (new_authz name u));
          case e of
            Some e \<Rightarrow> ret (Inl e)
          | None \<Rightarrow> do { r \<leftarrow> load_rows E name by_url us; ret (map_sum id ((#) (new_authz name u)) r) } })"

definition load_authorizations :: "env \<Rightarrow> string \<Rightarrow> string list \<Rightarrow> (string + authorization list) pass" where
  "load_authorizations E name urls = do {
     existing \<leftarrow> store_read E (list_authorizations name);
     case existing of
       Inl e \<Rightarrow> ret (Inl e)
     | Inr rows \<Rightarrow> load_rows E name (map_of (rev (map (\<lambda>a. (a_authz_url a, a)) rows))) urls }"

section \<open>Presenting one challenge\<close>

text \<open>
  A row pointed at another challenge has not had that challenge accepted, and the lease of the value
  it named before is released.
\<close>

definition refresh_challenge :: "env \<Rightarrow> authorization \<Rightarrow> challenge_reply \<Rightarrow> authorization pass" where
  "refresh_challenge E a ch = do {
     (if a_challenge_token a \<noteq> ch_token ch then release_stale_lease E (a_txt_name a) (a_txt_value a)
      else ret ());
     now \<leftarrow> clock E;
     ret (a\<lparr>a_challenge_sent := (a_challenge_sent a \<and> a_challenge_token a = ch_token ch),
            a_prepared_at := now\<rparr>) }"

text \<open>
  The age is durable before the DNS write; the token only where the row names no record yet, since
  the stored token is the only clue to the record of an earlier visit.
\<close>

definition prepare_challenge :: "env \<Rightarrow> authorization \<Rightarrow> challenge_reply \<Rightarrow> (string + authorization) pass" where
  "prepare_challenge E a ch = do {
     aged \<leftarrow> refresh_challenge E a ch;
     (let named = aged\<lparr>a_challenge_url := ch_url ch, a_challenge_token := ch_token ch\<rparr>
      in if a_challenge_token a = [] then do {
           e \<leftarrow> store_write E (\<lambda>_. put_authorization named);
           ret (case e of None \<Rightarrow> Inr named
             | Some e \<Rightarrow> Inl (''persist a new challenge ('' @ a_identifier a @ ''): '' @ e)) }
         else do {
           e \<leftarrow> store_write E (\<lambda>_. put_authorization aged);
           ret (case e of None \<Rightarrow> Inr named
             | Some e \<Rightarrow> Inl (''persist the age of a new challenge ('' @ a_identifier a @ ''): '' @ e)) }) }"

definition presented_at :: "authorization \<Rightarrow> string \<times> string \<Rightarrow> authorization" where
  "presented_at a rc = a\<lparr>a_txt_name := fst rc, a_txt_value := snd rc, a_presented := True\<rparr>"

definition write_txt :: "env \<Rightarrow> authorization \<Rightarrow> string \<Rightarrow> (string + authorization) pass" where
  "write_txt E a ka = do {
     r \<leftarrow> present E (a_identifier a) ka;
     ret (case r of Inl e \<Rightarrow> Inl (''present TXT ('' @ a_identifier a @ ''): '' @ e)
       | Inr rc \<Rightarrow> Inr (presented_at a rc)) }"

text \<open>A revisited row whose record is found up adopts it instead of writing a duplicate.\<close>

definition adopt_or_write :: "env \<Rightarrow> bool \<Rightarrow> authorization \<Rightarrow> string \<Rightarrow> (string + authorization) pass" where
  "adopt_or_write E first_visit a ka =
     (if first_visit then write_txt E a ka
      else do {
        r \<leftarrow> lookup_txt E (a_identifier a) ka;
        if r = Inr True then ret (Inr (presented_at a (e_challenge_info E (a_identifier a) ka)))
        else write_txt E a ka })"

definition present_challenge :: "env \<Rightarrow> authorization \<Rightarrow> authz_reply \<Rightarrow> (string + authorization) pass" where
  "present_challenge E a cur =
     (case pick_dns01 cur of
        Inl e \<Rightarrow> ret (Inl e)
      | Inr ch \<Rightarrow>
          (case e_key_auth E (ch_token ch) of
             None \<Rightarrow> ret (Inl (''compute the key authorization: '' @ e_lib_error E ''key authorization''))
           | Some ka \<Rightarrow> do {
               p \<leftarrow> prepare_challenge E a ch;
               case p of
                 Inl e \<Rightarrow> ret (Inl e)
               | Inr named \<Rightarrow> adopt_or_write E (a_challenge_token a = []) named ka }))"

text \<open>A record whose row could not be written is taken out again.\<close>

definition persist_presented :: "env \<Rightarrow> authorization \<Rightarrow> string option pass" where
  "persist_presented E a = do {
     e \<leftarrow> store_write E (\<lambda>_. put_authorization a);
     case e of
       None \<Rightarrow> ret None
     | Some e \<Rightarrow> do {
         (if a_presented a then do { remove_authz_txt E a; ret () } else ret ());
         ret (Some (''persist a presented challenge ('' @ a_identifier a @ ''): '' @ e)) } }"

definition solve_pending :: "env \<Rightarrow> authorization \<Rightarrow> authz_reply \<Rightarrow> (string + authorization) pass" where
  "solve_pending E a cur = do {
     r \<leftarrow> (if a_presented a then ret (Inr a) else present_challenge E a cur);
     case r of
       Inl e \<Rightarrow> ret (Inl e)
     | Inr a' \<Rightarrow> do {
         e \<leftarrow> persist_presented E a';
         ret (case e of None \<Rightarrow> Inr a' | Some e \<Rightarrow> Inl e) } }"

section \<open>The scan of the authorizations\<close>

definition book_invalid :: "env \<Rightarrow> string \<Rightarrow> authz_reply \<Rightarrow> unit pass" where
  "book_invalid E name cur = do {
     note_identifier_failure E (targeted_domain E cur);
     spend_authz_failure E (targeted_domain E cur);
     now \<leftarrow> clock E;
     store_write E (\<lambda>_. record_identifier_failure name (targeted_domain E cur) (authz_error cur) now);
     ret () }"

record solving =
  sv_rows :: "authorization list"
  sv_pending :: "(authorization \<times> string) list"
  sv_resumed :: "authorization list"
  sv_records :: "(string \<times> string) list"
  sv_error :: "string option"

definition empty_solving :: solving where
  "empty_solving = \<lparr>sv_rows = [], sv_pending = [], sv_resumed = [], sv_records = [], sv_error = None\<rparr>"

definition closed_statuses :: "string list" where
  "closed_statuses = [''deactivated'', ''expired'', ''revoked'']"

text \<open>\<open>Inl e\<close>: the pass fails with \<open>e\<close>.\<close>

definition scan_row :: "env \<Rightarrow> string \<Rightarrow> solving \<Rightarrow> authorization \<Rightarrow> authz_reply \<Rightarrow> (string + solving) pass" where
  "scan_row E name sv a0 cur =
     (let a = a0\<lparr>a_status := av_status cur, a_identifier := av_identifier cur\<rparr>;
          targeted = targeted_domain E cur;
          seen = sv\<lparr>sv_rows := sv_rows sv @ [a]\<rparr>
      in if av_status cur = ''valid'' then do {
           clear_identifier_cooldown targeted;
           e \<leftarrow> store_write E (\<lambda>_. put_authorization a);
           ret (case e of None \<Rightarrow> Inr seen
             | Some e \<Rightarrow> Inl (''persist a validated authorization ('' @ a_identifier a @ ''): '' @ e)) }
         else if av_status cur = ''invalid'' then do {
           store_write E (\<lambda>_. put_authorization a);
           book_invalid E name cur;
           ret (Inr (seen\<lparr>sv_error := (case sv_error sv of Some e \<Rightarrow> Some e
             | None \<Rightarrow> Some (''the authorization for identifier '' @ targeted @ '' is invalid: '' @
                 authz_error cur))\<rparr>)) }
         else if av_status cur \<in> set closed_statuses then do {
           store_write E (\<lambda>_. put_authorization a);
           d \<leftarrow> discard_order E name;
           ret (Inl (case d of
               Some e \<Rightarrow> ''the authorization for '' @ targeted @ '' is '' @ av_status cur @
                 '' and discarding the order failed: '' @ e
             | None \<Rightarrow> ''the authorization for identifier '' @ targeted @ '' is '' @ av_status cur @
                 '', which cannot be satisfied; a fresh order will be placed on the next pass'')) }
         else do {
           r \<leftarrow> solve_pending E a cur;
           ret (case r of
               Inl e \<Rightarrow> Inl e
             | Inr a' \<Rightarrow> Inr (sv\<lparr>sv_rows := sv_rows sv @ [a'], sv_pending := sv_pending sv @ [(a', targeted)],
                 sv_resumed := (if a_presented a then sv_resumed sv @ [a'] else sv_resumed sv),
                 sv_records := sv_records sv @ [(a_txt_name a', a_txt_value a')]\<rparr>)) })"

fun scan_rows :: "env \<Rightarrow> string \<Rightarrow> solving \<Rightarrow> (authorization \<times> authz_reply) list \<Rightarrow> (string + solving) pass" where
  "scan_rows E name sv [] = ret (Inr sv)"
| "scan_rows E name sv ((a, cur) # rest) = do {
     r \<leftarrow> scan_row E name sv a cur;
     case r of Inl e \<Rightarrow> ret (Inl e) | Inr sv' \<Rightarrow> scan_rows E name sv' rest }"

section \<open>Accepting the challenges\<close>

definition mark_resumed_unpresented :: "env \<Rightarrow> authorization list \<Rightarrow> unit pass" where
  "mark_resumed_unpresented E rows = for_each rows (\<lambda>a. do {
     store_write E (\<lambda>_. put_authorization (a\<lparr>a_presented := False\<rparr>)); ret () })"

definition accept_challenge :: "env \<Rightarrow> authorization \<Rightarrow> string \<Rightarrow> (string + authorization) pass" where
  "accept_challenge E a targeted =
     (if a_challenge_sent a then ret (Inr a)
      else do {
        note_identifier_failure E targeted;
        r \<leftarrow> perform (AcceptChallenge (a_challenge_url a)) (e_accept E);
        case r of
          Some err \<Rightarrow> do {
            (if ce_problem err then ret () else clear_identifier_cooldown targeted);
            ret (Inl (''trigger validation ('' @ a_identifier a @ ''): '' @ ce_text err)) }
        | None \<Rightarrow> do {
            e \<leftarrow> store_write E (\<lambda>_. put_authorization (a\<lparr>a_challenge_sent := True\<rparr>));
            ret (case e of None \<Rightarrow> Inr (a\<lparr>a_challenge_sent := True\<rparr>)
              | Some e \<Rightarrow> Inl (''persist that a challenge was accepted ('' @ a_identifier a @ ''): '' @ e)) } })"

fun accept_challenges :: "env \<Rightarrow> (authorization \<times> string) list \<Rightarrow> (string + authorization list) pass" where
  "accept_challenges E [] = ret (Inr [])"
| "accept_challenges E ((a, targeted) # rest) = do {
     r \<leftarrow> accept_challenge E a targeted;
     case r of
       Inl e \<Rightarrow> ret (Inl e)
     | Inr a' \<Rightarrow> do { rs \<leftarrow> accept_challenges E rest; ret (map_sum id ((#) a') rs) } }"

section \<open>Polling until every authorization is valid\<close>

definition poll_row :: "env \<Rightarrow> authorization \<Rightarrow> authz_reply \<Rightarrow> (string + authorization \<times> string option) pass" where
  "poll_row E a cur = do {
     (if av_status cur = ''valid'' then clear_identifier_cooldown (targeted_domain E cur) else ret ());
     perr \<leftarrow> (if a_status a \<noteq> av_status cur
       then store_write E (\<lambda>_. put_authorization (a\<lparr>a_status := av_status cur\<rparr>)) else ret None);
     case perr of
       Some e \<Rightarrow> ret (Inl e)
     | None \<Rightarrow>
         if av_status cur = ''invalid'' then do {
           book_invalid E (a_cert_name a) cur;
           ret (Inr (a\<lparr>a_status := av_status cur\<rparr>, Some (''validation failed for identifier '' @
             targeted_domain E cur @ '': '' @ authz_error cur))) }
         else ret (Inr (a\<lparr>a_status := av_status cur\<rparr>, None)) }"

fun poll_rows :: "env \<Rightarrow> (authorization \<times> authz_reply) list \<Rightarrow> (string + (authorization \<times> string option) list) pass" where
  "poll_rows E [] = ret (Inr [])"
| "poll_rows E ((a, cur) # rest) = do {
     r \<leftarrow> poll_row E a cur;
     case r of
       Inl e \<Rightarrow> ret (Inl e)
     | Inr p \<Rightarrow> do { rs \<leftarrow> poll_rows E rest; ret (map_sum id ((#) p) rs) } }"

text \<open>What the other holders of the row pointers see.\<close>

definition settle :: "authorization list \<Rightarrow> authorization list \<Rightarrow> authorization list" where
  "settle polled rows = map (\<lambda>r. case find (\<lambda>p. a_authz_url p = a_authz_url r) polled of
     Some p \<Rightarrow> p | None \<Rightarrow> r) rows"

fun first_some :: "'a option list \<Rightarrow> 'a option" where
  "first_some [] = None"
| "first_some (Some x # xs) = Some x"
| "first_some (None # xs) = first_some xs"

definition validation_failed :: "env \<Rightarrow> authorization list \<Rightarrow> string \<Rightarrow> string pass" where
  "validation_failed E rows err = do {
     d \<leftarrow> discard_order E (case rows of [] \<Rightarrow> [] | a # _ \<Rightarrow> a_cert_name a);
     ret (case d of
         Some e \<Rightarrow> err @ '' (and discarding the order failed: '' @ e @ '')''
       | None \<Rightarrow> err @ ''; the order is discarded so the next pass places a fresh one'') }"

fun await_authz ::
  "env \<Rightarrow> nat \<Rightarrow> authorization list \<Rightarrow> authorization list \<Rightarrow> instant \<Rightarrow> (string + authorization list) option pass" where
  "await_authz E 0 rows pending deadline = ret None"
| "await_authz E (Suc n) rows pending deadline = do {
     current \<leftarrow> fetch_authzs E pending;
     case current of
       Inl e \<Rightarrow> ret (Some (Inl e))
     | Inr curs \<Rightarrow> do {
         r \<leftarrow> poll_rows E (zip pending curs);
         case r of
           Inl e \<Rightarrow> ret (Some (Inl e))
         | Inr polled \<Rightarrow>
             (let rows' = settle (map fst polled) rows;
                  pending' = filter (\<lambda>a. a_status a \<notin> {''valid'', ''invalid''}) (map fst polled)
              in case first_some (map snd polled) of
                   Some err \<Rightarrow> do { e \<leftarrow> validation_failed E rows' err; ret (Some (Inl e)) }
                 | None \<Rightarrow>
                     if pending' = [] then ret (Some (Inr rows'))
                     else do {
                       now \<leftarrow> clock E;
                       if now > deadline then
                         ret (Some (Inl (''authorizations did not complete within '' @
                           duration_string (e_authz_wait E) @ ''; keeping the order for the next pass'')))
                       else do {
                         stopped \<leftarrow> cancelled E;
                         if stopped then ret (Some (Inl ''context canceled''))
                         else await_authz E n rows' pending' deadline } }) } }"

definition await_authorizations :: "env \<Rightarrow> nat \<Rightarrow> authorization list \<Rightarrow> (string + authorization list) option pass" where
  "await_authorizations E n rows = do {
     now \<leftarrow> clock E;
     await_authz E n rows rows (now + e_authz_wait E) }"

section \<open>Solving the challenges of an order\<close>

text \<open>\<open>None\<close>: every authorization is valid. An error is recorded as the pass's failure.\<close>

definition solve_scanned :: "env \<Rightarrow> nat \<Rightarrow> cert_state \<Rightarrow> solving \<Rightarrow> outcome option pass" where
  "solve_scanned E n st sv =
     (if sv_pending sv = [] then do { cleanup E (sv_rows sv); ret None }
      else do {
        w \<leftarrow> wait_all E (sv_records sv);
        case w of
          Some (e, stopped) \<Rightarrow> do {
            (if stopped then ret () else mark_resumed_unpresented E (sv_resumed sv));
            r \<leftarrow> fail_pass E st (''wait for TXT propagation: '' @ e);
            ret (Some r) }
        | None \<Rightarrow> do {
            acc \<leftarrow> accept_challenges E (sv_pending sv);
            case acc of
              Inl e \<Rightarrow> do { r \<leftarrow> fail_pass E st e; ret (Some r) }
            | Inr rows \<Rightarrow> do {
                v \<leftarrow> await_authorizations E n rows;
                case v of
                  None \<Rightarrow> ret (Some OutOfFuel)
                | Some (Inl e) \<Rightarrow> do { r \<leftarrow> fail_pass E st e; ret (Some r) }
                | Some (Inr rows') \<Rightarrow> do { cleanup E rows'; ret None } } } })"

definition discard_invalid :: "env \<Rightarrow> cert_state \<Rightarrow> string \<Rightarrow> string \<Rightarrow> outcome pass" where
  "discard_invalid E st name err = do {
     d \<leftarrow> discard_order E name;
     fail_pass E st (case d of
         Some e \<Rightarrow> err @ '' (and discarding the order failed: '' @ e @ '')''
       | None \<Rightarrow> err @ ''; the order is discarded so the next pass places a fresh one'') }"

definition solve_challenges ::
  "env \<Rightarrow> nat \<Rightarrow> cert_config \<Rightarrow> cert_state \<Rightarrow> order_reply \<Rightarrow> outcome option pass" where
  "solve_challenges E n c st reply = do {
     rows \<leftarrow> load_authorizations E (cc_name c) (e_authorizations reply);
     case rows of
       Inl e \<Rightarrow> do { r \<leftarrow> fail_pass E st e; ret (Some r) }
     | Inr rows \<Rightarrow> do {
         current \<leftarrow> fetch_authzs E rows;
         case current of
           Inl e \<Rightarrow> do { r \<leftarrow> fail_pass E st e; ret (Some r) }
         | Inr curs \<Rightarrow> do {
             s \<leftarrow> scan_rows E (cc_name c) empty_solving (zip rows curs);
             case s of
               Inl e \<Rightarrow> do { r \<leftarrow> fail_pass E st e; ret (Some r) }
             | Inr sv \<Rightarrow>
                 (case sv_error sv of
                    Some err \<Rightarrow> do { r \<leftarrow> discard_invalid E st (cc_name c) err; ret (Some r) }
                  | None \<Rightarrow> solve_scanned E n st sv) } } }"

end
