(* ===== verification/Renewal.thy ===== *)
theory Renewal
  imports Backoff
begin

text \<open>
  When to renew and whether a certificate is what was asked for (\<open>ari.go\<close>, \<open>keys.go\<close> and
  \<open>renewalDecision\<close> of \<open>manager_renew.go\<close>): the ARI certificate identifier, the renewal window and
  the deterministic instant inside it, the throttle of ARI queries, and the gates a downloaded
  certificate passes before it is deployed.

  The text of a parser's error is \<open>e_lib_error\<close> of the operation's name.
\<close>

section \<open>The ARI certificate identifier\<close>

definition b64_alphabet :: string where
  "b64_alphabet = ''ABCDEFGHIJKLMNOPQRSTUVWXYZabcdefghijklmnopqrstuvwxyz0123456789-_''"

definition b64_char :: "nat \<Rightarrow> char" where
  "b64_char i = b64_alphabet ! (i mod 64)"

text \<open>\<open>base64.RawURLEncoding.EncodeToString\<close>: three bytes to four characters, no padding.\<close>

fun b64_encode :: "nat list \<Rightarrow> string" where
  "b64_encode [] = []"
| "b64_encode [a] = map b64_char [a div 4, a mod 4 * 16]"
| "b64_encode [a, b] = map b64_char [a div 4, a mod 4 * 16 + b div 16, b mod 16 * 4]"
| "b64_encode (a # b # c # bs) =
     map b64_char [a div 4, a mod 4 * 16 + b div 16, b mod 16 * 4 + c div 64, c mod 64] @ b64_encode bs"

text \<open>\<open>big.Int.Bytes\<close>: big-endian, no leading zero, empty for zero.\<close>

fun big_bytes :: "nat \<Rightarrow> nat list" where
  "big_bytes n = (if n = 0 then [] else big_bytes (n div 256) @ [n mod 256])"

declare big_bytes.simps [simp del]

definition der_serial :: "nat \<Rightarrow> nat list" where
  "der_serial n = (case big_bytes n of [] \<Rightarrow> [] | b # bs \<Rightarrow> if b \<ge> 128 then 0 # b # bs else b # bs)"

definition cert_id :: "leaf \<Rightarrow> string option" where
  "cert_id l = (if lf_aki l = [] then None
     else Some (b64_encode (lf_aki l) @ ''.'' @ b64_encode (der_serial (lf_serial l))))"

section \<open>Asking the CA\<close>

datatype ari_failure = NoARI | LongTerm | ARIFailed string

definition ari_error_text :: "ari_failure \<Rightarrow> string" where
  "ari_error_text f = (case f of NoARI \<Rightarrow> ''renewalInfo is not supported''
     | LongTerm \<Rightarrow> ''renewalInfo cannot answer for this certificate: renewalInfo returned 404''
     | ARIFailed e \<Rightarrow> e)"

definition read_renewal_info :: "ca_error + ari_reply \<Rightarrow> (ari_failure + instant \<times> instant) \<times> duration" where
  "read_renewal_info r =
     (case r of
        Inl e \<Rightarrow> (Inl (if ce_no_ari e then NoARI else ARIFailed (ce_text e)), 0)
      | Inr a \<Rightarrow>
          (let after = (case ar_retry_after a of None \<Rightarrow> 0 | Some d \<Rightarrow> d)
           in if ar_status a = 404 then (Inl LongTerm, 0)
              else if ar_status a \<noteq> 200 then
                (Inl (ARIFailed (''renewalInfo returned '' @ show_int (ar_status a))), after)
              else case ar_window a of
                  None \<Rightarrow> (Inl (ARIFailed ''parse renewalInfo''), after)
                | Some (start, till) \<Rightarrow>
                    if till < start then (Inl (ARIFailed ''renewalInfo suggestedWindow is invalid''), after)
                    else (Inr (start, till), after)))"

definition fetch_renewal_info :: "env \<Rightarrow> string \<Rightarrow> ((ari_failure + instant \<times> instant) \<times> duration) pass" where
  "fetch_renewal_info E i = do {
     r \<leftarrow> perform (GetRenewalInfo i) (e_renewal_info E);
     ret (read_renewal_info r) }"

definition ari_check_due :: "env \<Rightarrow> cert_state \<Rightarrow> instant \<Rightarrow> bool" where
  "ari_check_due E st now \<longleftrightarrow>
     (if c_ari_checked_at st = zero_time then True
      else let wait = (if c_ari_retry_after st > 0 then c_ari_retry_after st else e_ari_interval E);
               wait = (if wait < ns_minute then ns_minute else wait);
               wait = (if wait > 24 * ns_hour then 24 * ns_hour else wait)
           in \<not> now < c_ari_checked_at st + wait)"

section \<open>The instant\<close>

definition be_uint64 :: "nat list \<Rightarrow> int" where
  "be_uint64 bs = int (foldl (\<lambda>a b. a * 256 + b mod 256) 0 (take 8 bs))"

definition renewal_time :: "env \<Rightarrow> string \<Rightarrow> instant \<Rightarrow> instant \<Rightarrow> instant" where
  "renewal_time E name start till =
     (if \<not> till > start then start
      else let span = time_sub till start;
               h = e_sha256 E (name @ ''|'' @ e_format_rfc3339 E start);
               t = start + be_uint64 h mod span;
               jitter = span div 10;
               t = (if jitter > 0 then t + (be_uint64 (drop 8 h) mod (jitter * 2) - jitter) else t)
           in if t < start then start else if t > till then till else t)"

definition deterministic_time :: "env \<Rightarrow> string \<Rightarrow> instant \<Rightarrow> duration \<Rightarrow> instant" where
  "deterministic_time E name base spread =
     (if spread \<le> 0 then base
      else base + be_uint64 (e_sha256 E (''fallback|'' @ name)) mod spread)"

section \<open>The decision\<close>

record decision =
  dc_renew_at :: instant
  dc_replaces :: string
  dc_error :: "string option"
  dc_state :: cert_state

definition renewal_instant :: "env \<Rightarrow> cert_config \<Rightarrow> cert_state \<Rightarrow> instant" where
  "renewal_instant E c st =
     (if c_ari_window_start st \<noteq> zero_time \<and> c_ari_window_end st > c_ari_window_start st
      then renewal_time E (cc_name c) (c_ari_window_start st) (c_ari_window_end st)
      else deterministic_time E (cc_name c) (c_not_after st - cc_renew_before c) (cc_renew_before c div 8))"

definition ari_state :: "cert_state \<Rightarrow> instant \<Rightarrow> (ari_failure + instant \<times> instant) \<times> duration \<Rightarrow> cert_state" where
  "ari_state st now r =
     (case r of
        (Inr (start, till), after) \<Rightarrow> st\<lparr>c_ari_window_start := start, c_ari_window_end := till,
            c_ari_checked_at := now, c_ari_retry_after := after\<rparr>
      | (Inl f, after) \<Rightarrow> st\<lparr>c_ari_checked_at := now,
            c_ari_retry_after := (if f = NoARI \<or> f = LongTerm then 0 else after)\<rparr>)"

definition ari_error :: "(ari_failure + instant \<times> instant) \<times> duration \<Rightarrow> string option" where
  "ari_error r = (case fst r of Inl f \<Rightarrow> Some (ari_error_text f) | Inr _ \<Rightarrow> None)"

definition renewal_decision :: "env \<Rightarrow> cert_config \<Rightarrow> cert_state \<Rightarrow> decision pass" where
  "renewal_decision E c st = do {
     stopped \<leftarrow> cancelled E;
     if stopped then ret \<lparr>dc_renew_at = zero_time, dc_replaces = [],
         dc_error = Some ''context canceled'', dc_state = st\<rparr>
     else do {
       now \<leftarrow> clock E;
       if c_ari_cert_id st \<noteq> [] \<and> \<not> (c_not_after st \<noteq> zero_time \<and> \<not> now < c_not_after st) \<and> ari_check_due E st now
       then do {
         r \<leftarrow> fetch_renewal_info E (c_ari_cert_id st);
         (let st' = ari_state st now r
          in do {
            p \<leftarrow> store_write E (\<lambda>t. put_cert t st');
            ret (case p of
                Some e \<Rightarrow> \<lparr>dc_renew_at = zero_time, dc_replaces = [], dc_error = Some e, dc_state = st'\<rparr>
              | None \<Rightarrow> \<lparr>dc_renew_at = renewal_instant E c st', dc_replaces = c_ari_cert_id st',
                    dc_error = ari_error r, dc_state = st'\<rparr>) }) }
       else ret \<lparr>dc_renew_at = renewal_instant E c st, dc_replaces = c_ari_cert_id st,
           dc_error = None, dc_state = st\<rparr> } }"

section \<open>Is this the certificate that was asked for?\<close>

definition coverage_drift :: "leaf \<Rightarrow> string list \<Rightarrow> bool" where
  "coverage_drift l want \<longleftrightarrow> domain_key (lf_dns_names l) \<noteq> domain_key want"

definition verify_coverage :: "leaf \<Rightarrow> string list \<Rightarrow> string option" where
  "verify_coverage l want =
     (let missing = filter (\<lambda>n. to_lower n \<notin> set (map to_lower (lf_dns_names l))) want
      in if missing = [] then None
         else Some (''the issued certificate does not cover these domains: '' @ show_names missing @
           '' (it contains '' @ show_names (lf_dns_names l) @ '')''))"

definition verify_key_match :: "env \<Rightarrow> leaf \<Rightarrow> string \<Rightarrow> string option" where
  "verify_key_match E l key =
     (case e_key_public E key of
        None \<Rightarrow> Some (''parse the order's private key: '' @ e_lib_error E ''parse key'')
      | Some pub \<Rightarrow>
          if lf_public_key l = pub then None
          else Some (''the issued certificate does not belong to the private key this order was placed with; ''
            @ ''deploying it would break every TLS handshake, so this pass is failed instead''))"

definition cert_is_newer :: "env \<Rightarrow> leaf \<Rightarrow> cert_state \<Rightarrow> bool" where
  "cert_is_newer E fresh st =
     (case e_parse_leaf E (c_cert_pem st) of
        Some live \<Rightarrow> lf_not_before fresh > lf_not_before live
      | None \<Rightarrow> c_issued_at st \<noteq> zero_time \<and> lf_not_before fresh > c_issued_at st)"

section \<open>The instants are where they should be\<close>

text \<open>
  The renewal instant lies inside the CA's suggested window, for every certificate name and
  every value of the hash, and the fallback instant spreads over at most an eighth of the renewal
  margin after its start.
\<close>

theorem renewal_instant_in_window:
  "(c_ari_window_start st \<noteq> zero_time \<and> c_ari_window_end st > c_ari_window_start st \<longrightarrow>
      renewal_instant E c st \<in> {c_ari_window_start st .. c_ari_window_end st}) \<and>
   (\<not> (c_ari_window_start st \<noteq> zero_time \<and> c_ari_window_end st > c_ari_window_start st) \<and> 0 \<le> cc_renew_before c \<longrightarrow>
      renewal_instant E c st \<in> {c_not_after st - cc_renew_before c .. c_not_after st - cc_renew_before c + cc_renew_before c div 8})"
proof -
  have a: "renewal_time E n s e \<in> {s .. e}" if "s < e" for n s e
    using that by (auto simp: renewal_time_def Let_def)
  have b: "deterministic_time E n s d \<in> {s .. s + d}" if "0 \<le> d" for n s d
    using that by (auto simp: deterministic_time_def less_imp_le)
  show ?thesis using a b by (auto simp: renewal_instant_def)
qed

theorem renewal_instant_in_window_witness:
  "renewal_instant sample_env sample_config
     (ailing_cert\<lparr>c_ari_window_start := sample_now, c_ari_window_end := sample_now + 1000\<rparr>)
     \<in> {sample_now .. sample_now + 1000}"
proof -
  have "sample_now \<noteq> zero_time" by (simp add: sample_now_def zero_time_def ns_defs)
  then show ?thesis
    using renewal_instant_in_window [of "ailing_cert\<lparr>c_ari_window_start := sample_now, c_ari_window_end := sample_now + 1000\<rparr>"
      sample_env sample_config] by simp
qed

text \<open>
  The CA is asked for renewal information about a certificate at most once a minute and, while
  the certificate is still valid, at least once a day, whatever \<open>Retry-After\<close> it sent.
\<close>

theorem ari_poll_bounds:
  assumes "c_ari_checked_at st \<noteq> zero_time"
  shows "(now < c_ari_checked_at st + ns_minute \<longrightarrow> \<not> ari_check_due E st now) \<and>
    (c_ari_checked_at st + 24 * ns_hour \<le> now \<longrightarrow> ari_check_due E st now) \<and>
    (ns_minute \<le> c_ari_retry_after st \<and> c_ari_retry_after st \<le> 24 * ns_hour \<longrightarrow>
      (ari_check_due E st now \<longleftrightarrow> c_ari_checked_at st + c_ari_retry_after st \<le> now))"
  using assms by (auto simp: ari_check_due_def Let_def ns_defs)

theorem ari_poll_bounds_witness:
  "\<not> ari_check_due sample_env (ailing_cert\<lparr>c_ari_checked_at := sample_now, c_ari_retry_after := 5\<rparr>)
     (sample_now + 30 * ns_second)"
proof -
  let ?st = "ailing_cert\<lparr>c_ari_checked_at := sample_now, c_ari_retry_after := 5\<rparr>"
  have "c_ari_checked_at ?st \<noteq> zero_time" by (simp add: sample_now_def zero_time_def ns_defs)
  from ari_poll_bounds [OF this, of "sample_now + 30 * ns_second" sample_env] show ?thesis
    by (simp add: ns_defs)
qed

section \<open>The identifier names one certificate\<close>

fun b64_index :: "string \<Rightarrow> char \<Rightarrow> nat" where
  "b64_index [] c = 0"
| "b64_index (x # xs) c = (if x = c then 0 else Suc (b64_index xs c))"

fun b64_decode :: "string \<Rightarrow> nat list" where
  "b64_decode (w # x # y # z # cs) =
     (let w = b64_index b64_alphabet w; x = b64_index b64_alphabet x;
          y = b64_index b64_alphabet y; z = b64_index b64_alphabet z
      in (w * 4 + x div 16) # (x mod 16 * 16 + y div 4) # (y mod 4 * 64 + z) # b64_decode cs)"
| "b64_decode [w, x, y] =
     (let w = b64_index b64_alphabet w; x = b64_index b64_alphabet x; y = b64_index b64_alphabet y
      in [w * 4 + x div 16, x mod 16 * 16 + y div 4])"
| "b64_decode [w, x] =
     (let w = b64_index b64_alphabet w; x = b64_index b64_alphabet x in [w * 4 + x div 16])"
| "b64_decode _ = []"

lemma b64_index_char: "i < 64 \<Longrightarrow> b64_index b64_alphabet (b64_char i) = i"
proof -
  have "list_all (\<lambda>i. b64_index b64_alphabet (b64_char i) = i) [0..<64]" by code_simp
  then show "i < 64 \<Longrightarrow> b64_index b64_alphabet (b64_char i) = i" by (simp add: list_all_iff)
qed

lemma b64_char_no_dot: "b64_char i \<noteq> CHR ''.''"
proof -
  have "list_all (\<lambda>i. b64_char i \<noteq> CHR ''.'') [0..<64]" by code_simp
  then have "b64_char (i mod 64) \<noteq> CHR ''.''" by (simp add: list_all_iff)
  then show ?thesis by (simp add: b64_char_def)
qed

lemma sextets:
  fixes a b c :: nat
  assumes "a < 256" "b < 256" "c < 256"
  shows "a div 4 < 64" "a mod 4 * 16 + b div 16 < 64" "b mod 16 * 4 + c div 64 < 64" "c mod 64 < 64"
    "(a mod 4 * 16 + b div 16) div 16 = a mod 4" "(a mod 4 * 16 + b div 16) mod 16 = b div 16"
    "(b mod 16 * 4 + c div 64) div 4 = b mod 16" "(b mod 16 * 4 + c div 64) mod 4 = c div 64"
proof -
  have d: "a div 4 < 64" "b div 16 < 16" "c div 64 < 4" using assms by auto
  have m: "a mod 4 < 4" "b mod 16 < 16" "c mod 64 < 64" by simp_all
  show "a div 4 < 64" by (rule d)
  show "a mod 4 * 16 + b div 16 < 64" using d m by linarith
  show "b mod 16 * 4 + c div 64 < 64" using d m by linarith
  show "c mod 64 < 64" by (rule m)
  show "(a mod 4 * 16 + b div 16) div 16 = a mod 4" "(a mod 4 * 16 + b div 16) mod 16 = b div 16"
    using d by simp_all
  show "(b mod 16 * 4 + c div 64) div 4 = b mod 16" "(b mod 16 * 4 + c div 64) mod 4 = c div 64"
    using d by simp_all
qed

lemma b64_decode_encode: "\<forall>b \<in> set bs. b < 256 \<Longrightarrow> b64_decode (b64_encode bs) = bs"
proof (induction bs rule: b64_encode.induct)
  case (2 a)
  then show ?case using sextets [of a 0 0] by (simp add: b64_index_char Let_def)
next
  case (3 a b)
  then have "a < 256" "b < 256" by simp_all
  then show ?case using sextets [of a b 0] by (simp add: b64_index_char Let_def)
next
  case (4 a b c bs)
  then have "a < 256" "b < 256" "c < 256" by simp_all
  from 4 sextets [OF this] show ?case by (simp add: b64_index_char Let_def)
qed simp

lemma b64_no_dot: "CHR ''.'' \<notin> set (b64_encode bs)"
  using b64_char_no_dot by (induction bs rule: b64_encode.induct) (simp_all, metis+)

lemma foldl_big_bytes: "foldl (\<lambda>a b. a * 256 + b) 0 (big_bytes n) = n"
proof (induction n rule: big_bytes.induct)
  case (1 n)
  then show ?case by (subst big_bytes.simps) auto
qed

lemma big_bytes_lt: "\<forall>b \<in> set (big_bytes n). b < 256"
proof (induction n rule: big_bytes.induct)
  case (1 n)
  then show ?case by (subst big_bytes.simps) auto
qed

lemma foldl_der: "foldl (\<lambda>a b. a * 256 + b) 0 (der_serial n) = n"
  using foldl_big_bytes [of n] by (cases "big_bytes n") (auto simp: der_serial_def)

lemma der_lt: "\<forall>b \<in> set (der_serial n). b < 256"
  using big_bytes_lt [of n] by (cases "big_bytes n") (auto simp: der_serial_def)

lemma append_sep_inj:
  "x \<notin> set a \<Longrightarrow> x \<notin> set c \<Longrightarrow> a @ x # b = c @ x # d \<longleftrightarrow> a = c \<and> b = d"
proof (induction a arbitrary: c)
  case Nil
  then show ?case by (cases c) auto
next
  case (Cons y ys)
  then show ?case by (cases c) auto
qed

text \<open>
  The identifier sent as \<open>replaces\<close> names one certificate: two certificates get the same
  identifier only when both the authority key identifier and the serial number agree, high-bit
  serials included, since the encoding can be read back.
\<close>

theorem cert_id_injective:
  assumes "cert_id a = Some i" and "cert_id b = Some i"
    and "\<forall>x \<in> set (lf_aki a). x < 256" and "\<forall>x \<in> set (lf_aki b). x < 256"
  shows "lf_aki a = lf_aki b \<and> lf_serial a = lf_serial b"
proof -
  have "b64_encode (lf_aki a) @ CHR ''.'' # b64_encode (der_serial (lf_serial a)) =
      b64_encode (lf_aki b) @ CHR ''.'' # b64_encode (der_serial (lf_serial b))"
    using assms(1,2) by (auto simp: cert_id_def split: if_splits)
  then have e: "b64_encode (lf_aki a) = b64_encode (lf_aki b)"
    "b64_encode (der_serial (lf_serial a)) = b64_encode (der_serial (lf_serial b))"
    by (simp_all add: append_sep_inj b64_no_dot)
  show ?thesis
    using e assms(3,4) der_lt by (metis b64_decode_encode foldl_der)
qed

definition sample_leaf :: leaf where
  "sample_leaf = \<lparr>lf_not_before = sample_now, lf_not_after = sample_now + 90 * 24 * ns_hour,
     lf_dns_names = [''a.example.com'', ''b.example.com''], lf_aki = [105, 136, 91], lf_serial = 34626,
     lf_raw = ''RAW'', lf_public_key = ''PUB''\<rparr>"

theorem cert_id_injective_witness:
  "cert_id sample_leaf = Some ''aYhb.AIdC'' \<and>
   lf_serial sample_leaf = lf_serial (sample_leaf\<lparr>lf_raw := ''X''\<rparr>)"
proof -
  have h: "cert_id sample_leaf = Some ''aYhb.AIdC''" "cert_id (sample_leaf\<lparr>lf_raw := ''X''\<rparr>) = Some ''aYhb.AIdC''"
    "\<forall>x \<in> set (lf_aki sample_leaf). x < 256" "\<forall>x \<in> set (lf_aki (sample_leaf\<lparr>lf_raw := ''X''\<rparr>)). x < 256"
    by (simp_all add: cert_id_def sample_leaf_def der_serial_def big_bytes.simps b64_char_def b64_alphabet_def)
  show ?thesis using cert_id_injective [OF h] h(1) by simp
qed

end
