(* ===== verification/Manager.thy ===== *)
theory Manager
  imports Authz Renewal
begin

text \<open>
  One pass over one certificate (\<open>Reconcile\<close> in \<open>manager.go\<close> with \<open>flow_advance.go\<close>,
  \<open>flow_order.go\<close>, \<open>download\<close> and \<open>ReapRetired\<close> of \<open>manager_done.go\<close>, \<open>issue\<close> of
  \<open>manager_renew.go\<close>): load the row, honour the backoff, apply the fallback, carry an order in
  progress further or drop it, confirm the binding, reissue on drift, renew when due; and, once the
  CA has signed, verify, deploy and promote.

  The row \<open>st\<close> that the code mutates through a pointer is passed and returned by value; every
  failure path ends in \<open>fail_pass\<close>, which writes its own copy. The two polling loops take the fuel
  \<open>n\<close> each. Log lines, metrics and the clock readings made only for them are left out.
\<close>

definition fail_some :: "env \<Rightarrow> cert_state \<Rightarrow> string \<Rightarrow> outcome option pass" where
  "fail_some E st err = do { r \<leftarrow> fail_pass E st err; ret (Some r) }"

section \<open>Deploying an issued certificate\<close>

text \<open>
  \<open>dp_undeployed\<close>: deployment is off for this certificate. \<open>dp_waiting\<close>: uploaded, but nothing is
  bound yet. \<open>dp_unverified\<close>: switched, but the binding could not be confirmed in time.
\<close>

record deployment =
  dp_id :: string
  dp_rebound :: bool
  dp_undeployed :: bool
  dp_unverified :: bool
  dp_waiting :: bool

definition upload_and_deploy ::
  "env \<Rightarrow> string \<Rightarrow> string \<Rightarrow> acme_order \<Rightarrow> (string + string \<times> deploy_error option) pass" where
  "upload_and_deploy E name old r =
     (if o_deployment_cert_id r \<noteq> [] then
        (if e_retryable E then do {
           x \<leftarrow> perform (ResumeDeploy name old (o_deployment_cert_id r)) (e_deploy E); ret (Inr x) }
         else do { x \<leftarrow> perform (Deploy name old) (e_deploy E); ret (Inr x) })
      else if e_staged E then do {
        (i, derr) \<leftarrow> perform (Upload name) (e_upload E);
        case derr of
          Some e \<Rightarrow> ret (Inr (i, Some e))
        | None \<Rightarrow> do {
            p \<leftarrow> store_write E (\<lambda>_. put_order (r\<lparr>o_deployment_cert_id := i\<rparr>));
            case p of
              Some e \<Rightarrow> do {
                store_try E (\<lambda>now. add_retired_cert now i name None None);
                ret (Inl (''the certificate '' @ i @
                  '' was uploaded but recording it for the resume anchor failed: '' @ e)) }
            | None \<Rightarrow> do { x \<leftarrow> perform (DeployUploaded name old i) (e_deploy E); ret (Inr x) } } }
      else do { x \<leftarrow> perform (Deploy name old) (e_deploy E); ret (Inr x) })"

definition deploy_failed ::
  "env \<Rightarrow> acme_order \<Rightarrow> string \<Rightarrow> deploy_error \<Rightarrow> string pass" where
  "deploy_failed E r i e =
     (if i = [] then ret (''deploy to Tencent Cloud: '' @ deploy_error_text e)
      else do {
        p \<leftarrow> store_write E (\<lambda>_. put_order (r\<lparr>o_deployment_cert_id := i\<rparr>));
        ret (case p of
            Some pe \<Rightarrow> ''the certificate '' @ i @ '' was uploaded but recording it for reclaim failed: '' @ pe
          | None \<Rightarrow> ''deploy to Tencent Cloud: '' @ deploy_error_text e) })"

definition deploy_cert :: "env \<Rightarrow> cert_config \<Rightarrow> cert_state \<Rightarrow> acme_order \<Rightarrow> (string + deployment) pass" where
  "deploy_cert E c st r =
     (let old = c_deployed_cert_id st
      in if \<not> cc_deploy c then
           ret (Inr \<lparr>dp_id = [], dp_rebound = False, dp_undeployed = True, dp_unverified = False, dp_waiting = False\<rparr>)
         else do {
           d \<leftarrow> upload_and_deploy E (cc_name c) old r;
           case d of
             Inl e \<Rightarrow> ret (Inl e)
           | Inr (i, None) \<Rightarrow> ret (Inr \<lparr>dp_id = i, dp_rebound = (old \<noteq> []), dp_undeployed = False,
               dp_unverified = False, dp_waiting = False\<rparr>)
           | Inr (i, Some e) \<Rightarrow>
               if is_SwitchUnverified e \<and> i \<noteq> [] then
                 ret (Inr \<lparr>dp_id = i, dp_rebound = (old \<noteq> []), dp_undeployed = False,
                   dp_unverified = True, dp_waiting = False\<rparr>)
               else if is_NothingBoundYet e \<and> i \<noteq> [] then
                 ret (Inr \<lparr>dp_id = i, dp_rebound = False, dp_undeployed = False,
                   dp_unverified = False, dp_waiting = True\<rparr>)
               else do { t \<leftarrow> deploy_failed E r i e; ret (Inl t) } })"

section \<open>Promoting it\<close>

text \<open>Why a downloaded certificate is not deployed; \<open>None\<close>: it may be.\<close>

definition replacement_refused :: "env \<Rightarrow> cert_state \<Rightarrow> acme_order \<Rightarrow> leaf \<Rightarrow> string option" where
  "replacement_refused E st r l =
     (if c_not_after st \<noteq> zero_time \<and> \<not> lf_not_after l > c_not_after st \<and> \<not> cert_is_newer E l st
      then Some (''the new certificate's notAfter ('' @ e_show_time E (lf_not_after l) @
        '') is not later than the current one ('' @ e_show_time E (c_not_after st) @ ''), and it was not '' @
        ''issued after it either, so it is not a replacement; refusing to deploy'')
      else if o_key_pem r = [] then Some ''the order has no private key; cannot deploy''
      else verify_key_match E l (o_key_pem r))"

definition promoted_row ::
  "cert_state \<Rightarrow> acme_order \<Rightarrow> string \<Rightarrow> string \<Rightarrow> leaf \<Rightarrow> instant \<Rightarrow> deployment \<Rightarrow> bool \<Rightarrow> cert_state" where
  "promoted_row st r url chain l now dp full =
     st\<lparr>c_not_after := lf_not_after l, c_cert_url := url, c_cert_pem := chain, c_key_pem := o_key_pem r,
        c_issued_at := now, c_deployed_cert_id := dp_id dp,
        c_deploy_confirmed :=
          (if dp_unverified dp \<or> dp_waiting dp then False
           else if dp_rebound dp then True
           else if c_deployed_cert_id st = [] \<or> dp_undeployed dp then False
           else c_deploy_confirmed st),
        c_ari_cert_id := (case cert_id l of Some i \<Rightarrow> i | None \<Rightarrow> []),
        c_ari_window_start := zero_time, c_ari_window_end := zero_time, c_ari_checked_at := zero_time,
        c_ari_retry_after := 0, c_next_attempt_at := zero_time, c_last_error := [],
        c_failures := (if full then 0 else c_failures st)\<rparr>"

definition blob :: "string \<Rightarrow> string option" where
  "blob s = (if s = [] then None else Some s)"

definition retires_old :: "cert_state \<Rightarrow> deployment \<Rightarrow> bool" where
  "retires_old st dp \<longleftrightarrow> (dp_rebound dp \<or> dp_waiting dp) \<and> c_deployed_cert_id st \<noteq> [] \<and>
     c_deployed_cert_id st \<noteq> dp_id dp"

text \<open>The one transaction that ends an issuance.\<close>

definition epilogue_ops ::
  "cert_config \<Rightarrow> cert_state \<Rightarrow> cert_state \<Rightarrow> deployment \<Rightarrow> string \<Rightarrow> bool \<Rightarrow> bool \<Rightarrow> tx_op list" where
  "epilogue_ops c st promoted dp orphan clear full =
     [TxPutCert promoted]
     @ (if retires_old st dp then
          [TxAddRetired (c_deployed_cert_id st) (cc_name c) (blob (c_cert_pem st)) (blob (c_key_pem st))] else [])
     @ orphan_ops (cc_name c) orphan
     @ (if clear then [TxClearFallback (cc_name c)] else [])
     @ (if full then [TxClearFailures (cc_name c)] else [])
     @ [TxDeleteOrder (cc_name c)]"

definition fallback_covered :: "env \<Rightarrow> cert_config \<Rightarrow> bool pass" where
  "fallback_covered E c = do {
     fb \<leftarrow> store_read E (get_fallback (cc_name c));
     ret (case fb of Inr (Some fb) \<Rightarrow> contains_all (cc_domains c) (fb_dropped fb) | _ \<Rightarrow> False) }"

definition promote ::
  "env \<Rightarrow> cert_config \<Rightarrow> cert_state \<Rightarrow> acme_order \<Rightarrow> string \<Rightarrow> string \<Rightarrow> leaf \<Rightarrow> pass_round \<Rightarrow> deployment \<Rightarrow> outcome pass" where
  "promote E c st r url chain l rd dp = do {
     now \<leftarrow> clock E;
     clear \<leftarrow> fallback_covered E c;
     orphan \<leftarrow> orphan_to_record E (cc_name c) (dp_id dp);
     cleanup_orphan_txt E (cc_name c);
     e \<leftarrow> store_tx E (epilogue_ops c st
       (promoted_row st r url chain l now dp (rd_full_set rd)) dp orphan clear (rd_full_set rd));
     case e of
       Some e \<Rightarrow> fail_pass E st
         (''the certificate was issued and deployed, but recording that in state.db failed, so it ''
          @ ''is unchanged on disk and this pass is reported as failed: '' @ e @
          ''. The next pass will ''
          @ ''re-order (which costs an issuance against the per-identifier-set limit); if this ''
          @ ''repeats, the state database is the problem, not the certificate'')
     | None \<Rightarrow> do {
         (if cc_export c then emit (Export (cc_name c)) else ret ());
         ret Done } }"

definition book_issuance :: "env \<Rightarrow> cert_config \<Rightarrow> string \<Rightarrow> unit pass" where
  "book_issuance E c url = do {
     first \<leftarrow> note_cert_spend url;
     if first then do {
       quota_spend E certs_per_exact_identifier_set (domain_key (cc_domains c));
       for_each (unique_registered_domains (e_golib E) (cc_domains c)) (quota_spend E certs_per_registered_domain) }
     else ret () }"

definition already_live :: "cert_state \<Rightarrow> string \<Rightarrow> bool" where
  "already_live st url \<longleftrightarrow> c_cert_url st \<noteq> [] \<and> c_cert_url st = url \<and> c_not_after st \<noteq> zero_time"

definition install ::
  "env \<Rightarrow> cert_config \<Rightarrow> cert_state \<Rightarrow> acme_order \<Rightarrow> string \<Rightarrow> string \<Rightarrow> leaf \<Rightarrow> pass_round \<Rightarrow> outcome pass" where
  "install E c st r url chain l rd =
     (case verify_coverage l (cc_domains c) of
        Some e \<Rightarrow> fail_pass E st e
      | None \<Rightarrow> do {
          book_issuance E c url;
          case replacement_refused E st r l of
            Some e \<Rightarrow> fail_pass E st e
          | None \<Rightarrow> do {
              d \<leftarrow> deploy_cert E c st r;
              case d of
                Inl e \<Rightarrow> fail_pass E st e
              | Inr dp \<Rightarrow> promote E c st r url chain l rd dp } })"

definition download ::
  "env \<Rightarrow> cert_config \<Rightarrow> cert_state \<Rightarrow> acme_order \<Rightarrow> order_reply \<Rightarrow> pass_round \<Rightarrow> outcome pass" where
  "download E c st r reply rd =
     (let url = e_certificate reply
      in if url = [] then fail_pass E st ''the order is valid but has no certificate URL''
         else if already_live st url then do {
           d \<leftarrow> discard_order E (cc_name c);
           case d of
             Some e \<Rightarrow> fail_pass E st (''discard the already-live order: '' @ e)
           | None \<Rightarrow> ret Done }
         else do {
           x \<leftarrow> perform (GetCertificate url) (e_get_certificate E);
           case x of
             Inl e \<Rightarrow> fail_pass E st (''download certificate: '' @ ce_text e)
           | Inr chain \<Rightarrow>
               (case e_parse_leaf E chain of
                  None \<Rightarrow> fail_pass E st (e_lib_error E ''parse leaf'')
                | Some l \<Rightarrow> install E c st r url chain l rd) })"

section \<open>Carrying an order further\<close>

text \<open>Wait for a status, persist what the CA answered, and go on with it.\<close>

definition await_and_persist ::
  "env \<Rightarrow> nat \<Rightarrow> cert_state \<Rightarrow> acme_order \<Rightarrow> string \<Rightarrow> (outcome + acme_order \<times> order_reply) pass" where
  "await_and_persist E n st r want = do {
     a \<leftarrow> await_order_status E n (o_order_url r) want order_wait_timeout;
     case a of
       None \<Rightarrow> ret (Inl OutOfFuel)
     | Some (Inl e) \<Rightarrow> do { x \<leftarrow> fail_pass E st e; ret (Inl x) }
     | Some (Inr reply) \<Rightarrow> do {
         p \<leftarrow> persist_order E r reply;
         case p of
           Inl e \<Rightarrow> do { x \<leftarrow> fail_pass E st e; ret (Inl x) }
         | Inr r' \<Rightarrow> ret (Inr (r', reply)) } }"

definition await_download ::
  "env \<Rightarrow> nat \<Rightarrow> cert_config \<Rightarrow> cert_state \<Rightarrow> acme_order \<Rightarrow> pass_round \<Rightarrow> outcome pass" where
  "await_download E n c st r rd = do {
     x \<leftarrow> await_and_persist E n st r ''valid'';
     case x of Inl res \<Rightarrow> ret res | Inr (r', reply) \<Rightarrow> download E c st r' reply rd }"

definition finalize ::
  "env \<Rightarrow> nat \<Rightarrow> cert_config \<Rightarrow> cert_state \<Rightarrow> acme_order \<Rightarrow> pass_round \<Rightarrow> outcome pass" where
  "finalize E n c st r rd =
     (if e_key_public E (o_key_pem r) = None
      then fail_pass E st (''load the order's private key: '' @ e_lib_error E ''parse key'')
      else do {
        csr \<leftarrow> ask (e_create_csr E);
        if \<not> csr then fail_pass E st (e_lib_error E ''create CSR'')
        else if o_finalize_url r = [] then
          fail_pass E st ''the order has no finalize URL; cannot submit the CSR''
        else do {
          f \<leftarrow> perform (Finalize (o_finalize_url r)) (e_finalize_order E);
          case f of
            Inl e \<Rightarrow> fail_pass E st (''submit CSR (finalize): '' @ ce_text e)
          | Inr _ \<Rightarrow> await_download E n c st r rd } })"

definition advance_invalid :: "env \<Rightarrow> cert_config \<Rightarrow> cert_state \<Rightarrow> order_reply \<Rightarrow> outcome pass" where
  "advance_invalid E c st reply = do {
     d \<leftarrow> discard_order E (cc_name c);
     (let err = ''order became invalid: '' @ e_error reply
      in fail_pass E st (case d of None \<Rightarrow> err | Some e \<Rightarrow> join_errors err e)) }"

definition advance_pending ::
  "env \<Rightarrow> nat \<Rightarrow> cert_config \<Rightarrow> cert_state \<Rightarrow> acme_order \<Rightarrow> order_reply \<Rightarrow> pass_round \<Rightarrow> outcome pass" where
  "advance_pending E n c st r reply rd = do {
     s \<leftarrow> solve_challenges E n c st reply;
     case s of
       Some res \<Rightarrow> ret res
     | None \<Rightarrow> do {
         x \<leftarrow> await_and_persist E n st r ''ready'';
         case x of
           Inl res \<Rightarrow> ret res
         | Inr (r', ready) \<Rightarrow>
             if e_status ready = ''valid'' then download E c st r' ready rd
             else finalize E n c st r' rd } }"

definition unfetchable_order :: "env \<Rightarrow> cert_config \<Rightarrow> cert_state \<Rightarrow> acme_order \<Rightarrow> ca_error \<Rightarrow> outcome pass" where
  "unfetchable_order E c st r err = do {
     dead \<leftarrow> note_order_fetch_failure (o_order_url r);
     if dead then do {
       d \<leftarrow> discard_order E (cc_name c);
       fail_pass E st (case d of
           Some e \<Rightarrow> join_errors (''get order: '' @ ce_text err) e
         | None \<Rightarrow> ''get order: '' @ ce_text err @
             '' (the order was discarded; the next attempt places a new one)'') }
     else fail_pass E st (''get order: '' @ ce_text err) }"

definition advance ::
  "env \<Rightarrow> nat \<Rightarrow> cert_config \<Rightarrow> cert_state \<Rightarrow> acme_order \<Rightarrow> pass_round \<Rightarrow> outcome pass" where
  "advance E n c st r rd = do {
     g \<leftarrow> perform (GetOrder (o_order_url r)) (e_get_order E);
     case g of
       Inl err \<Rightarrow> unfetchable_order E c st r err
     | Inr reply \<Rightarrow> do {
         clear_order_fetch_failures (o_order_url r);
         p \<leftarrow> persist_order E r reply;
         case p of
           Inl e \<Rightarrow> fail_pass E st e
         | Inr r' \<Rightarrow>
             if e_status reply = ''valid'' then download E c st r' reply rd
             else if e_status reply = ''invalid'' then advance_invalid E c st reply
             else if e_status reply = ''ready'' then finalize E n c st r' rd
             else if e_status reply = ''processing'' then await_download E n c st r' rd
             else advance_pending E n c st r' reply rd } }"

section \<open>Placing an order\<close>

definition place_order :: "env \<Rightarrow> cert_config \<Rightarrow> string \<Rightarrow> (ca_error + order_reply) pass" where
  "place_order E c replaces = perform (NewOrder (cc_domains c) (cc_profile c) replaces) (e_new_order E)"

definition create_order_with_replaces_retry :: "env \<Rightarrow> cert_config \<Rightarrow> string \<Rightarrow> (ca_error + order_reply) pass" where
  "create_order_with_replaces_retry E c replaces = do {
     x \<leftarrow> place_order E c replaces;
     case x of
       Inr reply \<Rightarrow> do { spend_new_order E; ret (Inr reply) }
     | Inl err \<Rightarrow> do {
         refused \<leftarrow> note_new_order_refusal E c err;
         if replaces = [] \<or> refused then ret (Inl err)
         else do {
           y \<leftarrow> place_order E c [];
           case y of
             Inr reply \<Rightarrow> do { spend_new_order E; ret (Inr reply) }
           | Inl err' \<Rightarrow> do { note_new_order_refusal E c err'; ret (Inl err') } } } }"

definition fresh_order :: "env \<Rightarrow> cert_config \<Rightarrow> order_reply \<Rightarrow> string \<Rightarrow> instant \<Rightarrow> acme_order" where
  "fresh_order E c reply key now = \<lparr>o_cert_name = cc_name c, o_order_url = e_location reply,
     o_finalize_url = e_finalize reply, o_cert_url = e_certificate reply,
     o_expires_at = parse_order_expires E (e_expires reply) now, o_status = e_status reply,
     o_key_pem = key, o_identifiers = domain_key (cc_domains c), o_deployment_cert_id = []\<rparr>"

definition start_order ::
  "env \<Rightarrow> nat \<Rightarrow> cert_config \<Rightarrow> cert_state \<Rightarrow> string \<Rightarrow> pass_round \<Rightarrow> outcome pass" where
  "start_order E n c st replaces rd = do {
     key \<leftarrow> ask (e_generate_key E);
     case key of
       None \<Rightarrow> fail_pass E st (e_lib_error E ''generate key'')
     | Some key \<Rightarrow> do {
         x \<leftarrow> create_order_with_replaces_retry E c replaces;
         case x of
           Inl err \<Rightarrow> fail_pass E st (''create order: '' @ ce_text err)
         | Inr reply \<Rightarrow>
             if e_location reply = [] then
               fail_pass E st ''create order: the server returned no order URL''
             else do {
               now \<leftarrow> clock E;
               p \<leftarrow> store_write E (\<lambda>_. put_order (fresh_order E c reply key now));
               case p of
                 Some e \<Rightarrow> fail_pass E st (''record the new order (the CA has it as '' @ e_location reply @
                   '', and it is not in the state store, so the next attempt will create another one): '' @ e)
               | None \<Rightarrow> advance E n c st (fresh_order E c reply key now) rd } } }"

definition issue ::
  "env \<Rightarrow> nat \<Rightarrow> cert_config \<Rightarrow> cert_state \<Rightarrow> string \<Rightarrow> pass_round \<Rightarrow> outcome pass" where
  "issue E n c st replaces rd = do {
     cooling \<leftarrow> refuse_while_cooling_down E c st;
     case cooling of
       Some r \<Rightarrow> ret r
     | None \<Rightarrow> do {
         locked \<leftarrow> refuse_while_ca_locked_out E c st;
         case locked of
           Some r \<Rightarrow> ret r
         | None \<Rightarrow> start_order E n c st replaces rd } }"

section \<open>One pass\<close>

definition load_round :: "env \<Rightarrow> cert_config \<Rightarrow> (outcome + cert_state \<times> pass_round) pass" where
  "load_round E c = do {
     st \<leftarrow> store_read E (row_or_new (cc_name c));
     case st of
       Inl e \<Rightarrow> do { r \<leftarrow> fail_unreadable E (cc_name c) (''read the certificate state: '' @ e); ret (Inl r) }
     | Inr st \<Rightarrow> do {
         fb \<leftarrow> store_read E (get_fallback (cc_name c));
         ret (Inr (st, case fb of
             Inl e \<Rightarrow> empty_round\<lparr>rd_fallback_unknown := True\<rparr>
           | Inr fb \<Rightarrow> empty_round\<lparr>rd_fallback_active := (fb \<noteq> None)\<rparr>)) } }"

text \<open>\<open>Inl\<close>: the order decided the pass; \<open>Inr b\<close>: none is in progress, \<open>b\<close> says one was discarded.\<close>

definition drop_order :: "env \<Rightarrow> cert_config \<Rightarrow> cert_state \<Rightarrow> string \<Rightarrow> (outcome + bool) pass" where
  "drop_order E c st what = do {
     d \<leftarrow> discard_order E (cc_name c);
     case d of
       Some e \<Rightarrow> do { r \<leftarrow> fail_pass E st (''discard the '' @ what @ '': '' @ e); ret (Inl r) }
     | None \<Rightarrow> ret (Inr True) }"

definition order_expired :: "env \<Rightarrow> acme_order \<Rightarrow> bool pass" where
  "order_expired E r =
     (if o_expires_at r = zero_time then ret False
      else do { now \<leftarrow> clock E; ret (\<not> now < o_expires_at r) })"

definition continue_or_drop_order ::
  "env \<Rightarrow> nat \<Rightarrow> cert_config \<Rightarrow> cert_state \<Rightarrow> pass_round \<Rightarrow> (outcome + bool) pass" where
  "continue_or_drop_order E n c st rd = do {
     x \<leftarrow> store_read E (get_order (cc_name c));
     case x of
       Inl e \<Rightarrow> do { r \<leftarrow> fail_pass E st (''read the order in progress: '' @ e); ret (Inl r) }
     | Inr None \<Rightarrow> ret (Inr False)
     | Inr (Some r) \<Rightarrow> do {
         expired \<leftarrow> order_expired E r;
         if expired then drop_order E c st ''expired order''
         else if \<not> order_matches_config r c then drop_order E c st ''order for the changed domain set''
         else do { res \<leftarrow> advance E n c st r rd; ret (Inl res) } } }"

definition confirm_binding :: "env \<Rightarrow> cert_state \<Rightarrow> cert_state pass" where
  "confirm_binding E st = do {
     b \<leftarrow> perform (Bindings (c_deployed_cert_id st)) (e_bindings E);
     case b of
       None \<Rightarrow> ret st
     | Some (count, whole) \<Rightarrow>
         if count = 0 then ret st
         else do {
           store_write E (\<lambda>t. put_cert t (st\<lparr>c_deploy_confirmed := True\<rparr>));
           ret (st\<lparr>c_deploy_confirmed := True\<rparr>) } }"

definition confirm_binding_if_due :: "env \<Rightarrow> cert_config \<Rightarrow> cert_state \<Rightarrow> cert_state pass" where
  "confirm_binding_if_due E c st =
     (if cc_deploy c \<and> c_deployed_cert_id st \<noteq> [] \<and> \<not> c_deploy_confirmed st then do {
        due \<leftarrow> binding_check_due E (cc_name c);
        if due then confirm_binding E st else ret st }
      else ret st)"

text \<open>\<open>None\<close>: no reissue was started.\<close>

definition reissue_on_san_drift ::
  "env \<Rightarrow> nat \<Rightarrow> cert_config \<Rightarrow> cert_state \<Rightarrow> pass_round \<Rightarrow> outcome option pass" where
  "reissue_on_san_drift E n c st rd =
     (case e_parse_leaf E (c_cert_pem st) of
        None \<Rightarrow> ret None
      | Some l \<Rightarrow>
          if \<not> coverage_drift l (cc_domains c) then ret None
          else if rd_fallback_unknown rd then ret None
          else do {
            held \<leftarrow> (if rd_fallback_active rd then drift_is_the_degradation E l c else ret False);
            if held then ret None
            else do { r \<leftarrow> issue E n c st (c_ari_cert_id st) rd; ret (Some r) } })"

definition renew_if_due ::
  "env \<Rightarrow> nat \<Rightarrow> cert_config \<Rightarrow> cert_state \<Rightarrow> pass_round \<Rightarrow> outcome pass" where
  "renew_if_due E n c st rd = do {
     d \<leftarrow> renewal_decision E c st;
     (case (dc_error d, dc_renew_at d = zero_time) of
        (Some e, True) \<Rightarrow> fail_pass E (dc_state d) e
      | _ \<Rightarrow> do {
          now \<leftarrow> clock E;
          if now < dc_renew_at d then ret Done
          else issue E n c (dc_state d) (dc_replaces d) rd }) }"

definition decide ::
  "env \<Rightarrow> nat \<Rightarrow> cert_config \<Rightarrow> cert_state \<Rightarrow> pass_round \<Rightarrow> outcome pass" where
  "decide E n c st rd =
     (if c_not_after st = zero_time then issue E n c st [] rd
      else do {
        st' \<leftarrow> confirm_binding_if_due E c st;
        drift \<leftarrow> reissue_on_san_drift E n c st' rd;
        case drift of
          Some r \<Rightarrow> ret r
        | None \<Rightarrow> renew_if_due E n c st' rd })"

definition run_round ::
  "env \<Rightarrow> nat \<Rightarrow> cert_config \<Rightarrow> cert_state \<Rightarrow> pass_round \<Rightarrow> outcome pass" where
  "run_round E n cfg st rd0 = do {
     (c, rd1) \<leftarrow> apply_fallback E cfg st rd0;
     (let rd = (if length (cc_domains c) = length (cc_domains cfg) then rd1\<lparr>rd_full_set := True\<rparr> else rd1)
      in do {
        x \<leftarrow> continue_or_drop_order E n c st rd;
        case x of
          Inl res \<Rightarrow> ret res
        | Inr discarded \<Rightarrow> do {
            (if discarded then ret None else cleanup_orphan_txt E (cc_name c));
            decide E n c st rd } }) }"

definition reconcile :: "env \<Rightarrow> nat \<Rightarrow> cert_config \<Rightarrow> outcome pass" where
  "reconcile E n cfg = do {
     x \<leftarrow> load_round E cfg;
     case x of
       Inl r \<Rightarrow> ret r
     | Inr (st, rd) \<Rightarrow> do {
         blocked \<leftarrow> honour_backoff E st;
         if blocked then ret InBackoff else run_round E n cfg st rd } }"

section \<open>Reclaiming retired certificates\<close>

definition reap_one :: "env \<Rightarrow> retired_cert \<Rightarrow> unit pass" where
  "reap_one E r = do {
     gone \<leftarrow> perform (DeleteCloud (r_cert_id r)) (e_delete E);
     if gone then do { store_write E (\<lambda>_. delete_retired_cert (r_cert_id r)); ret () } else ret () }"

definition reap_retired :: "env \<Rightarrow> unit pass" where
  "reap_retired E = do {
     now \<leftarrow> clock E;
     rs \<leftarrow> store_read E (list_retired_before (now - e_retention E));
     case rs of Inl e \<Rightarrow> ret () | Inr rs \<Rightarrow> for_each rs (reap_one E) }"

section \<open>A sample setting\<close>

text \<open>
  A setting in which the CA has already signed: the order is valid, its certificate covers both
  names, belongs to the order's key, and the cloud takes it.
\<close>

definition signed_leaf :: leaf where
  "signed_leaf = \<lparr>lf_not_before = sample_now, lf_not_after = sample_now + 90 * 24 * ns_hour,
     lf_dns_names = [''a.example.com'', ''b.example.com''], lf_aki = [1, 2, 3], lf_serial = 5,
     lf_raw = ''RAW'', lf_public_key = ''PUB''\<rparr>"

definition signed_reply :: order_reply where
  "signed_reply = \<lparr>e_location = ''o'', e_status = ''valid'', e_expires = '''', e_finalize = ''f'',
     e_certificate = ''cert-url'', e_authorizations = [], e_error = ''''\<rparr>"

definition signed_env :: env where
  "signed_env = sample_env\<lparr>e_get_order := \<lambda>_. Inr signed_reply, e_get_certificate := \<lambda>_. Inr ''CHAIN'',
     e_parse_leaf := \<lambda>s. if s = ''CHAIN'' then Some signed_leaf else None\<rparr>"

definition signed_order :: acme_order where
  "signed_order = \<lparr>o_cert_name = ''c'', o_order_url = ''o'', o_finalize_url = ''f'', o_cert_url = '''',
     o_expires_at = sample_now + 24 * ns_hour, o_status = ''ready'', o_key_pem = ''KEY'',
     o_identifiers = '''', o_deployment_cert_id = ''''\<rparr>"

definition signed_db :: db where
  "signed_db = put_order signed_order empty_db"

end
