(* ===== verification/CallLaws.thy ===== *)
theory CallLaws
  imports Manager
begin

text \<open>
  Which calls an operation of the manager makes. \<open>quiet_ca\<close> is \<open>quiet\<close> for calls that move an
  issuance forward at the CA (a new order, an accepted challenge, a submitted CSR): everything the
  manager does apart from the three operations that make such a call keeps \<open>K\<close>, whatever the
  answers. The counts of these calls interpret it.
\<close>

fun issuance_call :: "call \<Rightarrow> bool" where
  "issuance_call (NewOrder ds p r) = True"
| "issuance_call (AcceptChallenge u) = True"
| "issuance_call (Finalize u) = True"
| "issuance_call c = False"

locale quiet_ca = quiet Q bad for Q :: "call list \<Rightarrow> bool" and bad :: "call \<Rightarrow> bool" +
  assumes bad_issuance: "bad c \<Longrightarrow> issuance_call c"
begin

lemma not_bad [simp]: "\<not> issuance_call c \<Longrightarrow> \<not> bad c"
  using bad_issuance by blast

lemma emit_export [inv]: "inv K (emit (Export n))"
  by (rule emit_quiet) simp

lemma backoff_quiet [inv]:
  "inv K (set_transient_backoff E n t)" "inv K (transient_backoff_for E n)" "inv K (honour_backoff E st)"
  "inv K (note_order_fetch_failure url)" "inv K (clear_order_fetch_failures url)"
  by (unfold set_transient_backoff_def transient_backoff_for_def honour_backoff_def
      note_order_fetch_failure_def clear_order_fetch_failures_def,
      (intro inv modify_quiet; simp add: set_transient_def)+)

lemma cooldown_quiet [inv]:
  "inv K (persisted_cooldown E i now)" "inv K (cooldown_of E now d)" "inv K (cooling_down E ds)"
  "inv K (note_identifier_failure E i)" "inv K (clear_identifier_cooldown i)"
proof -
  show p: "inv K (persisted_cooldown E i now)" for i now
    unfolding persisted_cooldown_def by (intro inv)
  show c: "inv K (cooldown_of E now d)" for d now
    unfolding cooldown_of_def by (intro inv modify_quiet p; simp)
  show "inv K (cooling_down E ds)" unfolding cooling_down_def by (intro inv c)
  show "inv K (note_identifier_failure E i)" "inv K (clear_identifier_cooldown i)"
    unfolding note_identifier_failure_def clear_identifier_cooldown_def by (intro inv modify_quiet; simp)+
qed

lemma binding_quiet [inv]:
  "inv K (note_cert_spend u)" "inv K (binding_check_due E n)"
  unfolding note_cert_spend_def binding_check_due_def binding_check_ready_def binding_note_attempt_def Let_def
  by (intro inv modify_quiet; simp)+

lemma fail_quiet [inv]: "inv K (fail_pass E st e)" "inv K (fail_unreadable E n e)" "inv K (fail_some E st e)"
  unfolding fail_pass_def fail_unreadable_def fail_some_def by (intro inv; simp)+

lemma fallback_quiet [inv]:
  "inv K (apply_fallback E c st rd)" "inv K (drift_is_the_degradation E l c)"
  unfolding apply_fallback_def drift_is_the_degradation_def prune_fallback_def fallback_domains_def
  by (intro inv)+

lemma refused_limits_quiet [inv]: "inv K (note_refused_limits E c msg h ls)"
  by (induction ls) (simp_all add: note_refused_limit_def inv)

lemma refusal_quiet [inv]:
  "inv K (note_new_order_refusal E c e)" "inv K (refuse_while_cooling_down E c st)"
  "inv K (refuse_while_ca_locked_out E c st)" "inv K (spend_new_order E)" "inv K (spend_authz_failure E i)"
  unfolding note_new_order_refusal_def header_deadline_def refuse_while_cooling_down_def
    refuse_while_ca_locked_out_def blocked_by_recorded_deadline_def check_recorded_def
    spend_new_order_def spend_authz_failure_def
  by (intro inv)+

lemma renewal_quiet [inv]: "inv K (renewal_decision E c st)"
  unfolding renewal_decision_def fetch_renewal_info_def by (intro inv; simp)

lemma lease_quiet [inv]:
  "inv K (lease_add f v)" "inv K (lease_remove f v)" "inv K (clean_up E d ka)" "inv K (present E d ka)"
  "inv K (wait_all E recs)" "inv K (lookup_txt E d ka)"
proof -
  show a: "inv K (lease_add f v)" for f v unfolding lease_add_def by (intro inv modify_quiet; simp)
  show r: "inv K (lease_remove f v)" for f v unfolding lease_remove_def by (intro inv modify_quiet; simp)
  show "inv K (clean_up E d ka)" "inv K (present E d ka)" "inv K (wait_all E recs)" "inv K (lookup_txt E d ka)"
    unfolding clean_up_def present_def wait_all_def lookup_txt_def by (intro inv a r; simp)+
qed

lemma release_quiet [inv]:
  "inv K (register_recovered_leases E)" "inv K (release_stale_lease_except E f v x)"
  "inv K (release_stale_lease E f v)" "inv K (release_row_stale_lease E a ka)"
  unfolding register_recovered_leases_def release_stale_lease_def release_row_stale_lease_def
    release_stale_lease_except_def by (intro inv)+

lemma reclaim_quiet [inv]:
  "inv K (remove_authz_txt E a)" "inv K (reclaim_unpresented_txt E a)"
  unfolding remove_authz_txt_def reclaim_unpresented_txt_def still_propagating_def by (intro inv)+

lemma cleanup_quiet [inv]: "inv K (cleanup E rows)" "inv K (cleanup_orphan_txt E n)"
  unfolding cleanup_def cleanup_row_def cleanup_orphan_txt_def cleanup_orphan_row_def drop_row_def
    mark_reclaim_stuck_def by (intro inv inv_txt_reclaim)+

lemma order_quiet [inv]:
  "inv K (persist_order E r reply)" "inv K (orphan_to_record E n p)" "inv K (discard_order E n)"
  "inv K (await_order E m url want t d)" "inv K (await_order_status E m url want t)"
proof -
  show p: "inv K (persist_order E r reply)" "inv K (orphan_to_record E n p)" for p
    unfolding persist_order_def orphan_to_record_def by (intro inv)+
  then show "inv K (discard_order E n)" unfolding discard_order_def by (intro inv)
  show a: "inv K (await_order E m url want t d)" for m d
    by (induction m) (simp_all add: inv)
  show "inv K (await_order_status E m url want t)" unfolding await_order_status_def by (intro inv a)
qed

lemma fetch_quiet [inv]: "inv K (fetch_authzs E rows)"
  unfolding fetch_authzs_def fetch_authz_def by (intro inv; simp)

lemma load_rows_quiet [inv]: "inv K (load_rows E n f us)"
  by (induction us) (simp_all add: inv)

lemma load_quiet [inv]: "inv K (load_authorizations E n us)"
  unfolding load_authorizations_def by (intro inv)

lemma solve_pending_quiet [inv]: "inv K (solve_pending E a cur)"
  unfolding solve_pending_def present_challenge_def prepare_challenge_def refresh_challenge_def
    adopt_or_write_def write_txt_def persist_presented_def by (intro inv)

lemma scan_row_quiet [inv]: "inv K (scan_row E n sv a cur)"
  unfolding scan_row_def book_invalid_def Let_def by (intro inv)

lemma scan_rows_quiet [inv]: "inv K (scan_rows E n sv rows)"
  by (induction E n sv rows rule: scan_rows.induct) (simp_all add: inv)

lemma poll_rows_quiet [inv]: "inv K (poll_rows E rows)"
  by (induction E rows rule: poll_rows.induct) (simp_all add: inv poll_row_def book_invalid_def)

lemma await_authz_quiet [inv]: "inv K (await_authz E n rows pending d)"
  by (induction n arbitrary: rows pending) (simp_all add: inv validation_failed_def Let_def)

lemma await_authorizations_quiet [inv]: "inv K (await_authorizations E n rows)"
  unfolding await_authorizations_def by (intro inv)

lemma accept_quiet: "(\<And>u. \<not> bad (AcceptChallenge u)) \<Longrightarrow> inv K (accept_challenges E ps)"
  by (induction E ps rule: accept_challenges.induct) (simp_all add: inv accept_challenge_def)

lemma solve_quiet:
  assumes "\<And>u. \<not> bad (AcceptChallenge u)"
  shows "inv K (solve_challenges E n c st reply)"
  unfolding solve_challenges_def solve_scanned_def discard_invalid_def mark_resumed_unpresented_def
  by (intro inv accept_quiet assms)

lemma deploy_quiet [inv]: "inv K (deploy_cert E c st r)"
  unfolding deploy_cert_def upload_and_deploy_def deploy_failed_def Let_def by (intro inv; simp)

lemma download_quiet [inv]: "inv K (download E c st r reply rd)"
  unfolding download_def install_def promote_def book_issuance_def fallback_covered_def Let_def
  by (intro inv; simp)

lemma await_download_quiet [inv]:
  "inv K (await_and_persist E n st r want)" "inv K (await_download E n c st r rd)"
  unfolding await_and_persist_def await_download_def by (intro inv)+

lemma finalize_quiet: "(\<And>u. \<not> bad (Finalize u)) \<Longrightarrow> inv K (finalize E n c st r rd)"
  unfolding finalize_def by (intro inv; simp)

lemma advance_quiet:
  assumes "\<And>reply. inv K (solve_challenges E n c st reply)" and "\<And>r. inv K (finalize E n c st r rd)"
  shows "inv K (advance E n c st r rd)"
  unfolding advance_def unfetchable_order_def advance_invalid_def advance_pending_def
  by (intro inv assms; simp)

lemma load_round_quiet [inv]: "inv K (load_round E c)"
  unfolding load_round_def by (intro inv)

lemma confirm_binding_quiet [inv]: "inv K (confirm_binding_if_due E c st)"
  unfolding confirm_binding_if_due_def confirm_binding_def by (intro inv; simp)

lemma continue_quiet:
  assumes "\<And>r. inv K (advance E n c st r rd)"
  shows "inv K (continue_or_drop_order E n c st rd)"
  unfolding continue_or_drop_order_def drop_order_def order_expired_def
  by (intro inv assms)

lemma create_quiet:
  assumes "\<And>i. inv K (place_order E c i)"
  shows "inv K (create_order_with_replaces_retry E c replaces)"
  unfolding create_order_with_replaces_retry_def by (intro inv assms)

lemma issue_quiet:
  assumes "\<And>r. inv K (advance E n c st r rd)" and "\<And>i. inv K (place_order E c i)"
  shows "inv K (issue E n c st replaces rd)"
  unfolding issue_def start_order_def by (intro inv create_quiet assms)

text \<open>The whole pass is as quiet as the three operations that call on the CA to issue.\<close>

lemma reconcile_quiet:
  assumes "\<And>n c st reply. inv K (solve_challenges E n c st reply)"
    and "\<And>n c st r rd. inv K (finalize E n c st r rd)" and "\<And>c i. inv K (place_order E c i)"
  shows "inv K (reconcile E n cfg)"
  unfolding reconcile_def run_round_def decide_def reissue_on_san_drift_def renew_if_due_def Let_def
  by (intro inv inv_bool continue_quiet issue_quiet advance_quiet assms)

end

end
