(* ===== verification/DbLaws.thy ===== *)
theory DbLaws
  imports Manager
begin

text \<open>
  What a pass does to the database, as a tower of contracts between a predicate \<open>D\<close> of the database
  and the store. Under \<open>txt_db\<close> the writes of the authorization table keep \<open>D\<close>, and so every operation
  that takes records out of DNS does; \<open>flow_db\<close> adds the other writes of an order in progress and
  certificate rows that satisfy \<open>W\<close>; \<open>pass_db\<close> the fallback record and the failure ledger;
  \<open>pass_db_all\<close> the epilogue transaction and with it the whole pass. Each holds whatever the CA, the
  DNS provider, the cloud, the clock and the disk do.
\<close>

fun txt_op :: "store_op \<Rightarrow> bool" where
  "txt_op (PutAuthz a) = True"
| "txt_op (DeleteAuthz n u) = True"
| "txt_op (MarkStuck n u e) = True"
| "txt_op (ClearStuck n u) = True"
| "txt_op x = False"

fun flow_op :: "store_op \<Rightarrow> bool" where
  "flow_op (RecordFailure n e k u) = True"
| "flow_op (PutOrder r) = True"
| "flow_op (DeleteOrder n) = True"
| "flow_op (AddRetired i n p k) = True"
| "flow_op (DeleteRetired i) = True"
| "flow_op (RecordIdentFailure n i e u) = True"
| "flow_op (PutBucket b) = True"
| "flow_op x = txt_op x"

fun pass_op :: "store_op \<Rightarrow> bool" where
  "pass_op (PutFallback f) = True"
| "pass_op (ClearFallback n) = True"
| "pass_op (ClearIdentFailures n) = True"
| "pass_op (PruneIdentFailures n u a) = True"
| "pass_op x = flow_op x"

lemma txt_flow: "txt_op x \<Longrightarrow> flow_op x"
  by (cases x) simp_all

lemma flow_pass: "flow_op x \<Longrightarrow> pass_op x"
  by (cases x) simp_all

section \<open>Taking records out of DNS\<close>

locale txt_db = db_inv D for D :: "db \<Rightarrow> bool" +
  assumes txt_step: "txt_op x \<Longrightarrow> D d \<Longrightarrow> D (store_step t x d)"
begin

lemmas txt_writes = txt_step [of "PutAuthz a" for a, simplified] txt_step [of "DeleteAuthz n u" for n u, simplified]
  txt_step [of "MarkStuck n u e" for n u e, simplified] txt_step [of "ClearStuck n u" for n u, simplified]

lemma authz_writes [inv]:
  "inv I (store_write E (\<lambda>_. put_authorization a))"
  "inv I (store_write E (\<lambda>_. delete_authorization n v))"
  "inv I (store_write E (\<lambda>t. mark_txt_reclaim_stuck t n v e))"
  "inv I (store_write E (\<lambda>_. clear_txt_reclaim_stuck n v))"
  by (rule store_write_db; erule txt_writes)+

lemma lease_keeps [inv]:
  "inv I (lease_add f v)" "inv I (lease_remove f v)" "inv I (clean_up E d ka)" "inv I (present E d ka)"
  "inv I (wait_all E recs)" "inv I (lookup_txt E d ka)"
proof -
  show a: "inv I (lease_add f v)" for f v unfolding lease_add_def by (intro inv modify_db; simp)
  show r: "inv I (lease_remove f v)" for f v unfolding lease_remove_def by (intro inv modify_db; simp)
  show "inv I (clean_up E d ka)" "inv I (present E d ka)" "inv I (wait_all E recs)" "inv I (lookup_txt E d ka)"
    unfolding clean_up_def present_def wait_all_def lookup_txt_def by (intro inv a r)+
qed

lemma release_keeps [inv]:
  "inv I (register_recovered_leases E)" "inv I (release_stale_lease_except E f v x)"
  "inv I (release_stale_lease E f v)" "inv I (release_row_stale_lease E a ka)"
  unfolding register_recovered_leases_def release_stale_lease_def release_row_stale_lease_def
    release_stale_lease_except_def by (intro inv)+

lemma reclaim_keeps [inv]:
  "inv I (remove_authz_txt E a)" "inv I (reclaim_unpresented_txt E a)"
  unfolding remove_authz_txt_def reclaim_unpresented_txt_def still_propagating_def by (intro inv)+

lemma cleanup_keeps [inv]: "inv I (cleanup E rows)" "inv I (cleanup_orphan_txt E n)"
  unfolding cleanup_def cleanup_row_def cleanup_orphan_txt_def cleanup_orphan_row_def drop_row_def
    mark_reclaim_stuck_def by (intro inv inv_txt_reclaim)+

lemma sweep_rows_keeps [inv]: "inv I (sweep_rows E rows k m)"
proof (induction rows arbitrary: k m)
  case (Cons a rows)
  have "inv I (sweep_row E a)"
    unfolding sweep_row_def reclaim_one_stuck_def drop_row_def mark_reclaim_stuck_def
    by (intro inv inv_txt_reclaim)
  then show ?case using Cons by (auto intro!: inv)
qed (simp add: inv)

lemma sweep_keeps [inv]: "inv I (sweep_stuck_txt E)"
  unfolding sweep_stuck_txt_def by (intro inv)

end

section \<open>Carrying an order\<close>

locale flow_db = txt_db D for D :: "db \<Rightarrow> bool" +
  fixes W :: "cert_state \<Rightarrow> bool"
  assumes flow_step: "flow_op x \<Longrightarrow> D d \<Longrightarrow> D (store_step t x d)"
    and put: "W st \<Longrightarrow> D d \<Longrightarrow> D (put_cert t st d)"
    and W_fail: "W st \<Longrightarrow> W (st\<lparr>c_failures := k, c_last_error := e, c_next_attempt_at := u\<rparr>)"
    and W_confirm: "W st \<Longrightarrow> W (st\<lparr>c_deploy_confirmed := True\<rparr>)"
    and W_ari: "W st \<Longrightarrow> W (ari_state st u r)"
begin

lemmas flow_writes = flow_step [of "RecordFailure n e k t" for n e k t, simplified]
  flow_step [of "PutOrder r" for r, simplified] flow_step [of "DeleteOrder n" for n, simplified]
  flow_step [of "DeleteRetired i" for i, simplified]
  flow_step [of "RecordIdentFailure n i e t" for n i e t, simplified] flow_step [of "PutBucket b" for b, simplified]

lemma add_retired: "D d \<Longrightarrow> add_retired_cert t i n p k d = Some d' \<Longrightarrow> D d'"
  using flow_step [of "AddRetired i n p k" d t] by simp

lemma order_writes [inv]:
  "inv I (store_write E (\<lambda>t. record_failure t n e k u))"
  "inv I (store_write E (\<lambda>_. put_order r))"
  "inv I (store_write E (\<lambda>_. delete_retired_cert i))"
  "inv I (store_write E (\<lambda>_. record_identifier_failure n i e u))"
  "inv I (store_try E (\<lambda>t. add_retired_cert t i n None None))"
  by (rule store_write_db store_try_db; (erule flow_writes | erule add_retired, assumption))+

lemma cert_write: "W st \<Longrightarrow> inv I (store_write E (\<lambda>t. put_cert t st))"
  by (rule store_write_db) (rule put)

lemma upd_bucket: "D d \<Longrightarrow> update_rate_bucket l s f d = Some d' \<Longrightarrow> D d'"
  by (auto simp: update_rate_bucket_def split: option.splits if_splits intro: flow_writes)

lemma quota_keeps [inv]:
  "inv I (quota_spend E l s)" "inv I (quota_note_deadline E l s t)" "inv I (quota_note_retry_after E l s m)"
proof -
  show "inv I (quota_spend E l s)"
    by (rule quota_spend_db) (auto simp: tracker_spend_def split: option.splits intro: upd_bucket)
  show n: "inv I (quota_note_deadline E l s t)" for t
    by (rule quota_note_deadline_db) (auto simp: note_deadline_def split: option.splits intro: upd_bucket)
  show "inv I (quota_note_retry_after E l s m)"
    unfolding quota_note_retry_after_def by (intro inv n)
qed

lemma backoff_keeps [inv]:
  "inv I (set_transient_backoff E n t)" "inv I (transient_backoff_for E n)" "inv I (honour_backoff E st)"
  "inv I (note_order_fetch_failure url)" "inv I (clear_order_fetch_failures url)"
  by (unfold set_transient_backoff_def transient_backoff_for_def honour_backoff_def
      note_order_fetch_failure_def clear_order_fetch_failures_def,
      (intro inv modify_db; simp add: set_transient_def)+)

lemma cooldown_keeps [inv]:
  "inv I (persisted_cooldown E i now)" "inv I (cooldown_of E now d)" "inv I (cooling_down E ds)"
  "inv I (note_identifier_failure E i)" "inv I (clear_identifier_cooldown i)"
proof -
  show p: "inv I (persisted_cooldown E i now)" for i now
    unfolding persisted_cooldown_def by (intro inv)
  show c: "inv I (cooldown_of E now d)" for d now
    unfolding cooldown_of_def by (intro inv modify_db p; simp)
  show "inv I (cooling_down E ds)" unfolding cooling_down_def by (intro inv c)
  show "inv I (note_identifier_failure E i)" "inv I (clear_identifier_cooldown i)"
    unfolding note_identifier_failure_def clear_identifier_cooldown_def by (intro inv modify_db; simp)+
qed

lemma binding_keeps [inv]:
  "inv I (note_cert_spend u)" "inv I (binding_check_due E n)"
  unfolding note_cert_spend_def binding_check_due_def binding_check_ready_def binding_note_attempt_def Let_def
  by (intro inv modify_db; simp)+

lemma fail_keeps: "W st \<Longrightarrow> inv I (fail_pass E st e)"
  unfolding fail_pass_def by (intro inv cert_write) (simp add: W_fail)

lemma fail_unreadable_keeps [inv]: "inv I (fail_unreadable E n e)"
  unfolding fail_unreadable_def by (intro inv)

lemma refused_limits_keeps [inv]: "inv I (note_refused_limits E c msg h ls)"
  by (induction ls) (simp_all add: note_refused_limit_def inv)

lemma refusal_keeps [inv]:
  "inv I (note_new_order_refusal E c e)" "inv I (spend_new_order E)" "inv I (spend_authz_failure E i)"
  unfolding note_new_order_refusal_def header_deadline_def spend_new_order_def spend_authz_failure_def
  by (intro inv)+

lemma refuse_keeps:
  "W st \<Longrightarrow> inv I (refuse_while_cooling_down E c st)" "W st \<Longrightarrow> inv I (refuse_while_ca_locked_out E c st)"
  unfolding refuse_while_cooling_down_def refuse_while_ca_locked_out_def blocked_by_recorded_deadline_def
    check_recorded_def by (intro inv fail_keeps; assumption)+

lemma discard_tx: "inv I (store_tx E (orphan_ops n orphan @ [TxDeleteOrder n]))"
  by (rule store_tx_db) (auto simp: orphan_ops_def split: if_splits intro: flow_writes add_retired)

lemma order_keeps [inv]:
  "inv I (persist_order E r reply)" "inv I (orphan_to_record E n p)" "inv I (discard_order E n)"
  "inv I (await_order E m url want t d)" "inv I (await_order_status E m url want t)"
proof -
  show p: "inv I (persist_order E r reply)" "inv I (orphan_to_record E n p)" for p
    unfolding persist_order_def orphan_to_record_def by (intro inv)+
  then show "inv I (discard_order E n)" unfolding discard_order_def by (intro inv discard_tx)
  show a: "inv I (await_order E m url want t d)" for m d
    by (induction m) (simp_all add: inv)
  show "inv I (await_order_status E m url want t)" unfolding await_order_status_def by (intro inv a)
qed

lemma fetch_keeps [inv]: "inv I (fetch_authzs E rows)"
  unfolding fetch_authzs_def fetch_authz_def by (intro inv)

lemma load_rows_keeps [inv]: "inv I (load_rows E n f us)"
  by (induction us) (simp_all add: inv)

lemma load_keeps [inv]: "inv I (load_authorizations E n us)"
  unfolding load_authorizations_def by (intro inv)

lemma solve_pending_keeps [inv]: "inv I (solve_pending E a cur)"
  unfolding solve_pending_def present_challenge_def prepare_challenge_def refresh_challenge_def
    adopt_or_write_def write_txt_def persist_presented_def by (intro inv)

lemma scan_row_keeps [inv]: "inv I (scan_row E n sv a cur)"
  unfolding scan_row_def book_invalid_def Let_def by (intro inv)

lemma scan_rows_keeps [inv]: "inv I (scan_rows E n sv rows)"
  by (induction E n sv rows rule: scan_rows.induct) (simp_all add: inv)

lemma poll_rows_keeps [inv]: "inv I (poll_rows E rows)"
  by (induction E rows rule: poll_rows.induct) (simp_all add: inv poll_row_def book_invalid_def)

lemma await_authz_keeps [inv]: "inv I (await_authz E n rows pending d)"
  by (induction n arbitrary: rows pending) (simp_all add: inv validation_failed_def Let_def)

lemma await_authorizations_keeps [inv]: "inv I (await_authorizations E n rows)"
  unfolding await_authorizations_def by (intro inv)

lemma accept_keeps [inv]: "inv I (accept_challenges E ps)"
  by (induction E ps rule: accept_challenges.induct) (simp_all add: inv accept_challenge_def)

lemma solve_keeps: "W st \<Longrightarrow> inv I (solve_challenges E n c st reply)"
  unfolding solve_challenges_def solve_scanned_def discard_invalid_def mark_resumed_unpresented_def
  by (intro inv fail_keeps)

lemma deploy_keeps [inv]: "inv I (deploy_cert E c st r)"
  unfolding deploy_cert_def upload_and_deploy_def deploy_failed_def Let_def by (intro inv)

lemma issuance_keeps [inv]: "inv I (book_issuance E c u)" "inv I (fallback_covered E c)"
  unfolding book_issuance_def fallback_covered_def by (intro inv)+

lemma await_keeps: "W st \<Longrightarrow> inv I (await_and_persist E n st r want)"
  unfolding await_and_persist_def by (intro inv fail_keeps)

lemma place_keeps [inv]: "inv I (create_order_with_replaces_retry E c replaces)"
  unfolding create_order_with_replaces_retry_def place_order_def by (intro inv)

lemma order_expired_keeps [inv]: "inv I (order_expired E r)"
  unfolding order_expired_def by (intro inv)

lemma drop_keeps: "W st \<Longrightarrow> inv I (drop_order E c st what)"
  unfolding drop_order_def by (intro inv fail_keeps)

lemma load_round_keeps [inv]: "inv I (load_round E c)"
  unfolding load_round_def by (intro inv)

lemma confirm_keeps: "W st \<Longrightarrow> inv I (confirm_binding_if_due E c st)"
  unfolding confirm_binding_if_due_def confirm_binding_def by (intro inv cert_write W_confirm)

lemma confirm_row: "W st \<Longrightarrow> answers (confirm_binding_if_due E c st) W"
  unfolding confirm_binding_if_due_def confirm_binding_def
  by (intro answers_cases answers_bind_any answers_ret W_confirm)

lemma renewal_keeps: "W st \<Longrightarrow> inv I (renewal_decision E c st)"
  unfolding renewal_decision_def fetch_renewal_info_def by (intro inv cert_write) (simp add: W_ari)

lemma renewal_row: "W st \<Longrightarrow> answers (renewal_decision E c st) (\<lambda>d. W (dc_state d))"
  unfolding renewal_decision_def
  by (intro answers_cases answers_bind_any answers_ret) (auto simp: W_ari split: option.split)

lemma reap_keeps [inv]: "inv I (reap_retired E)"
  unfolding reap_retired_def reap_one_def by (intro inv)

end

section \<open>A whole pass\<close>

locale pass_db = flow_db D W for D :: "db \<Rightarrow> bool" and W :: "cert_state \<Rightarrow> bool" +
  assumes pass_step: "pass_op x \<Longrightarrow> D d \<Longrightarrow> D (store_step t x d)"
begin

lemmas pass_writes = pass_step [of "PutFallback f" for f, simplified]
  pass_step [of "ClearFallback n" for n, simplified] pass_step [of "ClearIdentFailures n" for n, simplified]
  pass_step [of "PruneIdentFailures n t a" for n t a, simplified]

lemma ledger_writes [inv]:
  "inv I (store_write E (\<lambda>_. prune_identifier_failures n u age))"
  "inv I (store_write E (\<lambda>_. put_fallback f))"
  "inv I (store_write E (\<lambda>_. clear_fallback n))"
  by (rule store_write_db; erule pass_writes)+

lemma fallback_keeps [inv]:
  "inv I (apply_fallback E c st rd)" "inv I (drift_is_the_degradation E l c)"
  unfolding apply_fallback_def drift_is_the_degradation_def prune_fallback_def fallback_domains_def
  by (intro inv)+

end

text \<open>
  The whole pass over the certificate \<open>name\<close>: its row satisfies \<open>W\<close> when it is loaded, and a
  promoted row when the row it was made from does.
\<close>

locale pass_db_all = pass_db D W for D :: "db \<Rightarrow> bool" and W :: "cert_state \<Rightarrow> bool" +
  fixes name :: string
  assumes W_load: "W (row_or_new name d)"
    and W_promote: "W st \<Longrightarrow> W (promoted_row st r url chain l now dp full)"
    and tx: "(\<And>p. x = TxPutCert p \<Longrightarrow> W p) \<Longrightarrow> D d \<Longrightarrow> tx_exec t x d = Some d' \<Longrightarrow> D d'"
begin

lemma epilogue_keeps:
  assumes "W p"
  shows "inv I (store_tx E (epilogue_ops c st p dp orphan clear full))"
proof (rule store_tx_db)
  fix x t d d'
  assume "x \<in> set (epilogue_ops c st p dp orphan clear full)" "D d" "tx_exec t x d = Some d'"
  then show "D d'"
    using assms tx [of x d t d'] by (auto simp: epilogue_ops_def orphan_ops_def split: if_splits)
qed

lemma promote_keeps: "W st \<Longrightarrow> inv I (promote E c st r url chain l rd dp)"
  unfolding promote_def by (intro inv epilogue_keeps fail_keeps W_promote)

lemma download_keeps: "W st \<Longrightarrow> inv I (download E c st r reply rd)"
  unfolding download_def install_def Let_def by (intro inv promote_keeps fail_keeps)

lemma advance_keeps: "W st \<Longrightarrow> inv I (advance E n c st r rd)"
  unfolding advance_def unfetchable_order_def advance_invalid_def advance_pending_def finalize_def
    await_download_def
  by (intro inv solve_keeps await_keeps fail_keeps download_keeps)

lemma issue_keeps: "W st \<Longrightarrow> inv I (issue E n c st replaces rd)"
  unfolding issue_def start_order_def by (intro inv refuse_keeps fail_keeps advance_keeps)

lemma continue_keeps: "W st \<Longrightarrow> inv I (continue_or_drop_order E n c st rd)"
  unfolding continue_or_drop_order_def by (intro inv drop_keeps fail_keeps advance_keeps)

lemma renew_keeps: "W st \<Longrightarrow> inv I (renew_if_due E n c st rd)"
  unfolding renew_if_due_def
  by (rule inv_bind_answers [OF renewal_keeps renewal_row]) (assumption | intro inv fail_keeps issue_keeps)+

lemma reissue_keeps: "W st \<Longrightarrow> inv I (reissue_on_san_drift E n c st rd)"
  unfolding reissue_on_san_drift_def by (intro inv issue_keeps)

lemma decide_keeps: "W st \<Longrightarrow> inv I (decide E n c st rd)"
  unfolding decide_def
  by (intro inv issue_keeps inv_bind_answers [OF confirm_keeps confirm_row] reissue_keeps renew_keeps)

lemma load_row: "cc_name c = name \<Longrightarrow> answers (load_round E c) (\<lambda>x. case x of Inl _ \<Rightarrow> True | Inr (st, rd) \<Rightarrow> W st)"
  unfolding load_round_def
  by (rule answers_bind [OF answers_store_read [where R = "\<lambda>x. case x of Inl _ \<Rightarrow> True | Inr st \<Rightarrow> W st"]])
    (auto simp: W_load intro!: answers_cases answers_bind_any answers_ret)

lemma reconcile_keeps:
  assumes "cc_name c = name"
  shows "inv I (reconcile E n c)"
  unfolding reconcile_def run_round_def
  by (rule inv_bind_answers [OF load_round_keeps load_row [OF assms]])
    (auto intro!: inv continue_keeps decide_keeps split: sum.split)

end

end
