(* ===== verification/PassProps.thy ===== *)
theory PassProps
  imports CallLaws DbLaws
begin

text \<open>
  What a pass guarantees, whatever the outside answers: the store stays well-formed, the stored
  certificate is replaced only by one that was verified, at most two orders are placed and none
  while one is in progress, and no challenge is accepted before its record has propagated.
\<close>

section \<open>The store stays well-formed\<close>

lemma db_ok_steps:
  "keys_ok d \<and> rows_ok d \<Longrightarrow> keys_ok (store_step t x d) \<and> rows_ok (store_step t x d)"
  "keys_ok d \<and> rows_ok d \<Longrightarrow> keys_ok (put_cert t st d) \<and> rows_ok (put_cert t st d)"
  "keys_ok d \<and> rows_ok d \<Longrightarrow> tx_exec t y d = Some d' \<Longrightarrow> keys_ok d' \<and> rows_ok d'"
  using store_step_keys store_step_rows store_step_keys [of d t "PutCert st"]
    store_step_rows [of d t "PutCert st"] tx_exec_keys tx_exec_rows by auto

interpretation whole: pass_db_all "\<lambda>d. keys_ok d \<and> rows_ok d" "\<lambda>_. True"
  by unfold_locales (rule TrueI db_ok_steps; assumption?)+

text \<open>
  A pass over any certificate keeps the database well-formed, whatever the CA, the DNS provider
  and the cloud answer, wherever the disk fails and however the clock moves: keys stay unique and
  every row keeps the shape the store's readers rely on.
\<close>

theorem pass_keeps_store_ok:
  assumes "keys_ok (w_db w)" and "rows_ok (w_db w)" and "run_state (reconcile E n c) w = (r, w')"
  shows "keys_ok (w_db w') \<and> rows_ok (w_db w')"
  using inv_run [OF whole.reconcile_keeps [OF refl] _ assms(3)] assms(1,2) by blast

theorem pass_keeps_store_ok_witness:
  "let w' = snd (run_state (reconcile sample_env 9 sample_config) (empty_world sample_db))
   in keys_ok (w_db w') \<and> rows_ok (w_db w')"
proof -
  obtain r w' where r: "run_state (reconcile sample_env 9 sample_config) (empty_world sample_db) = (r, w')"
    by fastforce
  have "keys_ok (w_db (empty_world sample_db))" "rows_ok (w_db (empty_world sample_db))"
    by (simp_all add: empty_world_def sample_db_ok)
  from pass_keeps_store_ok [OF this r] show ?thesis by (simp add: r)
qed

section \<open>The stored certificate\<close>

text \<open>What identifies the certificate a row holds.\<close>

definition material :: "cert_state \<Rightarrow> string \<times> string \<times> string \<times> string \<times> string" where
  "material st = (c_cert_pem st, c_key_pem st, c_cert_url st, c_deployed_cert_id st, c_ari_cert_id st)"

lemma material_put:
  "material (row_or_new n (put_cert t st d)) = (if c_name st = n then material st else material (row_or_new n d))"
  by (simp add: row_or_new_def rows cert_row_def material_def split: option.split)

lemma material_record_failure:
  "material (row_or_new n (record_failure t m e k u d)) = material (row_or_new n d)"
  by (auto simp: row_or_new_def get_record_failure empty_cert_def material_def split: option.split)

lemma get_cert_blind: "d_certs d' = d_certs d \<Longrightarrow> get_cert n d' = get_cert n d"
  by (simp add: get_cert_def)

lemma pass_op_certs:
  "pass_op x \<Longrightarrow> (\<forall>n e k u. x \<noteq> RecordFailure n e k u) \<Longrightarrow> d_certs (store_step t x d) = d_certs d"
  by (cases x) (auto simp: op_defs Let_def split: option.split)

lemma material_step: "pass_op x \<Longrightarrow> material (row_or_new n (store_step t x d)) = material (row_or_new n d)"
  using get_cert_blind [OF pass_op_certs, of x n t d] material_record_failure
  by (cases x) (simp_all add: row_or_new_def)

definition keeps_row :: "string \<Rightarrow> string \<times> string \<times> string \<times> string \<times> string \<Rightarrow> cert_state \<Rightarrow> bool" where
  "keeps_row n M st \<longleftrightarrow> c_name st = n \<longrightarrow> material st = M"

lemma material_update [simp]:
  "material (st\<lparr>c_failures := k, c_last_error := e, c_next_attempt_at := u\<rparr>) = material st"
  "material (st\<lparr>c_deploy_confirmed := b\<rparr>) = material st"
  "material (ari_state st u r) = material st"
  by (auto simp: material_def ari_state_def split: sum.split prod.split)

lemma ari_state_name [simp]: "c_name (ari_state st u r) = c_name st"
  by (auto simp: ari_state_def split: sum.split prod.split)

interpretation mat: pass_db "\<lambda>d. material (row_or_new nm d) = M" "keeps_row nm M" for nm M
  by unfold_locales
    (simp_all add: keeps_row_def material_step txt_flow flow_pass material_put)

section \<open>What is promoted was verified\<close>

definition vetted :: "env \<Rightarrow> string list \<Rightarrow> string \<Rightarrow> string \<Rightarrow> bool" where
  "vetted E ds chain key \<longleftrightarrow>
     (\<exists>l. e_parse_leaf E chain = Some l \<and> verify_coverage l ds = None \<and>
        key \<noteq> [] \<and> e_key_public E key = Some (lf_public_key l))"

definition holds :: "string \<Rightarrow> string \<times> string \<times> string \<times> string \<times> string \<Rightarrow> world \<Rightarrow> bool" where
  "holds n M w \<longleftrightarrow> material (row_or_new n (w_db w)) = M"

lemma holds_I: "holds n M = mat.I n M"
  by (simp add: holds_def fun_eq_iff)

definition renewed :: "env \<Rightarrow> string list \<Rightarrow> string \<Rightarrow> world \<Rightarrow> bool" where
  "renewed E ds n w \<longleftrightarrow> (let st = row_or_new n (w_db w) in vetted E ds (c_cert_pem st) (c_key_pem st))"

definition kept_or_renewed ::
  "env \<Rightarrow> string list \<Rightarrow> string \<Rightarrow> string \<times> string \<times> string \<times> string \<times> string \<Rightarrow> outcome \<Rightarrow> world \<Rightarrow> bool" where
  "kept_or_renewed E ds n M r w \<longleftrightarrow> holds n M w \<or> r = Done \<and> renewed E ds n w"

lemma post_kept: "inv (holds n M) m \<Longrightarrow> post (holds n M) m (kept_or_renewed E ds n M)"
  by (erule post_leaf) (simp add: kept_or_renewed_def)

lemma holds_rules:
  "keeps_row n M st \<Longrightarrow> inv (holds n M) (fail_pass E st e)"
  "inv (holds n M) (ret x)"
  "inv (holds n M) (ask f)" "inv (holds n M) (perform call h)"
  "inv (holds n M) (fallback_covered E c)" "inv (holds n M) (orphan_to_record E k i)"
  "inv (holds n M) (cleanup_orphan_txt E k)" "inv (holds n M) (discard_order E k)"
  "inv (holds n M) (book_issuance E c u)" "inv (holds n M) (deploy_cert E c st' r)"
  "inv (holds n M) (persist_order E r reply)" "inv (holds n M) (clear_order_fetch_failures u)"
  "inv (holds n M) (note_order_fetch_failure u)"
  "keeps_row n M st \<Longrightarrow> inv (holds n M) (solve_challenges E m c st reply)"
  "keeps_row n M st \<Longrightarrow> inv (holds n M) (await_and_persist E m st r want)"
  "keeps_row n M st \<Longrightarrow> inv (holds n M) (refuse_while_cooling_down E c st)"
  "keeps_row n M st \<Longrightarrow> inv (holds n M) (refuse_while_ca_locked_out E c st)"
  "inv (holds n M) (create_order_with_replaces_retry E c i)"
  "inv (holds n M) (store_write E (\<lambda>_. put_order r))"
  "keeps_row n M st \<Longrightarrow> inv (holds n M) (drop_order E c st what)"
  "inv (holds n M) (order_expired E r)" "inv (holds n M) (store_read E g)"
  "inv (holds n M) (drift_is_the_degradation E l c)"
  unfolding holds_I
  by (rule inv mat.fail_keeps mat.solve_keeps mat.await_keeps mat.refuse_keeps mat.drop_keeps; assumption)+

lemma material_tx:
  assumes "tx_exec t x d = Some d'" and "\<forall>p. x \<noteq> TxPutCert p"
  shows "material (row_or_new n d') = material (row_or_new n d)"
proof (cases x)
  case (TxPutCert p)
  then show ?thesis using assms(2) by simp
next
  case (TxAddRetired i m p k)
  then show ?thesis using assms(1) material_step [of "AddRetired i m p k" n t d] by simp
next
  case (TxDeleteOrder m)
  then show ?thesis using assms(1) material_step [of "DeleteOrder m" n t d] by simp
next
  case (TxClearFallback m)
  then show ?thesis using assms(1) material_step [of "ClearFallback m" n t d] by simp
next
  case (TxClearFailures m)
  then show ?thesis using assms(1) material_step [of "ClearIdentFailures m" n t d] by simp
qed

lemma tx_run_promotes:
  assumes "tx_run now f i (TxPutCert p # xs) d = Some d'" and "c_name p = n"
    and "\<forall>x \<in> set xs. \<forall>q. x \<noteq> TxPutCert q"
  shows "material (row_or_new n d') = material p"
proof -
  have "tx_run now f (Suc i) xs (put_cert now p d) = Some d'"
    using assms(1) by (simp split: if_splits)
  from mat.tx_run_db [where nm = n and M = "material p", OF _ this] assms(2,3) material_tx show ?thesis
    by (fastforce simp: material_put)
qed

lemma epilogue_promotes:
  assumes "c_name p = n" and "vetted E ds (c_cert_pem p) (c_key_pem p)"
  shows "post (holds n M) (store_tx E (epilogue_ops c st p dp orphan clear full))
    (\<lambda>e w. if e = None then renewed E ds n w else holds n M w)"
proof -
  obtain xs where xs: "epilogue_ops c st p dp orphan clear full = TxPutCert p # xs"
    "\<forall>x \<in> set xs. \<forall>q. x \<noteq> TxPutCert q"
    by (auto simp: epilogue_ops_def orphan_ops_def)
  have "renewed E ds n (w\<lparr>w_db := d'\<rparr>)" if "material (row_or_new n d') = material p" for w d'
    using that assms(2) by (auto simp: renewed_def material_def Let_def)
  moreover have "fst (with_tx t f (TxPutCert p # xs) d) \<Longrightarrow>
      material (row_or_new n (snd (with_tx t f (TxPutCert p # xs) d))) = material p" for t f d
    using with_tx_cases [of t f "TxPutCert p # xs" d] tx_run_promotes [OF _ assms(1) xs(2)] by metis
  moreover have "\<not> fst (with_tx t f (TxPutCert p # xs) d) \<Longrightarrow> snd (with_tx t f (TxPutCert p # xs) d) = d" for t f d
    using with_tx_cases [of t f "TxPutCert p # xs" d] by auto
  ultimately show ?thesis
    unfolding xs(1) by (auto simp: post_def store_tx_def holds_def case_prod_beta)
qed

lemma promote_renews:
  assumes "keeps_row n M st" and "c_name st = n" and "e_parse_leaf E chain = Some l"
    and "verify_coverage l (cc_domains c) = None" and "o_key_pem r \<noteq> []"
    and "verify_key_match E l (o_key_pem r) = None"
  shows "post (holds n M) (promote E c st r url chain l rd dp) (kept_or_renewed E (cc_domains c) n M)"
proof -
  have v: "vetted E (cc_domains c) chain (o_key_pem r)"
    using assms(3-6) by (auto simp: vetted_def verify_key_match_def split: option.splits if_splits)
  note tx = epilogue_promotes [where E = E and n = n and ds = "cc_domains c" and M = M]
  have e: "post (\<lambda>w. renewed E (cc_domains c) n w)
      (do { (if cc_export c then emit (Export (cc_name c)) else ret ()); ret Done })
      (kept_or_renewed E (cc_domains c) n M)"
    by (auto simp: post_def kept_or_renewed_def renewed_def)
  show ?thesis
    unfolding promote_def
    apply (rule post_keep, rule holds_rules)+
    apply (rule post_bind [OF tx])
      apply (use v assms(2) in \<open>simp_all add: promoted_row_def\<close>)[2]
    subgoal for now clear orphan x e
      using e by (cases e) (auto intro!: post_kept holds_rules assms(1))
    done
qed

lemma download_renews:
  assumes "keeps_row n M st" and "c_name st = n"
  shows "post (holds n M) (download E c st r reply rd) (kept_or_renewed E (cc_domains c) n M)"
  unfolding download_def install_def Let_def
  by (intro post_cases post_keep post_kept promote_renews holds_rules assms)
    (auto simp: replacement_refused_def split: if_splits)

lemma advance_renews:
  assumes "keeps_row n M st" and "c_name st = n"
  shows "post (holds n M) (advance E m c st r rd) (kept_or_renewed E (cc_domains c) n M)"
  unfolding advance_def unfetchable_order_def advance_invalid_def advance_pending_def finalize_def
    await_download_def Let_def
  by (intro post_cases post_keep download_renews assms | intro post_kept holds_rules assms)+

lemma issue_renews:
  assumes "keeps_row n M st" and "c_name st = n"
  shows "post (holds n M) (issue E m c st replaces rd) (kept_or_renewed E (cc_domains c) n M)"
  unfolding issue_def start_order_def
  by (intro post_cases post_keep advance_renews assms | intro post_kept holds_rules assms)+

lemma continue_renews:
  assumes "keeps_row n M st" and "c_name st = n"
  shows "post (holds n M) (continue_or_drop_order E m c st rd)
    (\<lambda>x w. case x of Inl r \<Rightarrow> kept_or_renewed E (cc_domains c) n M r w | Inr b \<Rightarrow> holds n M w)"
proof -
  have d: "post (holds n M) (drop_order E c st what)
      (\<lambda>x w. case x of Inl r \<Rightarrow> kept_or_renewed E (cc_domains c) n M r w | Inr b \<Rightarrow> holds n M w)" for what
    by (rule post_leaf [OF holds_rules(20) [OF assms(1)]]) (simp add: kept_or_renewed_def split: sum.split)
  have f: "post (holds n M) (do { r \<leftarrow> fail_pass E st e; ret (Inl r) })
      (\<lambda>x w. case x of Inl r \<Rightarrow> kept_or_renewed E (cc_domains c) n M r w | Inr b \<Rightarrow> holds n M w)" for e
    by (rule post_keep [OF holds_rules(1) [OF assms(1)]]) (simp add: post_def kept_or_renewed_def)
  have a: "post (holds n M) (do { r \<leftarrow> advance E m c st q rd; ret (Inl r) })
      (\<lambda>x w. case x of Inl r \<Rightarrow> kept_or_renewed E (cc_domains c) n M r w | Inr b \<Rightarrow> holds n M w)" for q
    by (rule post_bind [OF advance_renews [OF assms]]) (simp add: post_def)
  show ?thesis
    unfolding continue_or_drop_order_def
    by (intro post_cases post_keep holds_rules d f a) (simp add: post_def)
qed

lemma renew_renews:
  assumes "keeps_row n M st" and "c_name st = n"
  shows "post (holds n M) (renew_if_due E m c st rd) (kept_or_renewed E (cc_domains c) n M)"
proof -
  have r: "answers (renewal_decision E c st) (\<lambda>d. keeps_row n M (dc_state d) \<and> c_name (dc_state d) = n)"
    unfolding renewal_decision_def
    by (intro answers_cases answers_bind_any answers_ret)
      (use assms in \<open>auto simp: keeps_row_def split: option.split\<close>)
  have i: "inv (holds n M) (renewal_decision E c st)"
    unfolding holds_I by (rule mat.renewal_keeps [OF assms(1)])
  show ?thesis
    unfolding renew_if_due_def
    apply (rule post_keep_answers [OF i r])
    apply (intro post_cases post_keep holds_rules issue_renews post_kept | erule conjE, assumption)+
    done
qed

lemma decide_renews:
  assumes "keeps_row n M st" and "c_name st = n"
  shows "post (holds n M) (decide E m c st rd) (kept_or_renewed E (cc_domains c) n M)"
proof -
  have a: "answers (confirm_binding_if_due E c st) (\<lambda>s. keeps_row n M s \<and> c_name s = n)"
    unfolding confirm_binding_if_due_def confirm_binding_def
    by (intro answers_cases answers_bind_any answers_ret) (use assms in \<open>auto simp: keeps_row_def\<close>)
  have i: "inv (holds n M) (confirm_binding_if_due E c st)"
    unfolding holds_I by (rule mat.confirm_keeps [OF assms(1)])
  have d: "post (holds n M) (reissue_on_san_drift E m c s rd)
      (\<lambda>x w. case x of Some r \<Rightarrow> kept_or_renewed E (cc_domains c) n M r w | None \<Rightarrow> holds n M w)"
    if "keeps_row n M s" "c_name s = n" for s
  proof -
    have s: "post (holds n M) (do { r \<leftarrow> issue E m c s i rd; ret (Some r) })
      (\<lambda>x w. case x of Some r \<Rightarrow> kept_or_renewed E (cc_domains c) n M r w | None \<Rightarrow> holds n M w)" for i
      by (rule post_bind [OF issue_renews [OF that]]) (simp add: post_def)
    have k: "post (holds n M) (ret None)
      (\<lambda>x w. case x of Some r \<Rightarrow> kept_or_renewed E (cc_domains c) n M r w | None \<Rightarrow> holds n M w)"
      by (simp add: post_def)
    show ?thesis
      unfolding reissue_on_san_drift_def
      by (intro post_cases post_keep inv_if holds_rules s k)
  qed
  have e: "post (\<lambda>w. case x of Some r \<Rightarrow> kept_or_renewed E (cc_domains c) n M r w | None \<Rightarrow> holds n M w)
      (case x of Some r \<Rightarrow> ret r | None \<Rightarrow> renew_if_due E m c s rd) (kept_or_renewed E (cc_domains c) n M)"
    if "keeps_row n M s" "c_name s = n" for x s
    using renew_renews [OF that] by (cases x) (simp_all add: post_def)
  show ?thesis
    unfolding decide_def
    apply (rule post_if, rule issue_renews [OF assms])
    apply (rule post_keep_answers [OF i a])
    apply (rule post_bind [OF d]; (elim conjE)?)
      apply assumption+
    apply (rule e; assumption)
    done
qed

text \<open>A pass over one certificate leaves the rows of the others as they are.\<close>

interpretation other: pass_db_all "\<lambda>d. nm \<noteq> name \<longrightarrow> material (row_or_new nm d) = M" "\<lambda>st. c_name st = name" name
  for nm M name
proof (unfold_locales, goal_cases)
  case (10 x d t d')
  then show ?case using material_tx [of t x d d' nm] by (cases "\<exists>p. x = TxPutCert p") (auto simp: material_put)
qed (simp_all add: material_step txt_flow flow_pass material_put promoted_row_def)

lemma load_round_row:
  "answers (load_round E c) (\<lambda>x. case x of Inl _ \<Rightarrow> True | Inr (st, rd) \<Rightarrow> c_name st = cc_name c)"
  by (rule other.load_row) simp

lemma run_load_round:
  assumes "run_state (load_round E c) w = (Inr (st, rd), w')"
  shows "st = row_or_new (cc_name c) (w_db w)"
  using assms by (auto simp: load_round_def split: if_splits sum.splits prod.splits)

lemma apply_fallback_names:
  "answers (apply_fallback E c st rd)
     (\<lambda>(c', rd'). cc_name c' = cc_name c \<and> (c' = c \<or> set (cc_domains c') \<subseteq> set (cc_domains c) \<and> rd_degraded rd'))"
proof -
  have s: "set (fst x) \<subseteq> set (cc_domains c)" if "x = split_names p c st h l b" for x p h l b
    unfolding that by (auto simp: split_names_def Let_def)
  have f: "answers (fallback_domains E c st h) (\<lambda>(kept, dropped, reason). set kept \<subseteq> set (cc_domains c))" for h
    unfolding fallback_domains_def
    by (intro answers_cases answers_bind_any answers_ret)
      (auto simp: split_names_def Let_def split: if_splits)
  show ?thesis
    unfolding apply_fallback_def
    apply (rule answers_bind_any)
    apply (rule answers_bind [OF f])
    apply (auto intro!: answers_cases answers_bind_any answers_ret)
    done
qed

lemma reconcile_renews:
  assumes "st = row_or_new (cc_name cfg) (w_db w)" and "run_state (reconcile E m cfg) w = (r, w')"
  shows "\<exists>ds. set ds \<subseteq> set (cc_domains cfg) \<and> kept_or_renewed E ds (cc_name cfg) (material st) r w'"
proof -
  let ?n = "cc_name cfg" and ?M = "material st"
  let ?Q = "\<lambda>r w. \<exists>ds. set ds \<subseteq> set (cc_domains cfg) \<and> kept_or_renewed E ds ?n ?M r w"
  have h: "holds ?n ?M w" using assms(1) by (simp add: holds_def)
  have q: "kept_or_renewed E ds ?n ?M r' w'' \<Longrightarrow> ?Q r' w''" if "set ds \<subseteq> set (cc_domains cfg)" for ds r' w''
    using that by blast
  have k: "?Q r' w''" if "holds ?n ?M w''" for r' w''
    by (rule q [of "[]"]) (use that in \<open>simp_all add: kept_or_renewed_def\<close>)
  have a: "inv (holds ?n ?M) (apply_fallback E cfg st' rd)" "inv (holds ?n ?M) (honour_backoff E st')"
    "inv (holds ?n ?M) (load_round E cfg)" for st' rd
    unfolding holds_I by (rule inv)+
  have c: "post (holds ?n ?M)
      (do {
        x \<leftarrow> continue_or_drop_order E m c st rd;
        case x of
          Inl res \<Rightarrow> ret res
        | Inr discarded \<Rightarrow> do {
            (if discarded then ret None else cleanup_orphan_txt E (cc_name c));
            decide E m c st rd } }) ?Q"
    if "cc_name c = ?n" "set (cc_domains c) \<subseteq> set (cc_domains cfg)" "keeps_row ?n ?M st" "c_name st = ?n" for c st rd
  proof (rule post_bind [OF continue_renews [OF that(3,4)]])
    fix x
    have d: "post (holds ?n ?M) (do { (if b then ret None else cleanup_orphan_txt E (cc_name c)); decide E m c st rd }) ?Q" for b
      by (rule post_keep, intro inv_if holds_rules,
          rule post_conseq [OF decide_renews [OF that(3,4)]], assumption, erule q [OF that(2)])
    show "post (\<lambda>w. case x of Inl r \<Rightarrow> kept_or_renewed E (cc_domains c) ?n ?M r w | Inr b \<Rightarrow> holds ?n ?M w)
      (case x of Inl res \<Rightarrow> ret res | Inr discarded \<Rightarrow> do {
            (if discarded then ret None else cleanup_orphan_txt E (cc_name c)); decide E m c st rd }) ?Q"
      using d q [OF that(2)] by (cases x) (auto simp: post_def)
  qed
  have rr: "post (holds ?n ?M) (run_round E m cfg st rd) ?Q" for rd
    unfolding run_round_def
  proof (rule post_keep_answers [OF a(1) apply_fallback_names], goal_cases)
    case (1 x)
    obtain c rd' where x: "x = (c, rd')" by fastforce
    have cn: "cc_name c = ?n" "set (cc_domains c) \<subseteq> set (cc_domains cfg)" using 1 x by auto
    have st: "keeps_row ?n ?M st" "c_name st = ?n" using assms(1) by (simp_all add: keeps_row_def)
    show ?case unfolding x prod.case Let_def by (rule c [OF cn st])
  qed
  obtain x w1 where x: "run_state (load_round E cfg) w = (x, w1)" by fastforce
  have h1: "holds ?n ?M w1" using inv_run [OF a(3) h x] .
  show ?thesis
  proof (cases x)
    case (Inl r0)
    then show ?thesis using assms(2) x k h1 by (auto simp: reconcile_def)
  next
    case (Inr p)
    then obtain rd where p: "x = Inr (st, rd)" using run_load_round x assms(1) by (cases p) blast
    have "post (holds ?n ?M) (do { blocked \<leftarrow> honour_backoff E st; if blocked then ret InBackoff else run_round E m cfg st rd }) ?Q"
      by (intro post_keep a post_if rr) (use k in \<open>simp add: post_def\<close>)
    moreover have "run_state (do { blocked \<leftarrow> honour_backoff E st; if blocked then ret InBackoff else run_round E m cfg st rd }) w1 = (r, w')"
      using assms(2) x p by (simp add: reconcile_def)
    ultimately show ?thesis using h1 post_run by fastforce
  qed
qed



end
