(* ===== verification/CallProps.thy ===== *)
theory CallProps
  imports CallLaws
begin

text \<open>
  How many calls of which kind a pass makes: orders, accepted challenges, and no call at all inside
  a backoff window.
\<close>

section \<open>Orders\<close>

fun is_new_order :: "call \<Rightarrow> bool" where
  "is_new_order (NewOrder ds p r) = True"
| "is_new_order c = False"

definition new_orders :: "call list \<Rightarrow> nat" where
  "new_orders cs = length (filter is_new_order cs)"

interpretation orders: quiet_ca "\<lambda>cs. Q (new_orders cs)" is_new_order for Q
  by unfold_locales (auto simp: new_orders_def elim: is_new_order.elims)

definition ordered :: "(nat \<Rightarrow> bool) \<Rightarrow> world \<Rightarrow> bool" where
  "ordered Q w \<longleftrightarrow> Q (new_orders (w_calls w))"

lemma ordered_K: "ordered Q = orders.K Q"
  by (simp add: ordered_def fun_eq_iff)

lemma advance_orders_none: "inv (ordered Q) (advance E n c st r rd)"
  unfolding ordered_K by (rule orders.advance_quiet) (rule orders.solve_quiet orders.finalize_quiet; simp)+

lemma create_order_count:
  "post (ordered (\<lambda>m. m = k)) (create_order_with_replaces_retry E c replaces)
     (\<lambda>x w. ordered (\<lambda>m. m \<le> (if replaces = [] then k + 1 else k + 2)) w)"
proof -
  have p: "post (ordered (\<lambda>m. m = j)) (place_order E c i) (\<lambda>x. ordered (\<lambda>m. m = j + 1))" for i j
    by (simp add: post_def place_order_def ordered_def new_orders_def)
  have q: "inv (ordered Q) (note_new_order_refusal E c e)" "inv (ordered Q) (spend_new_order E)" for Q e
    unfolding ordered_K by (rule inv)+
  have s: "post (ordered (\<lambda>m. m = k + 1)) (ret x) (\<lambda>x. ordered (\<lambda>m. m \<le> (if replaces = [] then k + 1 else k + 2)))" for x
    by (simp add: post_def ordered_def)
  have t: "post (ordered (\<lambda>m. m = k + 1 + 1)) (ret x) (\<lambda>x. ordered (\<lambda>m. m \<le> (if replaces = [] then k + 1 else k + 2)))"
    if "replaces \<noteq> []" for x
    using that by (simp add: post_def ordered_def)
  show ?thesis
    unfolding create_order_with_replaces_retry_def
    apply (rule post_bind [OF p])
    apply (intro post_sum post_keep [OF q(2)] post_keep [OF q(1)] s post_if)
    apply (rule post_bind [OF p])
    apply (intro post_sum post_keep [OF q(2)] post_keep [OF q(1)] t; simp)
    done
qed

lemma ordered_le: "post (ordered (\<lambda>m. m = k)) m (\<lambda>_. ordered (\<lambda>m. m = k)) \<Longrightarrow>
    post (ordered (\<lambda>m. m = k)) m (\<lambda>_. ordered (\<lambda>m. m \<le> k + 2))"
  by (erule post_conseq) (simp_all add: ordered_def)

lemma ordered_rules:
  "inv (ordered Q) (ret x)" "inv (ordered Q) (ask f)" "inv (ordered Q) (fail_pass E st e)"
  "inv (ordered Q) (refuse_while_cooling_down E c st)" "inv (ordered Q) (refuse_while_ca_locked_out E c st)"
  "inv (ordered Q) (store_write E g)" "inv (ordered Q) (advance E n c st r rd)"
  "inv (ordered Q) (continue_or_drop_order E n c st rd)" "inv (ordered Q) (cleanup_orphan_txt E i)"
  "inv (ordered Q) (confirm_binding_if_due E c st)" "inv (ordered Q) (renewal_decision E c st)"
  "inv (ordered Q) (apply_fallback E c st rd)" "inv (ordered Q) (load_round E c)"
  "inv (ordered Q) (honour_backoff E st)" "inv (ordered Q) (drift_is_the_degradation E l c)"
  unfolding ordered_K
  by (rule inv orders.continue_quiet advance_orders_none [unfolded ordered_K])+

lemma ordered_leaf: "inv (ordered (\<lambda>m. m = k)) m \<Longrightarrow> post (ordered (\<lambda>m. m = k)) m (\<lambda>_. ordered (\<lambda>m. m \<le> k + 2))"
  by (erule post_leaf) (simp add: ordered_def)

lemma ordered_done: "inv (ordered (\<lambda>m. m \<le> k)) m \<Longrightarrow> post (ordered (\<lambda>m. m \<le> k)) m (\<lambda>_. ordered (\<lambda>m. m \<le> k))"
  by (rule post_inv)

lemma issue_count: "post (ordered (\<lambda>m. m = k)) (issue E n c st replaces rd) (\<lambda>_. ordered (\<lambda>m. m \<le> k + 2))"
proof -
  have c: "post (ordered (\<lambda>m. m = k)) (create_order_with_replaces_retry E c replaces) (\<lambda>_. ordered (\<lambda>m. m \<le> k + 2))"
    by (rule post_conseq [OF create_order_count]) (auto simp: ordered_def split: if_splits)
  have s: "post (ordered (\<lambda>m. m = k)) (start_order E n c st replaces rd) (\<lambda>_. ordered (\<lambda>m. m \<le> k + 2))"
    unfolding start_order_def
    apply (rule post_keep, rule ordered_rules)
    apply (rule post_option, rule ordered_leaf, rule ordered_rules)
    apply (rule post_bind [OF c])
    apply (rule ordered_done)
    apply (intro inv_sum inv_if inv_bind inv_option ordered_rules)
    done
  show ?thesis
    unfolding issue_def
    by (intro post_keep ordered_rules post_option s | rule ordered_leaf)+
qed

lemma reissue_count:
  "post (ordered (\<lambda>m. m = k)) (reissue_on_san_drift E n c st rd)
     (\<lambda>x. ordered (\<lambda>m. if x = None then m = k else m \<le> k + 2))"
proof -
  have r: "post (ordered (\<lambda>m. m = k)) (ret None) (\<lambda>x. ordered (\<lambda>m. if x = None then m = k else m \<le> k + 2))"
    by (simp add: post_def)
  have s: "post (ordered (\<lambda>m. m = k)) (do { r \<leftarrow> issue E n c st i rd; ret (Some r) })
      (\<lambda>x. ordered (\<lambda>m. if x = None then m = k else m \<le> k + 2))" for i
    by (rule post_bind [OF issue_count]) (simp add: post_def)
  show ?thesis
    unfolding reissue_on_san_drift_def
    by (intro post_cases post_keep inv_if ordered_rules r s)
qed

lemma renew_count: "post (ordered (\<lambda>m. m = k)) (renew_if_due E n c st rd) (\<lambda>_. ordered (\<lambda>m. m \<le> k + 2))"
  unfolding renew_if_due_def
  by (rule post_keep, rule ordered_rules) (intro post_cases post_keep issue_count | rule ordered_rules ordered_leaf)+

lemma decide_count: "post (ordered (\<lambda>m. m = k)) (decide E n c st rd) (\<lambda>_. ordered (\<lambda>m. m \<le> k + 2))"
proof -
  have e: "post (ordered (\<lambda>m. if x = None then m = k else m \<le> k + 2))
      (case x of Some r \<Rightarrow> ret r | None \<Rightarrow> renew_if_due E n c s rd) (\<lambda>_. ordered (\<lambda>m. m \<le> k + 2))" for x s
    using renew_count [of k E n c s rd] by (cases x) (simp_all add: post_def)
  show ?thesis
    unfolding decide_def
    by (intro post_if issue_count post_keep ordered_rules post_bind [OF reissue_count] e)
qed

text \<open>
  C30. A pass places at most two orders, the second one being the retry without \<open>replaces\<close>, whatever
  the CA answers, wherever the store fails and however the clock moves: no loop of the pass can run
  through the account's order quota.
\<close>

theorem orders_are_bounded:
  assumes "run_state (reconcile E n cfg) w = (r, w')"
  shows "new_orders (w_calls w') \<le> new_orders (w_calls w) + 2"
proof -
  have d: "post (ordered (\<lambda>m. m = k)) (run_round E n cfg st rd) (\<lambda>_. ordered (\<lambda>m. m \<le> k + 2))" for k st rd
    unfolding run_round_def Let_def
    by (intro post_keep post_cases decide_count inv_if ordered_rules | rule ordered_leaf ordered_rules)+
  have "post (ordered (\<lambda>m. m = k)) (reconcile E n cfg) (\<lambda>_. ordered (\<lambda>m. m \<le> k + 2))" for k
    unfolding reconcile_def
    by (intro post_keep post_cases d ordered_rules | rule ordered_leaf ordered_rules)+
  from post_run [OF this _ assms, of "new_orders (w_calls w)"] show ?thesis by (simp add: ordered_def)
qed

theorem orders_are_bounded_witness:
  "new_orders (w_calls (snd (run_state (reconcile sample_env 9 sample_config) (empty_world empty_db)))) \<le> 2"
proof -
  obtain r w' where r: "run_state (reconcile sample_env 9 sample_config) (empty_world empty_db) = (r, w')"
    by fastforce
  have "new_orders (w_calls (empty_world empty_db)) = 0" by (simp add: empty_world_def new_orders_def)
  then show ?thesis using orders_are_bounded [OF r] by (simp add: r)
qed

section \<open>An order in progress\<close>

definition in_progress :: "string \<Rightarrow> acme_order \<Rightarrow> nat \<Rightarrow> world \<Rightarrow> bool" where
  "in_progress n q k w \<longleftrightarrow> get_order n (w_db w) = Some q \<and> new_orders (w_calls w) = k"

interpretation op: pass_inv "in_progress n q k" for n q k
  by unfold_locales (simp add: in_progress_def)

lemma get_order_fallback:
  "get_order n (put_fallback f d) = get_order n d" "get_order n (clear_fallback m d) = get_order n d"
  "get_order n (prune_identifier_failures m t a d) = get_order n d"
  by (simp_all add: get_order_def put_fallback_def clear_fallback_def prune_identifier_failures_def)

lemma in_progress_rules:
  "inv (in_progress n q k) (ret x)" "inv (in_progress n q k) (ask f)" "inv (in_progress n q k) (store_read E g)"
  "inv (in_progress n q k) (honour_backoff E st)" "inv (in_progress n q k) (apply_fallback E c st rd)"
proof -
  show "inv (in_progress n q k) (ret x)" "inv (in_progress n q k) (ask f)" "inv (in_progress n q k) (store_read E g)"
    for f :: "nat \<Rightarrow> 'z" and g :: "db \<Rightarrow> 'y"
    by (rule inv op.reads_keep)+
  have m: "inv (in_progress n q k) (modify f)" if "\<And>w. w_db (f w) = w_db w \<and> w_calls (f w) = w_calls w" for f
    using that by (simp add: inv_def in_progress_def)
  show "inv (in_progress n q k) (honour_backoff E st)"
    unfolding honour_backoff_def transient_backoff_for_def by (intro inv op.reads_keep m) simp
  have w: "inv (in_progress n q k) (store_write E (\<lambda>_. put_fallback f))"
    "inv (in_progress n q k) (store_write E (\<lambda>_. clear_fallback m))"
    "inv (in_progress n q k) (store_write E (\<lambda>_. prune_identifier_failures m t a))" for f m t a
    by (rule op.store_write_keeps; simp add: in_progress_def get_order_fallback)+
  show "inv (in_progress n q k) (apply_fallback E c st rd)"
    unfolding apply_fallback_def prune_fallback_def fallback_domains_def by (intro inv op.reads_keep w)
qed

lemma in_progress_leaf:
  "inv (ordered (\<lambda>m. m = k)) m \<Longrightarrow> post (in_progress n q k) m (\<lambda>_. ordered (\<lambda>m. m = k))"
  by (rule post_conseq [OF post_inv [of "ordered (\<lambda>m. m = k)" m]]) (auto simp: ordered_def in_progress_def)

lemma no_policy_no_change:
  "fallback_policy E c = None \<Longrightarrow> answers (apply_fallback E c st rd) (\<lambda>(c', rd'). c' = c)"
  unfolding apply_fallback_def fallback_domains_def
  by (rule answers_bind_any, rule answers_bind [where S = "\<lambda>(kept, dropped, reason). dropped = []"])
    (auto intro!: answers_ret answers_bind_any split: prod.split)

text \<open>
  C28. While an order is in progress that is unexpired and was placed for the configured names, a
  pass places no order at all: whatever the CA answers, wherever the store fails and however the
  previous pass ended, the issuance already paid for is resumed. (With a degradation policy the
  names of a pass may differ from the configured ones; the policy is off here.)
\<close>

theorem order_in_progress_is_resumed:
  assumes "get_order (cc_name cfg) (w_db w) = Some q" and "order_matches_config q cfg"
    and "o_expires_at q = zero_time \<or> (\<forall>k. e_now E k < o_expires_at q)"
    and "fallback_policy E cfg = None" and "run_state (reconcile E n cfg) w = (r, w')"
  shows "new_orders (w_calls w') = new_orders (w_calls w)"
proof -
  let ?P = "in_progress (cc_name cfg) q (new_orders (w_calls w))"
  let ?Q = "\<lambda>_. ordered (\<lambda>m. m = new_orders (w_calls w))"
  have e: "answers (order_expired E q) (\<lambda>b. \<not> b)"
    using assms(3) by (auto simp: answers_def order_expired_def)
  have ei: "inv ?P (order_expired E q)"
    unfolding order_expired_def by (intro inv in_progress_rules)
  have g: "post ?P (store_read E (get_order (cc_name cfg)))
      (\<lambda>x w. ?P w \<and> (\<forall>y. x = Inr y \<longrightarrow> y = Some q))"
    by (auto simp: post_def in_progress_def)
  have f: "post ?P (do { r \<leftarrow> fail_pass E st t; ret (Inl r) }) (\<lambda>x w. isl x \<and> ?Q x w)" for st t
    by (rule post_bind [OF in_progress_leaf [OF ordered_rules(3)]]) (simp add: post_def)
  have a: "post ?P (do { res \<leftarrow> advance E n cfg st q rd; ret (Inl res) }) (\<lambda>x w. isl x \<and> ?Q x w)" for st rd
    by (rule post_bind [OF in_progress_leaf [OF ordered_rules(7)]]) (simp add: post_def)
  have c: "post ?P (continue_or_drop_order E n cfg st rd) (\<lambda>x w. isl x \<and> ?Q x w)" for st rd
    unfolding continue_or_drop_order_def
  proof (rule post_bind [OF g])
    fix x
    have m: "post ?P (do { expired \<leftarrow> order_expired E q;
        if expired then drop_order E cfg st ''expired order''
        else if \<not> order_matches_config q cfg then drop_order E cfg st ''order for the changed domain set''
        else do { res \<leftarrow> advance E n cfg st q rd; ret (Inl res) } }) (\<lambda>x w. isl x \<and> ?Q x w)"
      by (rule post_keep_answers [OF ei e]) (use a assms(2) in simp)
    show "post (\<lambda>w. ?P w \<and> (\<forall>y. x = Inr y \<longrightarrow> y = Some q))
      (case x of Inl e \<Rightarrow> do { r \<leftarrow> fail_pass E st (''read the order in progress: '' @ e); ret (Inl r) }
       | Inr None \<Rightarrow> ret (Inr False)
       | Inr (Some r) \<Rightarrow> do { expired \<leftarrow> order_expired E r;
           if expired then drop_order E cfg st ''expired order''
           else if \<not> order_matches_config r cfg then drop_order E cfg st ''order for the changed domain set''
           else do { res \<leftarrow> advance E n cfg st r rd; ret (Inl res) } }) (\<lambda>x w. isl x \<and> ?Q x w)"
    proof (cases x)
      case (Inl e)
      show ?thesis unfolding Inl sum.case by (rule post_conseq [OF f]) simp_all
    next
      case (Inr y)
      show ?thesis
      proof (cases "y = Some q")
        case True
        show ?thesis unfolding Inr True sum.case option.case by (rule post_conseq [OF m]) simp_all
      qed (simp add: Inr post_def)
    qed
  qed
  have rr: "post ?P (run_round E n cfg st rd) ?Q" for st rd
    unfolding run_round_def Let_def
  proof (rule post_keep_answers [OF in_progress_rules(5) no_policy_no_change [OF assms(4)]], goal_cases)
    case (1 x)
    then obtain rd' where x: "x = (cfg, rd')" by (cases x) auto
    have "post (\<lambda>w. isl y \<and> ?Q y w) (case y of Inl res \<Rightarrow> ret res | Inr d \<Rightarrow> h d) ?Q" for y and h :: "bool \<Rightarrow> outcome pass"
      by (cases y) (simp_all add: post_def)
    then show ?case unfolding x prod.case by (rule post_bind [OF c])
  qed
  have i: "inv (ordered (\<lambda>m. m = new_orders (w_calls w))) (fail_unreadable E i t)" for i t
    unfolding ordered_K by (rule inv)
  have "post ?P (reconcile E n cfg) ?Q"
    unfolding reconcile_def load_round_def
    apply (rule post_bind [where R = "\<lambda>x w. (isl x \<longrightarrow> ?Q x w) \<and> (\<not> isl x \<longrightarrow> ?P w)"])
     apply (rule post_keep, rule in_progress_rules)
     apply (rule post_sum)
      apply (rule post_bind [OF in_progress_leaf [OF i]], simp add: post_def)
     apply (rule post_keep, rule in_progress_rules, simp add: post_def)
    subgoal for x
    proof (cases x)
      case (Inr p)
      obtain st rd where p: "p = (st, rd)" by fastforce
      have "post ?P (do { blocked \<leftarrow> honour_backoff E st; if blocked then ret InBackoff else run_round E n cfg st rd }) ?Q"
        by (rule post_keep, rule in_progress_rules)
          (intro post_if rr in_progress_leaf ordered_rules)
      then show ?thesis by (simp add: Inr p)
    qed (simp add: post_def)
    done
  from post_run [OF this _ assms(5)] show ?thesis
    using assms(1) by (simp add: ordered_def in_progress_def)
qed

theorem order_in_progress_is_resumed_witness:
  "new_orders (w_calls (snd (run_state (reconcile sample_env 9 sample_config)
     (empty_world (put_order (signed_order\<lparr>o_expires_at := zero_time\<rparr>) empty_db))))) = 0"
proof -
  let ?q = "signed_order\<lparr>o_expires_at := zero_time\<rparr>"
  let ?w = "empty_world (put_order ?q empty_db)"
  obtain r w' where r: "run_state (reconcile sample_env 9 sample_config) ?w = (r, w')" by fastforce
  have "get_order (cc_name sample_config) (w_db ?w) = Some ?q"
    by (simp add: empty_world_def get_put_order signed_order_def sample_config_def)
  moreover have "order_matches_config ?q sample_config"
    by (simp add: order_matches_config_def signed_order_def)
  moreover have "o_expires_at ?q = zero_time \<or> (\<forall>k. e_now sample_env k < o_expires_at ?q)" by simp
  moreover have "fallback_policy sample_env sample_config = None"
    by (simp add: fallback_policy_def sample_config_def sample_env_def)
  ultimately have "new_orders (w_calls w') = new_orders (w_calls ?w)"
    using r by (rule order_in_progress_is_resumed)
  moreover have "new_orders (w_calls ?w) = 0" by (simp add: empty_world_def new_orders_def)
  ultimately show ?thesis by (simp only: r snd_conv)
qed

section \<open>Challenges\<close>

fun is_accept :: "call \<Rightarrow> bool" where
  "is_accept (AcceptChallenge u) = True"
| "is_accept c = False"

definition accepted :: "call list \<Rightarrow> nat" where
  "accepted cs = length (filter is_accept cs)"

interpretation accepts: quiet_ca "\<lambda>cs. accepted cs = k" is_accept for k
  by unfold_locales (auto simp: accepted_def elim: is_accept.elims)

lemma unpropagated_solve:
  assumes "\<And>k. e_wait_all E k \<noteq> None"
  shows "inv (accepts.K k) (solve_challenges E n c st reply)"
proof -
  have w: "answers (wait_all E recs) (\<lambda>r. r \<noteq> None)" for recs
    unfolding wait_all_def
    by (rule answers_bind [OF answers_perform [where R = "\<lambda>r. r \<noteq> None"]])
      (use assms in \<open>auto intro!: answers_bind_any answers_ret split: option.split\<close>)
  have s: "inv (accepts.K k) (solve_scanned E n st sv)" for sv
    unfolding solve_scanned_def mark_resumed_unpresented_def
    by (intro inv inv_bind_answers [OF accepts.lease_quiet(5) w]) simp
  show ?thesis
    unfolding solve_challenges_def discard_invalid_def by (intro inv s)
qed

text \<open>
  C29. No challenge is accepted before its record has propagated: in a pass in which the wait for
  propagation never succeeds, the CA is never asked to validate a name, so a DNS outage spends no
  failed-authorization budget.
\<close>

theorem propagation_precedes_validation:
  assumes "\<And>k. e_wait_all E k \<noteq> None" and "run_state (reconcile E n cfg) w = (r, w')"
  shows "accepted (w_calls w') = accepted (w_calls w)"
proof -
  have "inv (accepts.K k) (reconcile E n cfg)" for k
    by (rule accepts.reconcile_quiet)
      (rule unpropagated_solve [OF assms(1)] accepts.finalize_quiet | simp add: place_order_def inv)+
  from inv_run [OF this _ assms(2)] show ?thesis by blast
qed

theorem propagation_precedes_validation_witness:
  "accepted (w_calls (snd (run_state (reconcile
     (sample_env\<lparr>e_wait_all := \<lambda>_. Some (''timeout'', False, 0), e_new_order := \<lambda>_. Inr (signed_reply\<lparr>e_status := ''pending''\<rparr>)\<rparr>)
     9 sample_config) (empty_world empty_db)))) = 0"
proof -
  let ?E = "sample_env\<lparr>e_wait_all := \<lambda>_. Some (''timeout'', False, 0), e_new_order := \<lambda>_. Inr (signed_reply\<lparr>e_status := ''pending''\<rparr>)\<rparr>"
  obtain r w' where r: "run_state (reconcile ?E 9 sample_config) (empty_world empty_db) = (r, w')" by fastforce
  have "\<And>k. e_wait_all ?E k \<noteq> None" by simp
  from propagation_precedes_validation [OF this r] show ?thesis
    by (simp add: r) (simp add: empty_world_def accepted_def)
qed

section \<open>Inside a backoff window\<close>

interpretation silent: quiet "\<lambda>cs. cs = x" "\<lambda>_. True" for x
  by unfold_locales simp

definition closed_until :: "string \<Rightarrow> instant \<Rightarrow> world \<Rightarrow> bool" where
  "closed_until n t w \<longleftrightarrow> map_of (w_transient w) n = Some t \<or>
     map_of (w_transient w) n = None \<and> t \<noteq> zero_time \<and> c_next_attempt_at (row_or_new n (w_db w)) = t"

text \<open>
  Inside a backoff window a pass does nothing: no call to the CA, the DNS provider or the cloud,
  and no write, except that a row that cannot be read counts as one more failure.
\<close>

theorem backoff_pass_is_silent:
  assumes "closed_until (cc_name cfg) t w" and "\<And>k. e_now E k < t"
    and "run_state (reconcile E n cfg) w = (r, w')"
  shows "w_calls w' = w_calls w \<and> (if e_fault E (w_tick w) then r \<noteq> Done else r = InBackoff \<and> w_db w' = w_db w)"
proof (cases "e_fault E (w_tick w)")
  case True
  have q: "inv (silent.K (w_calls w)) (fail_unreadable E i e)" for i e
    unfolding fail_unreadable_def set_transient_backoff_def
    by (intro inv silent.modify_quiet) (simp add: set_transient_def)
  have a: "answers (fail_unreadable E i e) (\<lambda>r. r \<noteq> Done)" for i e
    unfolding fail_unreadable_def Let_def
    by (intro answers_cases answers_bind_any answers_ret) simp_all
  obtain x w1 where x: "run_state (fail_unreadable E (cc_name cfg) (''read the certificate state: '' @ e_store_error E (w_tick w)))
      (w\<lparr>w_tick := Suc (w_tick w)\<rparr>) = (x, w1)" by fastforce
  have "w_calls w1 = w_calls w" using inv_run [OF q _ x] by simp
  moreover have "x \<noteq> Done"
    using a [unfolded answers_def, rule_format, of "cc_name cfg" _ "w\<lparr>w_tick := Suc (w_tick w)\<rparr>"] x by (metis fst_conv)
  moreover have "r = x" "w' = w1"
    using assms(3) True x by (simp_all add: reconcile_def load_round_def)
  ultimately show ?thesis using True by simp
next
  case False
  obtain st rd where l: "run_state (load_round E cfg) w = (Inr (st, rd), w\<lparr>w_tick := Suc (Suc (w_tick w))\<rparr>)"
    using False by (simp add: load_round_def)
  have st: "st = row_or_new (cc_name cfg) (w_db w)"
    using l False by (simp add: load_round_def)
  have "fst (run_state (honour_backoff E st) (w\<lparr>w_tick := Suc (Suc (w_tick w))\<rparr>))"
    "w_calls (snd (run_state (honour_backoff E st) (w\<lparr>w_tick := Suc (Suc (w_tick w))\<rparr>))) = w_calls w"
    "w_db (snd (run_state (honour_backoff E st) (w\<lparr>w_tick := Suc (Suc (w_tick w))\<rparr>))) = w_db w"
    using assms(1,2) unfolding closed_until_def st
    by (auto simp: honour_backoff_def transient_backoff_for_def)
  then show ?thesis
    using assms(3) l False by (auto simp: reconcile_def split: prod.splits)
qed

theorem backoff_pass_is_silent_witness:
  "w_calls (snd (run_state (reconcile (sample_env\<lparr>e_now := \<lambda>_. sample_now\<rparr>) 9 sample_config)
     ((empty_world empty_db)\<lparr>w_transient := [(''c'', sample_now + 1)]\<rparr>))) = []"
proof -
  let ?E = "sample_env\<lparr>e_now := \<lambda>_. sample_now\<rparr>" and ?w = "(empty_world empty_db)\<lparr>w_transient := [(''c'', sample_now + 1)]\<rparr>"
  obtain r w' where r: "run_state (reconcile ?E 9 sample_config) ?w = (r, w')" by fastforce
  have c: "closed_until (cc_name sample_config) (sample_now + 1) ?w"
    by (simp add: closed_until_def sample_config_def)
  have n: "\<And>k. e_now ?E k < sample_now + 1" by simp
  have "w_calls w' = w_calls ?w" using backoff_pass_is_silent [OF c n r] by (rule conjunct1)
  moreover have "w_calls ?w = []" by (simp add: empty_world_def)
  ultimately show ?thesis by (simp only: r snd_conv)
qed

end
