(* ===== verification/AuthzProps.thy ===== *)
theory AuthzProps
  imports DbLaws
begin

text \<open>
  What solving the challenges of an order guarantees: every identifier the CA calls invalid is in the
  failure ledger when the pass ends, and a failed attempt to write a record never loses the token
  that names the record of an earlier attempt.
\<close>

section \<open>Every invalid identifier is booked\<close>

definition ledger_has :: "string \<times> string \<Rightarrow> db \<Rightarrow> bool" where
  "ledger_has k d \<longleftrightarrow> row_get if_key k (d_ifails d) \<noteq> None"

lemma ledger_record:
  "ledger_has k (record_identifier_failure n i e t d) \<longleftrightarrow> k = (n, i) \<or> ledger_has k d"
  by (auto simp: ledger_has_def record_identifier_failure_def rows split: option.split)

lemma ledger_flow: "flow_op x \<Longrightarrow> ledger_has k d \<Longrightarrow> ledger_has k (store_step t x d)"
  by (cases x) (auto simp: ledger_record, auto simp: ledger_has_def op_defs Let_def split: option.split)

lemma ledger_put: "ledger_has k (put_cert t st d) = ledger_has k d"
  by (simp add: ledger_has_def put_cert_def)

interpretation ledger: flow_db "ledger_has k" "\<lambda>_. True" for k
  by unfold_locales (simp_all add: ledger_flow txt_flow ledger_put)

definition booked :: "string \<times> string \<Rightarrow> world \<Rightarrow> bool" where
  "booked k w \<longleftrightarrow> ledger_has k (w_db w)"

lemma booked_I: "booked k = ledger.I k"
  by (simp add: booked_def fun_eq_iff)

lemma book_invalid_books:
  assumes "\<And>j. \<not> e_fault E j" and "run_state (book_invalid E n cur) w = (u, w')"
  shows "booked (n, targeted_domain E cur) w'"
proof -
  let ?m = "do { note_identifier_failure E (targeted_domain E cur); spend_authz_failure E (targeted_domain E cur); clock E }"
  obtain now w1 where m: "run_state ?m w = (now, w1)" by fastforce
  have "run_state (book_invalid E n cur) w = ((), w1\<lparr>w_tick := Suc (w_tick w1),
      w_db := record_identifier_failure n (targeted_domain E cur) (authz_error cur) now (w_db w1)\<rparr>)"
    using m assms(1) by (auto simp: book_invalid_def split: prod.splits)
  then show ?thesis using assms(2) by (auto simp: booked_def ledger_record)
qed

lemma scan_row_books:
  assumes "\<And>j. \<not> e_fault E j" and "run_state (scan_row E n sv a cur) w = (Inr sv', w')"
  shows "av_status cur = ''invalid'' \<Longrightarrow> booked (n, targeted_domain E cur) w' \<and> sv_error sv' \<noteq> None"
    and "sv_error sv \<noteq> None \<Longrightarrow> sv_error sv' \<noteq> None"
proof -
  show "booked (n, targeted_domain E cur) w' \<and> sv_error sv' \<noteq> None" if i: "av_status cur = ''invalid''"
  proof -
    let ?w1 = "w\<lparr>w_tick := Suc (w_tick w), w_db := put_authorization
      (a\<lparr>a_status := av_status cur, a_identifier := av_identifier cur\<rparr>) (w_db w)\<rparr>"
    obtain w2 where b: "run_state (book_invalid E n cur) ?w1 = ((), w2)" by (metis old.unit.exhaust surj_pair)
    have "w' = w2" "sv_error sv' \<noteq> None"
      using assms i b by (auto simp: scan_row_def Let_def split: prod.splits option.splits)
    then show ?thesis using book_invalid_books [OF assms(1) b] by simp
  qed
  show "sv_error sv' \<noteq> None" if "sv_error sv \<noteq> None"
    using assms(2) that
    by (auto simp: scan_row_def Let_def split: if_splits prod.splits option.splits sum.splits)
qed

lemma scan_rows_books:
  assumes "\<And>j. \<not> e_fault E j"
  shows "run_state (scan_rows E n sv rows) w = (Inr sv', w') \<Longrightarrow>
    (\<forall>(a, cur) \<in> set rows. av_status cur = ''invalid'' \<longrightarrow> booked (n, targeted_domain E cur) w' \<and> sv_error sv' \<noteq> None)
    \<and> (sv_error sv \<noteq> None \<longrightarrow> sv_error sv' \<noteq> None)"
proof (induction rows arbitrary: sv w)
  case (Cons p rows)
  obtain a cur where p: "p = (a, cur)" by fastforce
  obtain x w1 where x: "run_state (scan_row E n sv a cur) w = (x, w1)" by fastforce
  obtain sv1 where sv1: "x = Inr sv1" "run_state (scan_rows E n sv1 rows) w1 = (Inr sv', w')"
    using Cons.prems p x by (cases x) auto
  note ih = Cons.IH [OF sv1(2)] and r = scan_row_books [OF assms x [unfolded sv1(1)]]
  have "booked k w1 \<Longrightarrow> booked k w'" for k
    unfolding booked_I by (rule inv_run [of "ledger.I k", OF ledger.scan_rows_keeps _ sv1(2)])
  then show ?case using ih r p by auto
qed simp


definition bad_authz :: "string \<Rightarrow> authz_reply" where
  "bad_authz d = \<lparr>av_status = ''invalid'', av_identifier = d, av_wildcard = True, av_challenges = []\<rparr>"


section \<open>The token that names a record\<close>

definition stored_token :: "string \<times> string \<Rightarrow> string \<Rightarrow> world \<Rightarrow> bool" where
  "stored_token k tok w \<longleftrightarrow> map_option a_challenge_token (get_authz k (w_db w)) = Some tok"

interpretation tok: pass_inv "stored_token k tok" for k tok
  by unfold_locales (simp add: stored_token_def)

lemma tok_reads:
  "inv (stored_token k tok) (store_read E g)" "inv (stored_token k tok) (ask h)"
  "inv (stored_token k tok) (perform c h)" "inv (stored_token k tok) (ret x)"
  by (rule inv tok.reads_keep tok.perform_keeps | simp add: stored_token_def)+

lemma tok_leases:
  "inv (stored_token k tok) (lease_add f v)" "inv (stored_token k tok) (lease_remove f v)"
  unfolding lease_add_def lease_remove_def by (intro inv inv_modify; simp add: stored_token_def)+

lemma tok_release:
  "inv (stored_token k tok) (release_stale_lease E f v)"
  "inv (stored_token k tok) (release_row_stale_lease E a ka)"
  unfolding release_stale_lease_def release_row_stale_lease_def release_stale_lease_except_def
  by (intro inv tok_reads tok_leases)+

lemma tok_remove: "inv (stored_token k tok) (remove_authz_txt E a)"
  unfolding remove_authz_txt_def clean_up_def by (intro inv tok_reads tok_leases tok_release)

lemma token_put: "map_option a_challenge_token (get_authz (a_key a) (put_authorization a d)) = Some (a_challenge_token a)"
  by (simp only: get_put_authz) (simp add: authz_merge_def Let_def split: option.split)

lemma tok_put:
  "a_challenge_token a = tok \<Longrightarrow> a_key a = k \<Longrightarrow> inv (stored_token k tok) (store_write E (\<lambda>_. put_authorization a))"
  by (rule tok.store_write_keeps)
    (auto simp: stored_token_def get_put_authz authz_merge_def Let_def split: option.split)

lemma tok_prepare:
  assumes "a_challenge_token a = tok" and "tok \<noteq> []" and "a_key a = k"
  shows "inv (stored_token k tok) (prepare_challenge E a ch)"
    and "answers (prepare_challenge E a ch) (\<lambda>r. case r of Inl _ \<Rightarrow> True | Inr a' \<Rightarrow> True)"
proof -
  have f: "inv (stored_token k tok) (refresh_challenge E a ch)"
    unfolding refresh_challenge_def by (intro inv tok_reads tok_release)
  have r: "answers (refresh_challenge E a ch) (\<lambda>a'. a_challenge_token a' = tok \<and> a_key a' = k)"
    unfolding refresh_challenge_def by (intro answers_bind_any answers_ret) (use assms in simp)
  show "inv (stored_token k tok) (prepare_challenge E a ch)"
    unfolding prepare_challenge_def Let_def
    by (rule inv_bind_answers [OF f r]) (use assms in \<open>auto intro!: inv tok_put\<close>)
qed (simp add: answers_def split: sum.split)

lemma tok_adopt: "inv (stored_token k tok) (adopt_or_write E b a ka)"
  unfolding adopt_or_write_def write_txt_def lookup_txt_def present_def
  by (intro inv tok_reads tok_leases)

lemma tok_persist:
  "post (stored_token k tok) (persist_presented E a) (\<lambda>e w. e \<noteq> None \<longrightarrow> stored_token k tok w)"
proof -
  have r: "post (stored_token k tok) (do {
        (if a_presented a then do { remove_authz_txt E a; ret () } else ret ());
        ret (Some t) }) (\<lambda>e w. e \<noteq> None \<longrightarrow> stored_token k tok w)" for t
    by (rule post_leaf) (intro inv tok_reads tok_remove, simp)
  have s: "post (stored_token k tok) (store_write E (\<lambda>_. put_authorization a))
      (\<lambda>e w. e \<noteq> None \<longrightarrow> stored_token k tok w)"
    by (auto simp: post_def stored_token_def)
  show ?thesis
    unfolding persist_presented_def
  proof (rule post_bind [OF s], goal_cases)
    case (1 e)
    show ?case
    proof (cases e)
      case (Some t)
      show ?thesis unfolding Some option.case by (rule post_conseq [OF r]) simp_all
    qed (simp add: post_def)
  qed
qed

text \<open>
  C27. A row that already names a record (its token is the only clue to it) keeps that token on disk
  until a new record has really been written and its row stored: whichever step of the new attempt
  fails (the age cannot be stored, the provider refuses the write, the row cannot be stored), the
  stored row still names the old record, so it can still be found and taken out.
\<close>

theorem failed_rewrite_keeps_token:
  assumes "a_challenge_token a \<noteq> []" and "map_option a_challenge_token (get_authz (a_key a) (w_db w)) = Some (a_challenge_token a)"
    and "run_state (solve_pending E a cur) w = (Inl e, w')"
  shows "map_option a_challenge_token (get_authz (a_key a) (w_db w')) = Some (a_challenge_token a)"
proof -
  let ?P = "stored_token (a_key a) (a_challenge_token a)"
  have p: "inv ?P (present_challenge E a cur)"
    unfolding present_challenge_def by (intro inv tok_reads tok_adopt tok_prepare assms(1) refl)
  have "post ?P (solve_pending E a cur) (\<lambda>r w. isl r \<longrightarrow> ?P w)"
    unfolding solve_pending_def
  proof (rule post_keep, intro inv_if inv p, goal_cases)
    case (1 r)
    show ?case
    proof (cases r)
      case (Inr a')
      show ?thesis
        unfolding Inr sum.case by (rule post_bind [OF tok_persist]) (auto simp: post_def split: option.split)
    qed (simp add: post_def)
  qed
  from post_run [OF this _ assms(3)] show ?thesis using assms(2) by (simp add: stored_token_def)
qed

definition revisited :: authorization where
  "revisited = (new_authz ''c'' ''u'')\<lparr>a_identifier := ''a.com'', a_challenge_token := ''old''\<rparr>"

definition pending_authz :: authz_reply where
  "pending_authz = \<lparr>av_status = ''pending'', av_identifier = ''a.com'', av_wildcard = False,
     av_challenges = [\<lparr>ch_type = ''dns-01'', ch_url = ''ch'', ch_token = ''new'', ch_error = None\<rparr>]\<rparr>"

theorem failed_rewrite_keeps_token_witness:
  "let (r, w') = run_state (solve_pending (sample_env\<lparr>e_present := \<lambda>_. Inl ''503''\<rparr>) revisited pending_authz)
       (empty_world (put_authorization revisited empty_db))
   in isl r \<and> map_option a_challenge_token (get_authz (''c'', ''u'') (w_db w')) = Some ''old''"
proof -
  let ?E = "sample_env\<lparr>e_present := \<lambda>_. Inl ''503''\<rparr>" and ?w = "empty_world (put_authorization revisited empty_db)"
  obtain r w' where r: "run_state (solve_pending ?E revisited pending_authz) ?w = (r, w')" by fastforce
  have "isl (fst (run_state (solve_pending ?E revisited pending_authz) ?w))" by code_simp
  then obtain e where e: "r = Inl e" using r by (cases r) simp_all
  have t: "a_challenge_token revisited \<noteq> []" "a_challenge_token revisited = ''old''" "a_key revisited = (''c'', ''u'')"
    by (simp_all add: revisited_def new_authz_def)
  have "map_option a_challenge_token (get_authz (a_key revisited) (w_db ?w)) = Some (a_challenge_token revisited)"
    unfolding empty_world_def world.simps by (rule token_put)
  from failed_rewrite_keeps_token [OF t(1) this r [unfolded e]] t(2,3) show ?thesis by (simp add: r e)
qed

end
