(* ===== verification/PassEnds.thy ===== *)
theory PassEnds
  imports Manager
begin

text \<open>
  The pass ends. Its two polling loops stop because the clock passes their deadline: with a clock
  that moves on by at least \<open>p\<close> over three effects (a round of a loop has at least three and waits
  for the poll interval), \<open>timeout / p + 2\<close> rounds are enough, and with that fuel no pass is cut off.
\<close>

section \<open>Effects are numbered upwards\<close>

definition later :: "nat \<Rightarrow> world \<Rightarrow> bool" where
  "later k w \<longleftrightarrow> k \<le> w_tick w"

lemma later_rules:
  "inv (later k) tick" "inv (later k) (ask f)" "inv (later k) (perform c h)" "inv (later k) (store_read E g)"
  "inv (later k) (store_write E v)"
  by (simp_all add: inv_def later_def)

lemma later_modify: "(\<And>w. w_tick (m w) = w_tick w) \<Longrightarrow> inv (later k) (modify m)"
  by (simp add: inv_def later_def)

lemma later_quota: "inv (later k) (quota_spend E l s)"
  unfolding quota_spend_def by (intro inv later_rules later_modify) simp

lemma later_book: "inv (later k) (book_invalid E n cur)"
  unfolding book_invalid_def note_identifier_failure_def spend_authz_failure_def
  by (intro inv later_rules later_modify later_quota) simp

lemma later_poll: "inv (later k) (poll_rows E rows)"
  by (induction E rows rule: poll_rows.induct)
    (simp_all, (intro inv | (unfold poll_row_def clear_identifier_cooldown_def, intro inv later_rules later_modify later_book; simp))+)

lemma later_fetch: "inv (later k) (fetch_authzs E rows)"
  unfolding fetch_authzs_def fetch_authz_def by (intro inv later_rules)

lemma fetch_takes_two:
  assumes "run_state (fetch_authzs E (a # rows)) w = (Inr curs, w')"
  shows "w_tick w + 2 \<le> w_tick w'"
proof -
  obtain x w1 where x: "run_state (fetch_authz E a) w = (x, w1)" by fastforce
  obtain xs w2 where xs: "run_state (map_pass (fetch_authz E) rows) w1 = (xs, w2)" by fastforce
  have e: "all_fetched (a # rows) (x # xs) = Inr curs" "w' = w2"
    using assms x xs by (auto simp: fetch_authzs_def)
  have "inv (later (w_tick w1)) (map_pass (fetch_authz E) rows)"
    unfolding fetch_authz_def by (intro inv later_rules)
  from inv_run [OF this _ xs] have "w_tick w1 \<le> w_tick w2" by (simp add: later_def)
  moreover have "w_tick w + 2 = w_tick w1"
    using x e(1) by (auto simp: fetch_authz_def split: if_splits)
  ultimately show ?thesis using e(2) by simp
qed

section \<open>Waiting for the authorizations\<close>

lemma await_authz_ends:
  assumes "polling_clock E p"
  shows "deadline < e_now E (w_tick w) + int n * p \<Longrightarrow>
    fst (run_state (await_authz E (Suc n) rows pending deadline) w) \<noteq> None"
proof (induction n arbitrary: w rows pending)
  case (0 w rows pending)
  obtain cur w1 where c: "run_state (fetch_authzs E pending) w = (cur, w1)" by fastforce
  have l1: "w_tick w \<le> w_tick w1" using inv_run [OF later_fetch _ c] by (simp add: later_def)
  show ?case
  proof (cases cur)
    case (Inr curs)
    obtain x w2 where x: "run_state (poll_rows E (zip pending curs)) w1 = (x, w2)" by fastforce
    have "w_tick w1 \<le> w_tick w2" using inv_run [OF later_poll _ x] by (simp add: later_def)
    then have "e_now E (w_tick w) \<le> e_now E (w_tick w2)" using polling_clock_mono [OF assms] l1 by simp
    then have "deadline < e_now E (w_tick w2)" using 0 by simp
    then show ?thesis
      using c x Inr by (auto simp: Let_def split: sum.split option.split prod.split)
  qed (use c in simp)
next
  case (Suc n w rows pending)
  obtain cur w1 where c: "run_state (fetch_authzs E pending) w = (cur, w1)" by fastforce
  show ?case
  proof (cases cur)
    case (Inr curs)
    obtain x w2 where x: "run_state (poll_rows E (zip pending curs)) w1 = (x, w2)" by fastforce
    have l2: "w_tick w1 \<le> w_tick w2" using inv_run [OF later_poll _ x] by (simp add: later_def)
    show ?thesis
    proof (cases pending)
      case Nil
      then show ?thesis using c x Inr by (auto simp: Let_def)
    next
      case (Cons a as)
      then have "w_tick w + 2 \<le> w_tick w1" using fetch_takes_two c Inr by blast
      then have "e_now E (w_tick w + 3) \<le> e_now E (Suc (Suc (w_tick w2)))"
        using polling_clock_mono [OF assms] l2 by simp
      moreover have "e_now E (w_tick w) + p \<le> e_now E (w_tick w + 3)"
        using assms by (simp add: polling_clock_def)
      ultimately have "deadline < e_now E (Suc (Suc (w_tick w2))) + int n * p"
        using Suc.prems by (simp add: algebra_simps)
      then have ih: "fst (run_state (await_authz E (Suc n) rows' pending' deadline)
          (w2\<lparr>w_tick := Suc (Suc (w_tick w2))\<rparr>)) \<noteq> None" for rows' pending'
        using Suc.IH [of "w2\<lparr>w_tick := Suc (Suc (w_tick w2))\<rparr>" rows' pending'] by simp
      show ?thesis
        unfolding await_authz.simps(2) [of E "Suc n"]
        using c x Inr ih by (auto simp: Let_def simp del: await_authz.simps split: sum.split option.split prod.split)
    qed
  qed (use c in simp)
qed

lemma await_authorizations_ends:
  assumes "polling_clock E p" and "e_authz_wait E < int n * p"
  shows "answers (await_authorizations E (Suc n) rows) (\<lambda>r. r \<noteq> None)"
proof -
  have "fst (run_state (await_authz E (Suc n) rows rows (e_now E k + e_authz_wait E)) (w\<lparr>w_tick := Suc k\<rparr>)) \<noteq> None"
    for k and w :: world
    by (rule await_authz_ends [OF assms(1)])
      (use assms(2) polling_clock_mono [OF assms(1), of k "Suc k"] in simp)
  then show ?thesis by (simp add: answers_def await_authorizations_def del: await_authz.simps)
qed

section \<open>The whole pass\<close>

abbreviation ends :: "outcome pass \<Rightarrow> bool" where
  "ends m \<equiv> answers m (\<lambda>r. r \<noteq> OutOfFuel)"

lemma fail_ends: "ends (fail_pass E st e)" "ends (fail_unreadable E n e)"
  unfolding fail_pass_def fail_unreadable_def Let_def
  by (intro answers_cases answers_bind_any answers_ret; simp)+

lemma fail_some_ends:
  "answers (do { r \<leftarrow> fail_pass E st e; ret (Some r) }) (\<lambda>r. r \<noteq> Some OutOfFuel)"
  "answers (do { r \<leftarrow> fail_pass E st e; ret (Inl r) }) (\<lambda>r. r \<noteq> Inl OutOfFuel)"
  "answers (do { r \<leftarrow> fail_unreadable E n e; ret (Inl r) }) (\<lambda>r. r \<noteq> Inl OutOfFuel)"
  by (rule answers_bind [OF fail_ends(1)] answers_bind [OF fail_ends(2)], rule answers_ret, simp)+

lemma refuse_ends:
  "answers (refuse_while_cooling_down E c st) (\<lambda>r. r \<noteq> Some OutOfFuel)"
  "answers (refuse_while_ca_locked_out E c st) (\<lambda>r. r \<noteq> Some OutOfFuel)"
  unfolding refuse_while_cooling_down_def refuse_while_ca_locked_out_def
  by (rule answers_bind_any, intro answers_cases fail_some_ends answers_ret, simp)+

lemma download_ends: "ends (download E c st r reply rd)"
  unfolding download_def install_def promote_def Let_def
  by (intro answers_cases fail_ends | rule answers_bind_any answers_ret | simp)+

text \<open>Fuel \<open>n\<close> is enough for both loops: with a poll every \<open>p\<close>, \<open>timeout / p + 2\<close> rounds.\<close>

definition enough_fuel :: "env \<Rightarrow> duration \<Rightarrow> nat \<Rightarrow> bool" where
  "enough_fuel E p n \<longleftrightarrow> polling_clock E p \<and> 0 < n \<and>
     order_wait_timeout < (int n - 1) * p \<and> e_authz_wait E < (int n - 1) * p"

lemma waits_end:
  assumes "enough_fuel E p n"
  shows "answers (await_order_status E n url want order_wait_timeout) (\<lambda>r. r \<noteq> None)"
    and "answers (await_authorizations E n rows) (\<lambda>r. r \<noteq> None)"
proof -
  obtain m where "n = Suc m" using assms by (cases n) (simp_all add: enough_fuel_def)
  then show "answers (await_order_status E n url want order_wait_timeout) (\<lambda>r. r \<noteq> None)"
    "answers (await_authorizations E n rows) (\<lambda>r. r \<noteq> None)"
    using assms await_order_status_ends [of E p order_wait_timeout m url want]
      await_authorizations_ends [of E p m rows] by (simp_all add: enough_fuel_def)
qed

lemma await_ends:
  assumes "enough_fuel E p n"
  shows "answers (await_and_persist E n st r want) (\<lambda>x. x \<noteq> Inl OutOfFuel)"
    and "ends (await_download E n c st r rd)"
proof -
  show a: "answers (await_and_persist E n st r want) (\<lambda>x. x \<noteq> Inl OutOfFuel)" for want
    unfolding await_and_persist_def
    by (rule answers_bind [OF waits_end(1) [OF assms]])
      (intro answers_cases fail_some_ends | rule answers_bind_any answers_ret | simp)+
  show "ends (await_download E n c st r rd)"
    unfolding await_download_def
    by (rule answers_bind [OF a]) (intro answers_cases download_ends | rule answers_ret | simp)+
qed

lemma solve_ends:
  assumes "enough_fuel E p n"
  shows "answers (solve_challenges E n c st reply) (\<lambda>x. x \<noteq> Some OutOfFuel)"
proof -
  have d: "answers (do { r \<leftarrow> discard_invalid E st m err; ret (Some r) }) (\<lambda>x. x \<noteq> Some OutOfFuel)" for m err
    unfolding discard_invalid_def
    by (rule answers_bind [OF answers_bind_any [OF fail_ends(1)]], rule answers_ret, simp)
  have v: "answers (do { v \<leftarrow> await_authorizations E n rows; case v of
        None \<Rightarrow> ret (Some OutOfFuel)
      | Some (Inl e) \<Rightarrow> do { r \<leftarrow> fail_pass E st e; ret (Some r) }
      | Some (Inr rows') \<Rightarrow> do { cleanup E rows'; ret None } }) (\<lambda>x. x \<noteq> Some OutOfFuel)" for rows
    by (rule answers_bind [OF waits_end(2) [OF assms]])
      (intro answers_cases fail_some_ends | rule answers_bind_any answers_ret | simp)+
  have s: "answers (solve_scanned E n st sv) (\<lambda>x. x \<noteq> Some OutOfFuel)" for sv
    unfolding solve_scanned_def
    by (intro answers_cases fail_some_ends v | rule answers_bind_any answers_ret | simp)+
  show ?thesis
    unfolding solve_challenges_def
    by (intro answers_cases fail_some_ends s d | rule answers_bind_any answers_ret | simp)+
qed

lemma finalize_ends:
  assumes "enough_fuel E p n"
  shows "ends (finalize E n c st r rd)"
  unfolding finalize_def
  by (intro answers_cases fail_ends await_ends [OF assms] | rule answers_bind_any)+

lemma advance_ends:
  assumes "enough_fuel E p n"
  shows "ends (advance E n c st r rd)"
proof -
  have q: "ends (advance_pending E n c st r' reply rd)" for r' reply
    unfolding advance_pending_def
    apply (rule answers_bind [OF solve_ends [OF assms]])
    apply (intro answers_option answers_ret; simp?)
    apply (rule answers_bind [OF await_ends(1) [OF assms]])
    apply (intro answers_cases download_ends finalize_ends [OF assms] answers_ret; simp)
    done
  show ?thesis
    unfolding advance_def unfetchable_order_def advance_invalid_def Let_def
    by (intro answers_cases fail_ends download_ends finalize_ends [OF assms] await_ends [OF assms] q
        | rule answers_bind_any)+
qed

lemma issue_ends:
  assumes "enough_fuel E p n"
  shows "ends (issue E n c st replaces rd)"
proof -
  have s: "ends (start_order E n c st replaces rd)"
    unfolding start_order_def
    by (intro answers_cases fail_ends advance_ends [OF assms] | rule answers_bind_any)+
  show ?thesis
    unfolding issue_def
    apply (rule answers_bind [OF refuse_ends(1)])
    apply (intro answers_option answers_ret; simp?)
    apply (rule answers_bind [OF refuse_ends(2)])
    apply (intro answers_option answers_ret s; simp)
    done
qed

lemma continue_ends:
  assumes "enough_fuel E p n"
  shows "answers (continue_or_drop_order E n c st rd) (\<lambda>x. x \<noteq> Inl OutOfFuel)"
proof -
  have a: "answers (do { res \<leftarrow> advance E n c st r rd; ret (Inl res) }) (\<lambda>x. x \<noteq> Inl OutOfFuel)" for r
    by (rule answers_bind [OF advance_ends [OF assms]], rule answers_ret, simp)
  show ?thesis
    unfolding continue_or_drop_order_def drop_order_def
    by (intro answers_cases fail_some_ends a | rule answers_bind_any answers_ret | simp)+
qed

lemma decide_ends:
  assumes "enough_fuel E p n"
  shows "ends (decide E n c st rd)"
proof -
  have i: "answers (do { r \<leftarrow> issue E n c s i rd; ret (Some r) }) (\<lambda>x. x \<noteq> Some OutOfFuel)" for s i
    by (rule answers_bind [OF issue_ends [OF assms]], rule answers_ret, simp)
  have r: "answers (reissue_on_san_drift E n c s rd) (\<lambda>x. x \<noteq> Some OutOfFuel)" for s
    unfolding reissue_on_san_drift_def
    by (intro answers_cases i | rule answers_bind_any answers_ret | simp)+
  have w: "ends (renew_if_due E n c s rd)" for s
    unfolding renew_if_due_def
    by (rule answers_bind_any, auto intro!: fail_ends answers_bind_any answers_if answers_ret issue_ends [OF assms]
        split: option.split bool.split)
  show ?thesis
    unfolding decide_def
    apply (rule answers_if, rule issue_ends [OF assms])
    apply (rule answers_bind_any, rule answers_bind [OF r])
    apply (intro answers_option answers_ret w; simp)
    done
qed

text \<open>
  C8. Every pass ends: with a clock that moves and one polling round per poll interval, the fuel the
  two waits need is bounded by their timeouts, and with it no pass over any certificate is cut off,
  whatever the CA keeps answering.
\<close>

theorem pass_ends:
  assumes "enough_fuel E p n"
  shows "fst (run_state (reconcile E n cfg) w) \<noteq> OutOfFuel"
proof -
  have l: "answers (load_round E cfg) (\<lambda>x. x \<noteq> Inl OutOfFuel)"
    unfolding load_round_def
    by (intro answers_cases fail_some_ends | rule answers_bind_any answers_ret | simp)+
  have r: "ends (run_round E n cfg st rd)" for st rd
    unfolding run_round_def Let_def
    apply (rule answers_bind_any, rule answers_prod)
    apply (rule answers_bind [OF continue_ends [OF assms]])
    apply (intro answers_sum answers_ret answers_bind_any decide_ends [OF assms]; simp)
    done
  have "ends (reconcile E n cfg)"
    unfolding reconcile_def
    apply (rule answers_bind [OF l])
    apply (intro answers_sum answers_prod answers_bind_any answers_if answers_ret r; simp)
    done
  then show ?thesis by (simp add: answers_def)
qed

text \<open>The configured waits: a poll every three seconds, three minutes for the authorizations.\<close>

theorem pass_ends_witness:
  "fst (run_state (reconcile (sample_env\<lparr>e_now := \<lambda>k. sample_now + int k * ns_second\<rparr>) 62 sample_config)
     (empty_world signed_db)) \<noteq> OutOfFuel"
proof -
  let ?E = "sample_env\<lparr>e_now := \<lambda>k. sample_now + int k * ns_second\<rparr>"
  have "polling_clock ?E (3 * ns_second)"
    by (simp add: polling_clock_def ns_second_def algebra_simps)
  then have "enough_fuel ?E (3 * ns_second) 62"
    by (simp add: enough_fuel_def order_wait_timeout_def sample_env_def ns_minute_def ns_second_def)
  then show ?thesis by (rule pass_ends)
qed

end
