(* ===== verification/Lifecycle.thy ===== *)
theory Lifecycle
  imports PassProps CallProps AuthzProps PassEnds
begin

text \<open>
  A certificate over many passes: what the epilogue hands to the reclaim list, that a signed order is
  promoted, and the runs of the manager as a step relation, with its invariant and the abstract
  life cycle they refine.
\<close>

section \<open>The reclaim list never gets the certificate being promoted\<close>

definition queued :: "string \<Rightarrow> db \<Rightarrow> bool" where
  "queued i d \<longleftrightarrow> i \<in> r_cert_id ` set (d_retired d)"

lemma queued_add: "queued i (add_retired_exec t j n p k d) \<longleftrightarrow> i = j \<or> queued i d"
proof -
  have "r_cert_id ` set (d_retired (add_retired_exec t j n p k d)) = insert j (r_cert_id ` set (d_retired d))"
    using row_put_keys [of r_cert_id "\<lparr>r_cert_id = j, r_cert_name = n, r_retired_at = from_unix (unix t),
        r_cert_pem = p, r_key_pem = k\<rparr>" "\<lambda>old new. old\<lparr>r_cert_pem := coalesce (r_cert_pem new) (r_cert_pem old),
        r_key_pem := coalesce (r_key_pem new) (r_key_pem old), r_retired_at := r_retired_at new\<rparr>" "d_retired d"]
    by (simp add: add_retired_exec_def)
  then show ?thesis by (auto simp: queued_def)
qed

lemma queued_txt: "txt_op x \<Longrightarrow> queued i (store_step t x d) \<longleftrightarrow> queued i d"
  by (cases x) (auto simp: queued_def op_defs Let_def split: option.split)

interpretation free: txt_db "\<lambda>d. \<not> queued i d" for i
  by unfold_locales (simp add: queued_txt)

lemma queued_tx:
  assumes "tx_exec t x d = Some d'" and "\<And>n p k. x \<noteq> TxAddRetired i n p k"
  shows "queued i d' \<longleftrightarrow> queued i d"
proof (cases x)
  case (TxAddRetired j n p k)
  then have "i \<noteq> j" using assms(2) [of n p k] by blast
  then show ?thesis using assms(1) TxAddRetired by (auto simp: add_retired_cert_def queued_add split: if_splits)
qed (use assms in \<open>auto simp: queued_def put_cert_def delete_order_def clear_fallback_def
    clear_identifier_failures_def\<close>)

lemma orphan_not_promoted:
  "i \<noteq> [] \<Longrightarrow> answers (orphan_to_record E n i) (\<lambda>j. j \<noteq> i)"
  by (auto simp: answers_def orphan_to_record_def split: option.split)

lemma epilogue_free:
  assumes "dp_id dp = i" and "orphan \<noteq> i"
  shows "inv (free.I i) (store_tx E (epilogue_ops c st p dp orphan clear full))"
proof (rule free.store_tx_db)
  fix x t d d'
  assume x: "x \<in> set (epilogue_ops c st p dp orphan clear full)" and d: "\<not> queued i d" and e: "tx_exec t x d = Some d'"
  have "x \<noteq> TxAddRetired i n q k" for n q k
    using x assms by (auto simp: epilogue_ops_def orphan_ops_def retires_old_def split: if_splits)
  then show "\<not> queued i d'" using queued_tx [OF e, of i] d by blast
qed

text \<open>
  C9. The epilogue never puts the certificate it promotes on the reclaim list: however the order's
  resume anchor, the row's old deployment and the uploaded certificate coincide, and whether the
  transaction commits or not, the promoted cloud certificate is queued for deletion afterwards only
  if it was before.
\<close>

theorem promoted_is_not_reclaimed:
  assumes "run_state (promote E c st q url chain l rd dp) w = (r, w')" and "dp_id dp \<noteq> []"
    and "\<not> queued (dp_id dp) (w_db w)"
  shows "\<not> queued (dp_id dp) (w_db w')"
proof -
  have f: "inv (free.I (dp_id dp)) (fallback_covered E c)" "inv (free.I (dp_id dp)) (orphan_to_record E n i)" for n i
    unfolding fallback_covered_def orphan_to_record_def by (intro inv)+
  have p: "inv (free.I (dp_id dp)) (fail_pass E st e)" for e
    unfolding fail_pass_def set_transient_backoff_def
    by (intro inv free.modify_db free.store_write_db) (simp_all add: set_transient_def queued_def put_cert_def)
  have "inv (free.I (dp_id dp)) (promote E c st q url chain l rd dp)"
    unfolding promote_def
    by (intro inv f inv_bind_answers [OF f(2) orphan_not_promoted [OF assms(2)]] epilogue_free [OF refl] p)
  from inv_run [OF this _ assms(1)] show ?thesis using assms(3) by blast
qed

definition resumed_order :: acme_order where
  "resumed_order = signed_order\<lparr>o_deployment_cert_id := ''new''\<rparr>"

definition resumed_deployment :: deployment where
  "resumed_deployment = \<lparr>dp_id = ''new'', dp_rebound = True, dp_undeployed = False, dp_unverified = False, dp_waiting = False\<rparr>"

theorem promoted_is_not_reclaimed_witness:
  "\<not> queued ''new'' (w_db (snd (run_state (promote sample_env sample_config
       ((empty_cert ''c'')\<lparr>c_deployed_cert_id := ''old''\<rparr>) resumed_order ''url'' ''CHAIN'' signed_leaf empty_round resumed_deployment)
     (empty_world (put_order resumed_order empty_db)))))"
proof -
  let ?st = "(empty_cert ''c'')\<lparr>c_deployed_cert_id := ''old''\<rparr>"
  obtain r w' where r: "run_state (promote sample_env sample_config ?st resumed_order ''url'' ''CHAIN'' signed_leaf
      empty_round resumed_deployment) (empty_world (put_order resumed_order empty_db)) = (r, w')" by fastforce
  have i: "dp_id resumed_deployment = ''new''" by (simp add: resumed_deployment_def)
  have "\<not> queued ''new'' (w_db (empty_world (put_order resumed_order empty_db)))"
    by (simp add: queued_def empty_world_def put_order_def empty_db_def)
  from promoted_is_not_reclaimed [OF r _ this [folded i]] i show ?thesis by (simp add: r)
qed

section \<open>A signed order is promoted\<close>

definition all_well :: "env \<Rightarrow> bool" where
  "all_well E \<longleftrightarrow> (\<forall>k. \<not> e_fault E k) \<and> (\<forall>k i. \<not> e_tx_fault E k i)"

definition cloud_takes :: "env \<Rightarrow> cert_config \<Rightarrow> bool" where
  "cloud_takes E c \<longleftrightarrow> (cc_deploy c \<longrightarrow> (\<forall>k. snd (e_upload E k) = None \<and> snd (e_deploy E k) = None))"

definition installed :: "string \<Rightarrow> string \<Rightarrow> string \<Rightarrow> world \<Rightarrow> bool" where
  "installed n url chain w \<longleftrightarrow> get_order n (w_db w) = None \<and>
     c_cert_pem (row_or_new n (w_db w)) = chain \<and> c_cert_url (row_or_new n (w_db w)) = url"

lemma answers_write: "all_well E \<Longrightarrow> answers (store_write E f) (\<lambda>e. e = None)"
  by (simp add: answers_def all_well_def)

lemma tx_run_ok:
  "(\<forall>x \<in> set xs. \<forall>i n p k. x = TxAddRetired i n p k \<longrightarrow> i \<noteq> []) \<Longrightarrow> \<exists>d'. tx_run now (\<lambda>_. False) j xs d = Some d'"
proof (induction xs arbitrary: j d)
  case (Cons x xs)
  have "\<exists>d1. tx_exec now x d = Some d1"
    using Cons.prems by (cases x) (auto simp: add_retired_cert_def)
  then show ?case using Cons.IH Cons.prems by fastforce
qed simp

lemma tx_run_last:
  "tx_run now f j (xs @ [x]) d = Some d' \<Longrightarrow> \<exists>d1. tx_exec now x d1 = Some d'"
  by (induction xs arbitrary: j d) (auto split: if_splits option.splits)

lemma deploy_succeeds:
  assumes "all_well E" and "cloud_takes E c"
  shows "answers (deploy_cert E c st r) (\<lambda>d. \<exists>dp. d = Inr dp)"
proof (cases "cc_deploy c")
  case True
  have u: "answers (upload_and_deploy E i old r) (\<lambda>x. \<exists>j. x = Inr (j, None))" for i old
    using assms True
    by (auto simp: answers_def upload_and_deploy_def all_well_def cloud_takes_def split: prod.split option.split)
      (metis prod.collapse snd_conv option.distinct(1))+
  show ?thesis
    unfolding deploy_cert_def Let_def
    by (rule answers_if, rule answers_ret, simp, rule answers_bind [OF u]) (auto intro!: answers_ret)
qed (simp add: deploy_cert_def answers_def)

lemma promote_installs:
  assumes "all_well E" and "c_name st = cc_name c"
  shows "post (\<lambda>_. True) (promote E c st r url chain l rd dp) (\<lambda>r w. r = Done \<and> installed (cc_name c) url chain w)"
proof -
  have t: "post (\<lambda>_. True) (store_tx E (epilogue_ops c st (promoted_row st r url chain l now dp full) dp orphan clear full))
      (\<lambda>e w. e = None \<and> installed (cc_name c) url chain w)" for now orphan clear full
  proof -
    let ?p = "promoted_row st r url chain l now dp full"
    let ?xs = "epilogue_ops c st ?p dp orphan clear full"
    obtain ys where ys: "?xs = TxPutCert ?p # ys" "\<forall>x \<in> set ys. \<forall>q. x \<noteq> TxPutCert q"
      by (auto simp: epilogue_ops_def orphan_ops_def)
    obtain zs where zs: "?xs = zs @ [TxDeleteOrder (cc_name c)]" by (auto simp: epilogue_ops_def)
    have ok: "\<forall>x \<in> set ?xs. \<forall>i n p k. x = TxAddRetired i n p k \<longrightarrow> i \<noteq> []"
      by (auto simp: epilogue_ops_def orphan_ops_def retires_old_def)
    have n: "c_name ?p = cc_name c" "c_cert_pem ?p = chain" "c_cert_url ?p = url"
      using assms(2) by (simp_all add: promoted_row_def)
    have "fst (with_tx t f ?xs d) \<and> installed (cc_name c) url chain (w\<lparr>w_db := snd (with_tx t f ?xs d)\<rparr>)"
      if f: "\<And>i. \<not> f i" for t f d w
    proof -
      have f': "f = (\<lambda>_. False)" using f by auto
      obtain d' where d1: "tx_run t (\<lambda>_. False) 1 ?xs d = Some d'" using tx_run_ok [OF ok] by blast
      then have d': "tx_run t (\<lambda>_. False) 0 ?xs d = Some d'" by (rule tx_run_no_fault)
      have w: "with_tx t f ?xs d = (True, d')" unfolding with_tx_def f' d1 by simp
      have "material (row_or_new (cc_name c) d') = material ?p"
        using tx_run_promotes [OF d' [unfolded ys(1)] n(1) ys(2)] .
      moreover obtain d1 where "tx_exec t (TxDeleteOrder (cc_name c)) d1 = Some d'"
        using tx_run_last d' zs by metis
      ultimately show ?thesis
        using n by (auto simp: w installed_def material_def get_delete_order)
    qed
    moreover have "\<not> e_tx_fault E k i" for k i using assms(1) by (simp add: all_well_def)
    ultimately show ?thesis
      by (simp add: post_def store_tx_def case_prod_beta)
  qed
  have i: "inv (\<lambda>_. True) m" for m :: "'x pass" by (simp add: inv_def)
  show ?thesis
    unfolding promote_def
  proof (rule post_keep [OF i], rule post_keep [OF i], rule post_keep [OF i], rule post_keep [OF i], rule post_bind [OF t], goal_cases)
    case (1 now clear orphan x e)
    then show ?case by (cases e) (auto simp: post_def installed_def)
  qed
qed

text \<open>The certificate the CA has signed for the order \<open>q\<close> passes every gate of the download.\<close>

definition signed_for ::
  "env \<Rightarrow> cert_config \<Rightarrow> cert_state \<Rightarrow> acme_order \<Rightarrow> order_reply \<Rightarrow> string \<Rightarrow> leaf \<Rightarrow> bool" where
  "signed_for E c st q reply chain l \<longleftrightarrow>
     (\<forall>k. e_get_order E k = Inr reply) \<and> e_status reply = ''valid'' \<and> e_certificate reply \<noteq> [] \<and>
     \<not> already_live st (e_certificate reply) \<and> (\<forall>k. e_get_certificate E k = Inr chain) \<and>
     e_parse_leaf E chain = Some l \<and> verify_coverage l (cc_domains c) = None \<and>
     replacement_refused E st q l = None"

lemma inv_true: "inv (\<lambda>_. True) m"
  by (simp add: inv_def)

lemma advance_installs:
  assumes "all_well E" and "cloud_takes E c" and "signed_for E c st q reply chain l" and "c_name st = cc_name c"
  shows "post (\<lambda>_. True) (advance E n c st q rd)
    (\<lambda>r w. r = Done \<and> installed (cc_name c) (e_certificate reply) chain w)"
proof -
  let ?Q = "\<lambda>r w. r = Done \<and> installed (cc_name c) (e_certificate reply) chain w"
  have g: "answers (perform (GetOrder u) (e_get_order E)) (\<lambda>x. x = Inr reply)" for u
    using assms(3) by (simp add: answers_def signed_for_def)
  have x: "answers (perform (GetCertificate u) (e_get_certificate E)) (\<lambda>x. x = Inr chain)" for u
    using assms(3) by (simp add: answers_def signed_for_def)
  have p: "answers (persist_order E q reply) (\<lambda>x. \<exists>q'. x = Inr q' \<and> o_key_pem q' = o_key_pem q)"
    unfolding persist_order_def Let_def
    by (rule answers_bind [OF answers_write [OF assms(1)]]) (auto intro!: answers_ret)
  have d: "post (\<lambda>_. True) (download E c st q' reply rd) ?Q" if "o_key_pem q' = o_key_pem q" for q'
  proof -
    have r: "replacement_refused E st q' l = None"
    proof -
      have "replacement_refused E st q' l = replacement_refused E st q l" by (simp add: replacement_refused_def that)
      then show ?thesis using assms(3) by (simp add: signed_for_def)
    qed
    have i: "post (\<lambda>_. True) (install E c st q' (e_certificate reply) chain l rd) ?Q"
      unfolding install_def
      using assms(3) r promote_installs [OF assms(1,4)]
      by (auto simp: signed_for_def intro!: post_keep [OF inv_true] post_keep_answers [OF inv_true deploy_succeeds [OF assms(1,2)]])
    show ?thesis
      unfolding download_def Let_def
      using assms(3) i
      by (auto simp: signed_for_def intro!: post_keep_answers [OF inv_true x])
  qed
  show ?thesis
    unfolding advance_def
    by (rule post_keep_answers [OF inv_true g], simp, rule post_keep [OF inv_true],
        rule post_keep_answers [OF inv_true p])
      (use assms(3) d in \<open>auto simp: signed_for_def\<close>)
qed



section \<open>Runs of the manager\<close>

text \<open>
  What can happen to the manager's state: a pass over any configuration, a cleanup after a removed
  certificate, the sweep of stuck records, the reaper, and a restart that loses everything but the
  database. Each with its own answers from outside; only X.509 parsing and key matching are the
  same functions throughout.
\<close>

definition same_keys :: "env \<Rightarrow> env \<Rightarrow> bool" where
  "same_keys E E0 \<longleftrightarrow> e_parse_leaf E = e_parse_leaf E0 \<and> e_key_public E = e_key_public E0"

definition restart :: "world \<Rightarrow> world" where
  "restart w = (empty_world (w_db w))\<lparr>w_tick := w_tick w, w_calls := w_calls w\<rparr>"

inductive manager_step :: "env \<Rightarrow> world \<Rightarrow> world \<Rightarrow> bool" for E0 where
  a_pass: "same_keys E E0 \<Longrightarrow> run_state (reconcile E n cfg) w = (r, w') \<Longrightarrow> manager_step E0 w w'"
| a_cleanup: "run_state (cleanup_orphan E name) w = (e, w') \<Longrightarrow> manager_step E0 w w'"
| a_sweep: "run_state (sweep_stuck_txt E) w = (x, w') \<Longrightarrow> manager_step E0 w w'"
| a_reap: "run_state (reap_retired E) w = (u, w') \<Longrightarrow> manager_step E0 w w'"
| a_restart: "manager_step E0 w (restart w)"

inductive reachable :: "env \<Rightarrow> world \<Rightarrow> bool" for E0 where
  start: "reachable E0 (empty_world empty_db)"
| step: "reachable E0 w \<Longrightarrow> manager_step E0 w w' \<Longrightarrow> reachable E0 w'"

section \<open>The life cycle they refine\<close>

definition sound_pair :: "env \<Rightarrow> string \<Rightarrow> string \<Rightarrow> bool" where
  "sound_pair E chain key \<longleftrightarrow>
     (\<exists>l. e_parse_leaf E chain = Some l \<and> e_key_public E key = Some (lf_public_key l))"

text \<open>The abstract state: the chain and key of every certificate. One of them may be renewed.\<close>

inductive cycle :: "env \<Rightarrow> (string \<Rightarrow> string \<times> string) \<Rightarrow> (string \<Rightarrow> string \<times> string) \<Rightarrow> bool" for E0 where
  keep: "cycle E0 M M"
| renew: "sound_pair E0 chain key \<Longrightarrow> cycle E0 M (M(n := (chain, key)))"

definition abs_certs :: "world \<Rightarrow> string \<Rightarrow> string \<times> string" where
  "abs_certs w n = (let st = row_or_new n (w_db w) in (c_cert_pem st, c_key_pem st))"

lemma abs_material: "abs_certs w n = (let (p, k, x) = material (row_or_new n (w_db w)) in (p, k))"
  by (simp add: abs_certs_def material_def Let_def)

lemma abs_keep:
  assumes "\<And>n M. inv (mat.I n M) m" and "run_state m w = (r, w')"
  shows "abs_certs w' = abs_certs w"
proof
  fix n
  show "abs_certs w' n = abs_certs w n"
    using inv_run [OF assms(1) _ assms(2), of n "material (row_or_new n (w_db w))"] by (simp add: abs_material)
qed

lemma abs_pass:
  assumes "same_keys E E0" and "run_state (reconcile E m cfg) w = (r, w')"
  shows "cycle E0 (abs_certs w) (abs_certs w')"
proof -
  let ?n = "cc_name cfg"
  have o: "abs_certs w' n = abs_certs w n" if "n \<noteq> ?n" for n
    using inv_run [OF other.reconcile_keeps [OF refl, where nm = n and M = "material (row_or_new n (w_db w))"] _ assms(2)] that
    by (simp add: abs_material)
  obtain ds where k: "kept_or_renewed E ds ?n (material (row_or_new ?n (w_db w))) r w'"
    using reconcile_renews [OF refl assms(2)] by blast
  show ?thesis
  proof (cases "holds ?n (material (row_or_new ?n (w_db w))) w'")
    case True
    have "abs_certs w' n = abs_certs w n" for n
      using o [of n] True by (cases "n = ?n") (simp_all add: holds_def abs_material)
    then have "abs_certs w' = abs_certs w" by blast
    then show ?thesis by (simp add: cycle.keep)
  next
    case False
    let ?st = "row_or_new ?n (w_db w')"
    have "vetted E ds (c_cert_pem ?st) (c_key_pem ?st)"
      using k False by (simp add: kept_or_renewed_def renewed_def Let_def)
    then have s: "sound_pair E0 (c_cert_pem ?st) (c_key_pem ?st)"
      using assms(1) by (auto simp: vetted_def sound_pair_def same_keys_def)
    have "abs_certs w' = (abs_certs w)(?n := (c_cert_pem ?st, c_key_pem ?st))"
      using o by (auto simp: abs_certs_def Let_def fun_eq_iff)
    then show ?thesis using cycle.renew [OF s] by simp
  qed
qed

lemma step_cycle:
  assumes "manager_step E0 w w'"
  shows "cycle E0 (abs_certs w) (abs_certs w')"
  using assms
proof cases
  case (a_pass E n cfg r)
  then show ?thesis by (rule abs_pass)
next
  case (a_cleanup E name e)
  have "inv (mat.I n M) (cleanup_orphan E name)" for n M unfolding cleanup_orphan_def by (rule inv)
  from abs_keep [OF this a_cleanup] show ?thesis by (simp add: cycle.keep)
next
  case (a_sweep E x)
  from abs_keep [OF mat.sweep_keeps a_sweep] show ?thesis by (simp add: cycle.keep)
next
  case (a_reap E u)
  from abs_keep [OF mat.reap_keeps a_reap] show ?thesis by (simp add: cycle.keep)
next
  case a_restart
  then have "abs_certs w' = abs_certs w" by (simp add: abs_certs_def restart_def empty_world_def fun_eq_iff)
  then show ?thesis by (simp add: cycle.keep)
qed

text \<open>
  The manager refines the life cycle: seen from outside, every step of it (a pass over any
  certificate with any outcome, a cleanup, a sweep, a reap, a restart) either changes no certificate
  or replaces the chain and key of one by a pair that belongs together.
\<close>

theorem manager_refines_cycle:
  assumes "manager_step E0 w w'"
  shows "cycle E0 (abs_certs w) (abs_certs w')"
  using assms by (rule step_cycle)

theorem manager_refines_cycle_witness:
  "cycle sample_env (abs_certs (empty_world signed_db)) (abs_certs (restart (empty_world signed_db)))"
  by (rule manager_refines_cycle) (rule manager_step.a_restart)

lemma cycle_sound:
  "cycle E0 M M' \<Longrightarrow> \<forall>n. M n = ([], []) \<or> sound_pair E0 (fst (M n)) (snd (M n)) \<Longrightarrow>
   M' n = ([], []) \<or> sound_pair E0 (fst (M' n)) (snd (M' n))"
  by (induction rule: cycle.induct) auto

text \<open>
  C7. In every state the manager can reach, over any number of passes of any certificates, failures,
  restarts, sweeps and reaps, the private key stored for a certificate is the key of the stored chain.
\<close>

theorem stored_keys_match:
  assumes "reachable E0 w"
  shows "c_cert_pem (row_or_new n (w_db w)) = [] \<and> c_key_pem (row_or_new n (w_db w)) = [] \<or>
    sound_pair E0 (c_cert_pem (row_or_new n (w_db w))) (c_key_pem (row_or_new n (w_db w)))"
proof -
  have "\<forall>n. abs_certs w n = ([], []) \<or> sound_pair E0 (fst (abs_certs w n)) (snd (abs_certs w n))"
    using assms
  proof (induction rule: reachable.induct)
    case start
    show ?case by (simp add: abs_certs_def empty_world_def row_or_new_def get_cert_def empty_db_def empty_cert_def)
  next
    case (step w w')
    from cycle_sound [OF step_cycle [OF step.hyps(2)] step.IH] show ?case by blast
  qed
  then show ?thesis by (simp add: abs_certs_def Let_def)
qed

theorem stored_keys_match_witness:
  "let w = restart (snd (run_state (reconcile signed_env 9 sample_config) (empty_world empty_db))); n = ''c''
   in c_cert_pem (row_or_new n (w_db w)) = [] \<and> c_key_pem (row_or_new n (w_db w)) = [] \<or>
    sound_pair signed_env (c_cert_pem (row_or_new n (w_db w))) (c_key_pem (row_or_new n (w_db w)))"
proof -
  obtain r w' where r: "run_state (reconcile signed_env 9 sample_config) (empty_world empty_db) = (r, w')" by fastforce
  have "same_keys signed_env signed_env" by (simp add: same_keys_def)
  from manager_step.a_pass [OF this r] have "reachable signed_env w'"
    using reachable.start reachable.step by blast
  then have "reachable signed_env (restart w')"
    using reachable.step manager_step.a_restart by blast
  from stored_keys_match [OF this] show ?thesis by (simp add: r)
qed

end
