(* ===== verification/Revoke.thy ===== *)
theory Revoke
  imports Renewal
begin

text \<open>
  Revocation (\<open>revoke.go\<close>): an operator's request is recorded with the identity of the certificate it
  is about, attempted, and attempted again in every pass until the CA accepts it. The row is the
  operator's decision, so it may only go when the CA has revoked the certificate; the material sent
  is the one the request names, also after a renewal has replaced the stored one.

  \<open>e_parse_leaf\<close> is \<open>leafCertificate\<close>'s view of a PEM bundle; \<open>core\<close> says whether the manager has an
  ACME client at all (the command line records requests without one).
\<close>

section \<open>Reasons and identities\<close>

definition revocation_reasons :: "(string \<times> int) list" where
  "revocation_reasons = [(''unspecified'', 0), (''keyCompromise'', 1), (''affiliationChanged'', 3),
     (''superseded'', 4), (''cessationOfOperation'', 5)]"

definition revocation_reason_code :: "int \<Rightarrow> string + int" where
  "revocation_reason_code code =
     (if code \<in> snd ` set revocation_reasons then Inr code
      else Inl (''unknown revocation reason '' @ show_int code @ ''; expected one of the RFC 5280 codes this '' @
        ''program offers (0 unspecified, 1 keyCompromise, 3 affiliationChanged, 4 superseded, '' @
        ''5 cessationOfOperation)''))"

definition reason_name :: "int \<Rightarrow> string" where
  "reason_name code =
     (case find (\<lambda>r. snd r = code) revocation_reasons of
        Some r \<Rightarrow> fst r
      | None \<Rightarrow> ''reason-'' @ show_int code)"

definition hex_char :: "nat \<Rightarrow> char" where
  "hex_char d = ''0123456789ABCDEF'' ! (d mod 16)"

fun hex_upper :: "nat \<Rightarrow> string" where
  "hex_upper n = (if n < 16 then [hex_char n] else hex_upper (n div 16) @ [hex_char n])"

declare hex_upper.simps [simp del]

text \<open>The ARI identifier, or the serial of a leaf without an authority key identifier.\<close>

definition cert_identity :: "leaf \<Rightarrow> string" where
  "cert_identity l = (case cert_id l of Some i \<Rightarrow> i | None \<Rightarrow> ''serial:'' @ hex_upper (lf_serial l))"

definition leaf_certificate :: "env \<Rightarrow> string \<Rightarrow> string + leaf" where
  "leaf_certificate E pem =
     (case e_parse_leaf E pem of None \<Rightarrow> Inl (e_lib_error E ''leaf certificate'') | Some l \<Rightarrow> Inr l)"

section \<open>Recording a request\<close>

text \<open>\<open>ErrRevocationNotRecorded\<close> and its wrappers: nothing has reached the store.\<close>

definition not_recorded :: "string \<Rightarrow> string" where
  "not_recorded e = ''the revocation request was not recorded: '' @ e"

definition identity_of :: "env \<Rightarrow> string \<Rightarrow> string" where
  "identity_of E pem = (case leaf_certificate E pem of Inl _ \<Rightarrow> [] | Inr l \<Rightarrow> cert_identity l)"

text \<open>The previous request is read only to warn that this one replaces it.\<close>

definition record_revocation :: "env \<Rightarrow> string \<Rightarrow> int \<Rightarrow> string option pass" where
  "record_revocation E name reason = do {
     x \<leftarrow> store_read E (get_cert name);
     case x of
       Inl e \<Rightarrow> ret (Some (not_recorded (''reading the certificate: '' @ e)))
     | Inr row \<Rightarrow>
         (let pem = (case row of None \<Rightarrow> [] | Some st \<Rightarrow> c_cert_pem st)
          in if pem = [] then
               ret (Some (not_recorded (''no certificate material stored for '' @ (CHR 0x22 # name @ [CHR 0x22]) @
                 '', so there is nothing to revoke; if the certificate was issued before wecert started '' @
                 ''archiving it, revoke it at the CA'')))
             else case revocation_reason_code reason of
                 Inl e \<Rightarrow> ret (Some (not_recorded e))
               | Inr code \<Rightarrow> do {
                   (if isl (leaf_certificate E pem) then ret ()
                    else do { store_read E (get_revoke_request name); ret () });
                   now \<leftarrow> clock E;
                   e \<leftarrow> store_try E (\<lambda>_. add_revoke_request name reason (identity_of E pem) now);
                   ret (map_option not_recorded e) }) }"

section \<open>The material a request is about\<close>

definition archived_der :: "env \<Rightarrow> string \<Rightarrow> string \<Rightarrow> (string + string) pass" where
  "archived_der E name identity = do {
     x \<leftarrow> store_read E (list_retired_material name);
     case x of
       Inl e \<Rightarrow> ret (Inl e)
     | Inr cands \<Rightarrow>
         (let leaves = map (\<lambda>c. leaf_certificate E (case r_cert_pem c of None \<Rightarrow> [] | Some p \<Rightarrow> p)) cands
          in ret (case find (\<lambda>l. \<not> isl l \<and> cert_identity (projr l) = identity) leaves of
               Some l \<Rightarrow> Inr (lf_raw (projr l))
             | None \<Rightarrow> Inl (''the certificate this request targets ('' @ identity @ '') is not the one stored for '' @
                 (CHR 0x22 # name @ [CHR 0x22]) @
                 '' and no archived copy of it is held: it has to be revoked at the CA''))) }"

definition revocation_material :: "env \<Rightarrow> string \<Rightarrow> revoke_request \<Rightarrow> (string + string) pass" where
  "revocation_material E name req = do {
     x \<leftarrow> store_read E (get_cert name);
     case x of
       Inl e \<Rightarrow> ret (Inl e)
     | Inr row \<Rightarrow>
         (let pem = (case row of None \<Rightarrow> [] | Some st \<Rightarrow> c_cert_pem st)
          in if pem = [] then
               (if rv_identity req = [] then ret (Inl ''no stored certificate material to revoke'')
                else archived_der E name (rv_identity req))
             else case leaf_certificate E pem of
                 Inl e \<Rightarrow> ret (Inl e)
               | Inr l \<Rightarrow>
                   if rv_identity req = [] \<or> cert_identity l = rv_identity req then ret (Inr (lf_raw l))
                   else archived_der E name (rv_identity req)) }"

section \<open>One attempt\<close>

definition already_revoked_type :: string where
  "already_revoked_type = ''urn:ietf:params:acme:error:alreadyRevoked''"

definition is_already_revoked :: "ca_error \<Rightarrow> bool" where
  "is_already_revoked e \<longleftrightarrow>
     ce_problem e \<and> ce_type e = already_revoked_type \<or> contains (ce_text e) already_revoked_type"

definition book_attempt :: "env \<Rightarrow> string \<Rightarrow> string \<Rightarrow> unit pass" where
  "book_attempt E name err = do {
     now \<leftarrow> clock E;
     store_try E (\<lambda>_. record_revoke_attempt name (Some err) now);
     ret () }"

text \<open>
  \<open>None\<close>: nothing to do, or revoked. A row that could not be cleared after the CA accepted is
  attempted once more in the next pass.
\<close>

definition process_revocation :: "env \<Rightarrow> bool \<Rightarrow> string \<Rightarrow> string option pass" where
  "process_revocation E core name = do {
     x \<leftarrow> store_read E (get_revoke_request name);
     case x of
       Inl e \<Rightarrow> ret (Some e)
     | Inr None \<Rightarrow> ret None
     | Inr (Some req) \<Rightarrow>
         if \<not> core then ret (Some ''cannot attempt the revocation: this manager has no ACME core'')
         else do {
           m \<leftarrow> revocation_material E name req;
           case m of
             Inl e \<Rightarrow> do { book_attempt E name e; ret (Some e) }
           | Inr der \<Rightarrow> do {
               a \<leftarrow> perform (RevokeCertificate der (rv_reason req)) (e_revoke E);
               case a of
                 None \<Rightarrow> do { store_write E (\<lambda>_. clear_revoke_request name); ret None }
               | Some err \<Rightarrow>
                   if is_already_revoked err then do {
                     store_write E (\<lambda>_. clear_revoke_request name); ret None }
                   else do {
                     book_attempt E name (ce_text err);
                     ret (Some (''revoke '' @ name @ '': '' @ ce_text err)) } } } }"

datatype revocation_answer = Revoked | NotRecorded string | Outstanding string

definition request_revocation :: "env \<Rightarrow> bool \<Rightarrow> string \<Rightarrow> int \<Rightarrow> revocation_answer pass" where
  "request_revocation E core name reason = do {
     e \<leftarrow> record_revocation E name reason;
     case e of
       Some e \<Rightarrow> ret (NotRecorded e)
     | None \<Rightarrow> do {
         p \<leftarrow> process_revocation E core name;
         ret (case p of
             None \<Rightarrow> Revoked
           | Some e \<Rightarrow> Outstanding (''the CA has not accepted the revocation yet; it is recorded and will be '' @
               ''retried on every pass: '' @ e)) } }"

section \<open>The retry of every pass\<close>

definition retry_pending_revocations :: "env \<Rightarrow> bool \<Rightarrow> unit pass" where
  "retry_pending_revocations E core = do {
     x \<leftarrow> store_read E list_revoke_requests;
     case x of
       Inl e \<Rightarrow> ret ()
     | Inr reqs \<Rightarrow>
         if \<not> core then ret ()
         else for_each reqs (\<lambda>r. do { process_revocation E core (rv_cert_name r); ret () }) }"

definition pending_revocations :: "env \<Rightarrow> (string + nat) pass" where
  "pending_revocations E = do {
     x \<leftarrow> store_read E list_revoke_requests;
     ret (map_sum id length x) }"

section \<open>A request outlives refusals\<close>

lemma get_add_revoke:
  "add_revoke_request name reason ident now d = Some d' \<Longrightarrow>
   \<exists>r. get_revoke_request name d' = Some r \<and> rv_reason r = reason \<and> rv_identity r = ident"
  by (auto simp: add_revoke_request_def get_revoke_request_def rows split: if_splits option.splits)

lemma get_record_attempt:
  "record_revoke_attempt n e now d = Some d' \<Longrightarrow>
   get_revoke_request name d' = map_option (\<lambda>r. if rv_cert_name r = n then r\<lparr>
     rv_attempts := rv_attempts r + 1,
     rv_last_error := (case e of None \<Rightarrow> [] | Some e \<Rightarrow> truncate_text e max_last_error_bytes),
     rv_last_attempt_at := stored now\<rparr> else r) (get_revoke_request name d)"
  unfolding record_revoke_attempt_def get_revoke_request_def
  by (auto simp: row_get_map split: if_splits)

text \<open>The request \<open>req\<close> under \<open>name\<close>, possibly attempted since.\<close>

definition outstanding :: "string \<Rightarrow> revoke_request \<Rightarrow> db \<Rightarrow> bool" where
  "outstanding name req d \<longleftrightarrow> (\<exists>r. get_revoke_request name d = Some r \<and> rv_reason r = rv_reason req \<and>
     rv_identity r = rv_identity req \<and> rv_requested_at r = rv_requested_at req \<and> rv_attempts req \<le> rv_attempts r)"

definition never_revoked :: "env \<Rightarrow> bool" where
  "never_revoked E \<longleftrightarrow> (\<forall>k. case e_revoke E k of None \<Rightarrow> False | Some e \<Rightarrow> \<not> is_already_revoked e)"

interpretation req: db_inv "outstanding name r" for name r .

lemma attempt_keeps_request [inv]: "inv (req.I name req) (book_attempt E n e)"
proof -
  have "outstanding name req d'" if "outstanding name req d" "record_revoke_attempt n x now d = Some d'" for d d' x now
    using that(1) unfolding outstanding_def get_record_attempt [OF that(2)] by fastforce
  then show ?thesis
    unfolding book_attempt_def by (intro inv req.store_try_db) blast
qed

lemma material_reads: "inv (req.I name req) (revocation_material E n r)"
  unfolding revocation_material_def archived_der_def Let_def by (intro inv)

lemma process_keeps_request:
  assumes "never_revoked E"
  shows "inv (req.I name req) (process_revocation E core n)"
proof -
  have a: "answers (perform c (e_revoke E)) (\<lambda>a. \<exists>e. a = Some e \<and> \<not> is_already_revoked e)" for c
    using assms by (intro answers_perform) (auto simp: never_revoked_def split: option.splits)
  have t: "inv (req.I name req) (case x of None \<Rightarrow> m | Some e \<Rightarrow> if is_already_revoked e then m' else f e)"
    if "\<exists>e. x = Some e \<and> \<not> is_already_revoked e" "\<And>e. inv (req.I name req) (f e)" for x m m' and f :: "ca_error \<Rightarrow> 'b pass"
    using that by auto
  show ?thesis
    unfolding process_revocation_def
    by (intro inv_bind inv_sum inv_option inv_if inv_ret material_reads attempt_keeps_request req.store_read_db
      inv_bind_answers [OF req.perform_db a] t)
qed

text \<open>
  A request leaves the store only when the CA has revoked the certificate: as long as the CA accepts
  no revocation and reports none as done, a retry pass over any store, with any sequence of store
  failures, keeps every outstanding request with its reason, its identity and its date, and its
  count of attempts never falls.
\<close>

theorem requests_outlive_refusals:
  assumes "never_revoked E" and "get_revoke_request name (w_db w) = Some req"
    and "run_state (retry_pending_revocations E core) w = (u, w')"
  shows "\<exists>r. get_revoke_request name (w_db w') = Some r \<and> rv_reason r = rv_reason req \<and>
    rv_identity r = rv_identity req \<and> rv_requested_at r = rv_requested_at req \<and> rv_attempts req \<le> rv_attempts r"
proof -
  have "inv (req.I name req) (retry_pending_revocations E core)"
    unfolding retry_pending_revocations_def by (intro inv process_keeps_request assms(1))
  from inv_run [OF this _ assms(3)] show ?thesis
    using assms(2) by (auto simp: outstanding_def)
qed

definition asked :: revoke_request where
  "asked = \<lparr>rv_cert_name = ''c'', rv_identity = ''serial:2A'', rv_reason = 1, rv_requested_at = 0,
     rv_attempts = 3, rv_last_error = ''503'', rv_last_attempt_at = 0\<rparr>"

theorem requests_outlive_refusals_witness:
  "\<exists>r. get_revoke_request ''c'' (w_db (snd (run_state
      (retry_pending_revocations (sample_env\<lparr>e_revoke := \<lambda>_. Some sample_error\<rparr>) True)
      (empty_world (empty_db\<lparr>d_revokes := [asked]\<rparr>))))) = Some r \<and> rv_reason r = 1 \<and> 3 \<le> rv_attempts r"
proof -
  let ?E = "sample_env\<lparr>e_revoke := \<lambda>_. Some sample_error\<rparr>" and ?w = "empty_world (empty_db\<lparr>d_revokes := [asked]\<rparr>)"
  obtain u w' where r: "run_state (retry_pending_revocations ?E True) ?w = (u, w')"
    by (metis old.unit.exhaust surj_pair)
  have "never_revoked ?E"
    by (simp add: never_revoked_def is_already_revoked_def sample_error_def already_revoked_type_def contains_def)
  moreover have "get_revoke_request ''c'' (w_db ?w) = Some asked"
    by (simp add: get_revoke_request_def empty_world_def row_get_Cons asked_def)
  ultimately have "\<exists>r. get_revoke_request ''c'' (w_db w') = Some r \<and> rv_reason r = rv_reason asked \<and>
      rv_identity r = rv_identity asked \<and> rv_requested_at r = rv_requested_at asked \<and>
      rv_attempts asked \<le> rv_attempts r"
    using r by (rule requests_outlive_refusals)
  then show ?thesis unfolding r snd_conv by (auto simp: asked_def)
qed

section \<open>An answered request is in the store\<close>

lemma record_answer:
  assumes "run_state (record_revocation E name reason) w = (e, w')"
  shows "case e of
      Some _ \<Rightarrow> w_db w' = w_db w
    | None \<Rightarrow> \<exists>st r. get_cert name (w_db w) = Some st \<and> get_revoke_request name (w_db w') = Some r \<and>
        rv_reason r = reason \<and> rv_identity r = identity_of E (c_cert_pem st)"
  using assms
  by (auto simp: record_revocation_def run_store_try Let_def split: option.splits sum.splits if_splits
    dest: get_add_revoke)

lemma process_answer:
  "post (req.I name q) (process_revocation E core n) (\<lambda>p w. p \<noteq> None \<longrightarrow> req.I name q w)"
proof -
  have d: "post (req.I name q) (do { store_write E f; ret None }) (\<lambda>p w. p \<noteq> None \<longrightarrow> req.I name q w)" for f
    by (simp add: post_def)
  have r: "post (req.I name q) (ret x) (\<lambda>p w. p \<noteq> None \<longrightarrow> req.I name q w)" for x
    by (simp add: post_def)
  show ?thesis
    unfolding process_revocation_def
    by (intro post_keep post_cases material_reads attempt_keeps_request req.store_read_db req.perform_db d r)
qed

text \<open>
  What the operator is told is true: \<open>NotRecorded\<close> means that no revocation request of any
  certificate has changed, \<open>Outstanding\<close> that a request of this name with this reason and the
  identity of the certificate stored at the time is in the store and will be retried.
\<close>

theorem revocation_answer_is_true:
  assumes "run_state (request_revocation E core name reason) w = (answer, w')"
  shows "case answer of
      NotRecorded _ \<Rightarrow> w_db w' = w_db w
    | Outstanding _ \<Rightarrow> \<exists>st r. get_cert name (w_db w) = Some st \<and> get_revoke_request name (w_db w') = Some r \<and>
        rv_reason r = reason \<and> rv_identity r = identity_of E (c_cert_pem st)
    | Revoked \<Rightarrow> True"
proof -
  obtain e w1 where e: "run_state (record_revocation E name reason) w = (e, w1)" by fastforce
  note ra = record_answer [OF e]
  show ?thesis
  proof (cases e)
    case (Some x)
    then show ?thesis using assms ra e by (auto simp: request_revocation_def)
  next
    case None
    then obtain st r where r: "get_cert name (w_db w) = Some st" "get_revoke_request name (w_db w1) = Some r"
      "rv_reason r = reason" "rv_identity r = identity_of E (c_cert_pem st)" using ra by auto
    obtain p w2 where p: "run_state (process_revocation E core name) w1 = (p, w2)" by fastforce
    have w2: "w' = w2" "answer = Revoked \<or> p \<noteq> None \<and> (\<exists>x. answer = Outstanding x)"
      using assms e None p by (auto simp: request_revocation_def split: option.splits)
    have "outstanding name r (w_db w1)" using r(2) by (simp add: outstanding_def)
    with post_run [OF process_answer _ p] have "p \<noteq> None \<longrightarrow> outstanding name r (w_db w2)" by blast
    then show ?thesis using w2 r by (auto simp: outstanding_def)
  qed
qed

section \<open>A revocation hits the certificate it is about\<close>

text \<open>\<open>der\<close> is the encoding of a certificate with the identity \<open>i\<close> that the database holds under \<open>name\<close>.\<close>

definition held_under :: "env \<Rightarrow> db \<Rightarrow> string \<Rightarrow> string \<Rightarrow> string \<Rightarrow> bool" where
  "held_under E d name i der \<longleftrightarrow> (\<exists>pem l. e_parse_leaf E pem = Some l \<and> cert_identity l = i \<and> der = lf_raw l \<and>
     ((\<exists>st. get_cert name d = Some st \<and> pem = c_cert_pem st) \<or>
      (\<exists>c \<in> set (list_retired_material name d). r_cert_pem c = Some pem)))"

lemma leaf_certificate_Inr: "leaf_certificate E pem = Inr l \<longleftrightarrow> e_parse_leaf E pem = Some l"
  by (simp add: leaf_certificate_def split: option.split)

lemma archived_answer:
  assumes "run_state (archived_der E name i) w = (x, w')"
  shows "w_calls w' = w_calls w \<and> w_db w' = w_db w \<and> (\<forall>der. x = Inr der \<longrightarrow> held_under E (w_db w) name i der)"
proof -
  have f: "held_under E d name i (lf_raw (projr l))"
    if "find P (map (\<lambda>c. leaf_certificate E (case r_cert_pem c of None \<Rightarrow> [] | Some p \<Rightarrow> p))
          (list_retired_material name d)) = Some l" "\<And>l. P l \<longleftrightarrow> \<not> isl l \<and> cert_identity (projr l) = i" for P l d
  proof -
    from that(1) have l: "P l" "l \<in> (\<lambda>c. leaf_certificate E (case r_cert_pem c of None \<Rightarrow> [] | Some p \<Rightarrow> p)) `
        set (list_retired_material name d)"
      by (auto simp: find_Some_iff dest: nth_mem)
    then obtain c where c: "c \<in> set (list_retired_material name d)"
      "l = leaf_certificate E (case r_cert_pem c of None \<Rightarrow> [] | Some p \<Rightarrow> p)" by blast
    have i: "\<not> isl l" "cert_identity (projr l) = i" using l(1) that(2) by simp_all
    obtain p where p: "r_cert_pem c = Some p" using c(1) by (auto simp: list_retired_material_def)
    have "e_parse_leaf E p = Some (projr l)"
      using c(2) i(1) p leaf_certificate_Inr [of E p "projr l"] by simp
    then show ?thesis using c(1) i(2) p unfolding held_under_def by blast
  qed
  show ?thesis
    using assms by (auto simp: archived_der_def Let_def split: if_splits option.splits dest!: f)
qed

lemma material_answer:
  assumes "run_state (revocation_material E name req) w = (x, w')" and "rv_identity req \<noteq> []"
  shows "w_calls w' = w_calls w \<and> w_db w' = w_db w \<and>
    (\<forall>der. x = Inr der \<longrightarrow> held_under E (w_db w) name (rv_identity req) der)"
  using assms
  by (auto simp: revocation_material_def Let_def held_under_def leaf_certificate_Inr
    split: option.splits sum.splits if_splits dest!: archived_answer)

text \<open>
  C17. A renewal between the request and its retry does not redirect the revocation: the only call an
  attempt makes revokes, for the recorded reason, a certificate with the identity recorded in the
  request, which is the one stored under the name or one archived for it; if the database holds no
  such certificate, no call is made and the request stays.
\<close>

theorem revocation_hits_its_target:
  assumes "get_revoke_request name (w_db w) = Some req" and "rv_identity req \<noteq> []"
    and "run_state (process_revocation E core name) w = (r, w')"
  shows "w_calls w' = w_calls w \<or> (\<exists>der. w_calls w' = RevokeCertificate der (rv_reason req) # w_calls w \<and>
    held_under E (w_db w) name (rv_identity req) der)"
proof -
  have b: "inv (\<lambda>w. w_calls w = cs) (book_attempt E n e)" for cs n e
    by (simp add: book_attempt_def inv_def run_store_try split: option.split)
  let ?w = "w\<lparr>w_tick := Suc (w_tick w)\<rparr>"
  obtain m w1 where m: "run_state (revocation_material E name req) ?w = (m, w1)" by fastforce
  note mm = material_answer [OF m assms(2)]
  show ?thesis
  proof (cases "e_fault E (w_tick w) \<or> \<not> core \<or> isl m")
    case True
    then consider "e_fault E (w_tick w) \<or> \<not> core" | e where "m = Inl e" "core" "\<not> e_fault E (w_tick w)"
      by (cases m) auto
    then show ?thesis
    proof cases
      case 1
      then show ?thesis
        using assms(1,3) by (cases "e_fault E (w_tick w)") (auto simp: process_revocation_def)
    next
      case 2
      obtain u w2 where u: "run_state (book_attempt E name e) w1 = (u, w2)"
        by (metis old.unit.exhaust surj_pair)
      have "w_calls w2 = w_calls w" using inv_run [OF b _ u] mm by simp
      then show ?thesis using 2 assms(1,3) m u by (simp add: process_revocation_def)
    qed
  next
    case False
    then obtain der where der: "m = Inr der" "core" "\<not> e_fault E (w_tick w)" by (cases m) auto
    let ?f = "\<lambda>a. case a of
        None \<Rightarrow> do { store_write E (\<lambda>_. clear_revoke_request name); ret None }
      | Some err \<Rightarrow> if is_already_revoked err then do { store_write E (\<lambda>_. clear_revoke_request name); ret None }
          else do { book_attempt E name (ce_text err); ret (Some (''revoke '' @ name @ '': '' @ ce_text err)) }"
    have g: "inv (\<lambda>w. w_calls w = cs) (?f a)" for cs a
      by (intro inv b) (simp_all add: inv_def)
    let ?w2 = "w1\<lparr>w_tick := Suc (w_tick w1), w_calls := RevokeCertificate der (rv_reason req) # w_calls w1\<rparr>"
    have "run_state (?f (e_revoke E (w_tick w1))) ?w2 = (r, w')"
      using assms(1,3) der m by (simp add: process_revocation_def)
    from inv_run [OF g _ this] show ?thesis using mm der(1) by auto
  qed
qed

theorem revocation_answer_is_true_witness:
  "\<exists>e w'. run_state (request_revocation sample_env True ''c'' 1) (empty_world empty_db) = (NotRecorded e, w') \<and>
     w_db w' = empty_db"
proof -
  obtain a w' where r: "run_state (request_revocation sample_env True ''c'' 1) (empty_world empty_db) = (a, w')"
    by fastforce
  moreover have "\<exists>e. fst (run_state (request_revocation sample_env True ''c'' 1) (empty_world empty_db)) = NotRecorded e"
    by (simp add: request_revocation_def record_revocation_def sample_env_def empty_world_def get_cert_def empty_db_def)
  ultimately obtain e where "a = NotRecorded e" by auto
  with revocation_answer_is_true [OF r] show ?thesis using r by (simp add: empty_world_def)
qed

theorem revocation_hits_its_target_witness:
  "let E = sample_env\<lparr>e_parse_leaf := \<lambda>p. if p = ''OLD'' then Some (sample_leaf\<lparr>lf_aki := [], lf_serial := 42\<rparr>)
             else if p = ''NEW'' then Some (sample_leaf\<lparr>lf_aki := [], lf_serial := 43, lf_raw := ''N''\<rparr>) else None\<rparr>;
       d = empty_db\<lparr>d_revokes := [asked], d_certs := [(empty_cert ''c'')\<lparr>c_cert_pem := ''NEW''\<rparr>],
             d_retired := [\<lparr>r_cert_id = ''i'', r_cert_name = ''c'', r_retired_at = 0, r_cert_pem = Some ''OLD'', r_key_pem = None\<rparr>]\<rparr>;
       w = snd (run_state (process_revocation E True ''c'') (empty_world d))
   in w_calls w = [] \<or> (\<exists>der. w_calls w = [RevokeCertificate der 1] \<and> held_under E d ''c'' ''serial:2A'' der)"
proof -
  let ?E = "sample_env\<lparr>e_parse_leaf := \<lambda>p. if p = ''OLD'' then Some (sample_leaf\<lparr>lf_aki := [], lf_serial := 42\<rparr>)
             else if p = ''NEW'' then Some (sample_leaf\<lparr>lf_aki := [], lf_serial := 43, lf_raw := ''N''\<rparr>) else None\<rparr>"
  let ?d = "empty_db\<lparr>d_revokes := [asked], d_certs := [(empty_cert ''c'')\<lparr>c_cert_pem := ''NEW''\<rparr>],
             d_retired := [\<lparr>r_cert_id = ''i'', r_cert_name = ''c'', r_retired_at = 0, r_cert_pem = Some ''OLD'', r_key_pem = None\<rparr>]\<rparr>"
  obtain r w' where r: "run_state (process_revocation ?E True ''c'') (empty_world ?d) = (r, w')" by fastforce
  have "get_revoke_request ''c'' (w_db (empty_world ?d)) = Some asked"
    by (simp add: get_revoke_request_def empty_world_def row_get_Cons asked_def)
  moreover have "rv_identity asked \<noteq> []" by (simp add: asked_def)
  ultimately have "w_calls w' = [] \<or> (\<exists>der. w_calls w' = [RevokeCertificate der 1] \<and> held_under ?E ?d ''c'' ''serial:2A'' der)"
    using revocation_hits_its_target [OF _ _ r] by (simp add: empty_world_def asked_def)
  then show ?thesis unfolding Let_def r by simp
qed

end
