(* ===== verification/Cloud.thy ===== *)
theory Cloud
  imports Prelude "HOL-Library.AList"
begin

text \<open>
  The answers of the cloud and what they say (package \<open>tcerr\<close> and the response readers of package
  \<open>deploy\<close>): which errors a retry cannot fix, how many resources an enumeration found and whether that
  is the whole answer, the state of a delete task, the rows of the inventory, and the memory of
  earlier enumerations.

  A response is the tree of the SDK's pointers: an absent field, element or response is \<open>None\<close>. Counts
  of resources are unbounded here; the code converts them to \<open>int\<close>.
\<close>

section \<open>Error codes\<close>

text \<open>The code of a \<open>TencentCloudSDKError\<close> in the error's chain, if there is one, and its text.\<close>

record sdk_error =
  se_code :: "string option"
  se_text :: string

definition code_no_data_of_record :: string where
  "code_no_data_of_record = ''ResourceNotFound.NoDataOfRecord''"

definition code_no_data_of_domain :: string where
  "code_no_data_of_domain = ''ResourceNotFound.NoDataOfDomain''"

definition code_domain_not_exists :: string where
  "code_domain_not_exists = ''InvalidParameterValue.DomainNotExists''"

definition is_no_data :: "sdk_error \<Rightarrow> string \<Rightarrow> bool" where
  "is_no_data e code = (case se_code e of Some c \<Rightarrow> c = code | None \<Rightarrow> contains (se_text e) code)"

definition is_no_data_of_record :: "sdk_error \<Rightarrow> bool" where
  "is_no_data_of_record e = is_no_data e code_no_data_of_record"

definition is_no_data_of_domain :: "sdk_error \<Rightarrow> bool" where
  "is_no_data_of_domain e \<longleftrightarrow> is_no_data e code_no_data_of_domain \<or> is_no_data e code_domain_not_exists"

definition permanent_code_prefixes :: "string list" where
  "permanent_code_prefixes = [''AuthFailure.'', ''UnauthorizedOperation'', ''InvalidParameter.'',
     ''InvalidParameterValue.'', ''MissingParameter'', ''UnsupportedOperation'', ''UnsupportedRegion'',
     ''LimitExceeded.'']"

definition error_code :: "sdk_error \<Rightarrow> string" where
  "error_code e = (case se_code e of Some c \<Rightarrow> c | None \<Rightarrow> [])"

definition is_permanent :: "sdk_error \<Rightarrow> bool" where
  "is_permanent e =
     (if error_code e \<noteq> [] then list_ex (\<lambda>p. prefix p (error_code e)) permanent_code_prefixes
      else list_ex (contains (se_text e)) permanent_code_prefixes)"

definition is_throttled :: "sdk_error \<Rightarrow> bool" where
  "is_throttled e \<longleftrightarrow> prefix ''RequestLimitExceeded'' (error_code e) \<or> contains (se_text e) ''RequestLimitExceeded''"

definition is_certificate_not_found :: "sdk_error \<Rightarrow> bool" where
  "is_certificate_not_found e \<longleftrightarrow> error_code e = ''FailedOperation.CertificateNotFound'' \<or>
     contains (se_text e) ''FailedOperation.CertificateNotFound''"

section \<open>The progress of a switch\<close>

text \<open>\<open>UpdateSyncProgress\<close>: per resource type the counts of its regions.\<close>

type_synonym progress = "(int option) option list option list"

definition progress_regions :: "progress \<Rightarrow> int option option list" where
  "progress_regions ps = concat (map (\<lambda>p. case p of None \<Rightarrow> [] | Some rs \<Rightarrow> rs) ps)"

text \<open>\<open>progressBoundCount\<close>: the sum of the counts present, and whether every region has answered.\<close>

fun add_region :: "int option option \<Rightarrow> int \<times> nat \<times> nat \<times> nat \<Rightarrow> int \<times> nat \<times> nat \<times> nat" where
  "add_region None (n, listed, answered, unanswered) = (n, listed, answered, Suc unanswered)"
| "add_region (Some None) (n, listed, answered, unanswered) = (n, Suc listed, answered, unanswered)"
| "add_region (Some (Some k)) (n, listed, answered, unanswered) = (n + k, Suc listed, Suc answered, unanswered)"

fun add_progress :: "int option option list option \<Rightarrow> int \<times> nat \<times> nat \<times> nat \<Rightarrow> int \<times> nat \<times> nat \<times> nat" where
  "add_progress None (n, listed, answered, unanswered) = (n, listed, answered, Suc unanswered)"
| "add_progress (Some rs) (n, listed, answered, unanswered) =
     fold add_region rs (n, listed, answered, if rs = [] then Suc unanswered else unanswered)"

definition progress_bound_count :: "progress \<Rightarrow> int \<times> bool" where
  "progress_bound_count ps =
     (case fold add_progress ps (0, 0, 0, 0) of
        (n, listed, answered, unanswered) \<Rightarrow> (n, 0 < listed \<and> answered = listed \<and> unanswered = 0))"

section \<open>Counting bindings\<close>

record binding_count =
  bc_count :: nat
  bc_complete :: bool

record region_result =
  rr_total :: "nat option"
  rr_error :: "string option"

text \<open>\<open>SyncTaskBindResourceResult\<close>: \<open>bt_error\<close> is the message and code of its \<open>Error\<close>.\<close>

record bind_task =
  bt_task :: "string option"
  bt_error :: "(string option \<times> string option) option"
  bt_status :: "int option"
  bt_results :: "region_result option list option list"

definition bind_status_done :: int where "bind_status_done = 1"

definition deref :: "string option \<Rightarrow> string" where
  "deref s = (case s of None \<Rightarrow> [] | Some s \<Rightarrow> s)"

definition task_error_text :: "string option \<times> string option \<Rightarrow> string" where
  "task_error_text e =
     (if deref (fst e) \<noteq> [] then deref (fst e)
      else if deref (snd e) \<noteq> [] then deref (snd e)
      else ''the server reported an error with no message or code'')"

text \<open>What one region adds to the count; \<open>None\<close>: the region has not answered.\<close>

definition region_answer :: "region_result option \<Rightarrow> nat option" where
  "region_answer r =
     (case r of
        None \<Rightarrow> None
      | Some r \<Rightarrow>
          (case rr_total r of
             None \<Rightarrow> None
           | Some n \<Rightarrow> if rr_error r \<noteq> None \<and> rr_error r \<noteq> Some [] then None else Some n))"

fun count_regions :: "region_result option list \<Rightarrow> binding_count \<Rightarrow> binding_count" where
  "count_regions [] c = c"
| "count_regions (r # rs) c =
     count_regions rs (case region_answer r of
         None \<Rightarrow> c\<lparr>bc_complete := False\<rparr>
       | Some n \<Rightarrow> c\<lparr>bc_count := bc_count c + n\<rparr>)"

fun count_results :: "region_result option list option list \<Rightarrow> binding_count \<Rightarrow> binding_count" where
  "count_results [] c = c"
| "count_results (None # rs) c = count_results rs (c\<lparr>bc_complete := False\<rparr>)"
| "count_results (Some regions # rs) c =
     count_results rs (count_regions regions (if regions = [] then c\<lparr>bc_complete := False\<rparr> else c))"

text \<open>\<open>Inl\<close>: the task failed; \<open>Inr None\<close>: not done yet.\<close>

fun count_bindings :: "bind_task option list \<Rightarrow> string \<Rightarrow> string + binding_count option" where
  "count_bindings [] task = Inr None"
| "count_bindings (None # ts) task = count_bindings ts task"
| "count_bindings (Some t # ts) task =
     (if bt_task t \<noteq> Some task then count_bindings ts task
      else case bt_error t of
          Some e \<Rightarrow> Inl (''bind-resource task '' @ task @ '' failed: '' @ task_error_text e)
        | None \<Rightarrow>
            if bt_status t \<noteq> Some bind_status_done \<or> bt_results t = [] then Inr None
            else Inr (Some (count_results (bt_results t) \<lparr>bc_count = 0, bc_complete = True\<rparr>)))"

text \<open>
  What a count says. \<open>regions\<close> are the region answers of a finished task: the count is the sum over
  those that answered, and it is complete exactly when every entry is present, lists a region, and
  every region answered. A complete zero is therefore a zero of every region.
\<close>

definition answered_sum :: "region_result option list option list \<Rightarrow> nat" where
  "answered_sum rs = (\<Sum>r \<leftarrow> concat (map (case_option [] (\<lambda>x. x)) rs). case_option 0 (\<lambda>x. x) (region_answer r))"

definition all_answered :: "region_result option list option list \<Rightarrow> bool" where
  "all_answered rs \<longleftrightarrow> list_all (\<lambda>x. case x of None \<Rightarrow> False
     | Some regions \<Rightarrow> regions \<noteq> [] \<and> list_all (\<lambda>r. region_answer r \<noteq> None) regions) rs"

lemma count_regions_spec:
  "count_regions rs c = c\<lparr>bc_count := bc_count c + (\<Sum>r \<leftarrow> rs. case_option 0 (\<lambda>x. x) (region_answer r)),
     bc_complete := (bc_complete c \<and> list_all (\<lambda>r. region_answer r \<noteq> None) rs)\<rparr>"
  by (induction rs c rule: count_regions.induct) (auto split: option.splits)

lemma count_results_spec:
  "count_results rs c = c\<lparr>bc_count := bc_count c + answered_sum rs, bc_complete := (bc_complete c \<and> all_answered rs)\<rparr>"
  by (induction rs c rule: count_results.induct)
    (auto simp: count_regions_spec answered_sum_def all_answered_def)

lemma count_bindings_done:
  assumes "count_bindings ts task = Inr (Some c)"
  shows "\<exists>t. Some t \<in> set ts \<and> bt_task t = Some task \<and> bt_error t = None \<and> bt_status t = Some bind_status_done \<and>
    bt_results t \<noteq> [] \<and> bc_count c = answered_sum (bt_results t) \<and> bc_complete c = all_answered (bt_results t)"
  using assms
  by (induction ts task rule: count_bindings.induct)
    (fastforce simp: count_results_spec split: if_splits option.splits)+

section \<open>Delete tasks\<close>

record delete_task =
  dt_task :: "string option"
  dt_status :: "nat option"
  dt_error :: "string option"

definition delete_task_running :: nat where "delete_task_running = 0"
definition delete_task_success :: nat where "delete_task_success = 1"

fun delete_task_status :: "delete_task option list \<Rightarrow> string \<Rightarrow> (nat \<times> string) option" where
  "delete_task_status [] task = None"
| "delete_task_status (None # ts) task = delete_task_status ts task"
| "delete_task_status (Some t # ts) task =
     (if dt_task t \<noteq> Some task then delete_task_status ts task
      else case dt_status t of
          None \<Rightarrow> None
        | Some s \<Rightarrow> Some (s, if deref (dt_error t) \<noteq> [] then '': '' @ deref (dt_error t) else []))"

section \<open>The rows of the inventory\<close>

record binding_row =
  br_resource_type :: string
  br_region :: string
  br_load_balancer_id :: string
  br_load_balancer_name :: string
  br_listener_id :: string
  br_listener_name :: string
  br_protocol :: string
  br_port :: int
  br_sni_domain :: string
  br_role :: string
  br_row_complete :: bool

record binding_snapshot =
  sn_count :: nat
  sn_complete :: bool
  sn_items :: "binding_row list"

text \<open>A certificate of a listener or rule: its id, if the response has one.\<close>

type_synonym bound_cert = "string option option"

record clb_rule =
  cr_domain :: "string option"
  cr_cert :: bound_cert

record clb_listener =
  cl_id :: "string option"
  cl_name :: "string option"
  cl_protocol :: "string option"
  cl_cert :: bound_cert
  cl_rules :: "clb_rule option list"

record clb_instance =
  ci_id :: "string option"
  ci_name :: "string option"
  ci_listeners :: "clb_listener option list"

record clb_region =
  cg_region :: "string option"
  cg_error :: "string option"
  cg_total :: "nat option"
  cg_instances :: "clb_instance option list"

record task_detail =
  td_status :: "int option"
  td_clb :: "clb_region option list"

text \<open>\<open>strings.EqualFold\<close> on certificate ids, which are ASCII.\<close>

definition role_of :: "bound_cert \<Rightarrow> string \<Rightarrow> string" where
  "role_of c want =
     (case c of
        Some (Some i) \<Rightarrow> if want = [] then [] else if to_lower i = to_lower want then ''primary'' else ''ext''
      | _ \<Rightarrow> [])"

definition rows_for_listener ::
  "string \<Rightarrow> string \<Rightarrow> string \<Rightarrow> clb_listener \<Rightarrow> string \<Rightarrow> binding_row list" where
  "rows_for_listener region lb lb_name lis cert =
     (let base = \<lparr>br_resource_type = ''clb'', br_region = region, br_load_balancer_id = lb,
            br_load_balancer_name = lb_name, br_listener_id = deref (cl_id lis),
            br_listener_name = deref (cl_name lis), br_protocol = deref (cl_protocol lis), br_port = 0,
            br_sni_domain = [], br_role = role_of (cl_cert lis) cert, br_row_complete = True\<rparr>;
          rows = map (\<lambda>r. base\<lparr>br_sni_domain := deref (cr_domain r),
            br_role := (if cr_cert r \<noteq> None then role_of (cr_cert r) cert else br_role base)\<rparr>)
            (List.map_filter (\<lambda>r. r) (cl_rules lis))
      in if rows = [] then [base] else rows)"

definition rows_for_instance :: "string \<Rightarrow> clb_instance \<Rightarrow> string \<Rightarrow> binding_row list" where
  "rows_for_instance region inst cert =
     (if ci_listeners inst = [] then
        [\<lparr>br_resource_type = ''clb'', br_region = region, br_load_balancer_id = deref (ci_id inst),
          br_load_balancer_name = deref (ci_name inst), br_listener_id = [], br_listener_name = [],
          br_protocol = [], br_port = 0, br_sni_domain = [], br_role = [], br_row_complete = True\<rparr>]
      else concat (map (\<lambda>l. rows_for_listener region (deref (ci_id inst)) (deref (ci_name inst)) l cert)
             (List.map_filter (\<lambda>l. l) (ci_listeners inst))))"

text \<open>The rows of a region, and whether it is listed in full.\<close>

definition rows_for_region :: "clb_region option \<Rightarrow> string \<Rightarrow> binding_row list \<times> bool" where
  "rows_for_region g cert =
     (case g of
        None \<Rightarrow> ([], False)
      | Some g \<Rightarrow>
          if deref (cg_error g) \<noteq> [] \<or> cg_total g = None then ([], False)
          else
            (let insts = List.map_filter (\<lambda>i. i) (cg_instances g)
             in (concat (map (\<lambda>i. rows_for_instance (deref (cg_region g)) i cert) insts),
                 list_all (\<lambda>i. i \<noteq> None) (cg_instances g) \<and>
                 list_all (\<lambda>i. list_all (\<lambda>l. l \<noteq> None) (ci_listeners i)) insts \<and>
                 the (cg_total g) \<le> length insts)))"

definition parse_clb_binding_items :: "task_detail option \<Rightarrow> string \<Rightarrow> binding_snapshot" where
  "parse_clb_binding_items resp cert =
     (case resp of
        None \<Rightarrow> \<lparr>sn_count = 0, sn_complete = False, sn_items = []\<rparr>
      | Some r \<Rightarrow>
          if td_status r \<noteq> Some bind_status_done \<or> td_clb r = [] then
            \<lparr>sn_count = 0, sn_complete = False, sn_items = []\<rparr>
          else
            (let parts = map (\<lambda>g. rows_for_region g cert) (td_clb r);
                 items = concat (map fst parts)
             in \<lparr>sn_count = length items, sn_complete = list_all snd parts, sn_items = items\<rparr>))"

section \<open>The memory of enumerations\<close>

text \<open>
  \<open>bindingMemo\<close>: a bounded map of the last detail read per certificate id. An entry is given up when
  it is older than the TTL or when room is needed and it is the oldest. Which of several equally old
  entries goes first depends on Go's map order; the model takes the first.
\<close>

type_synonym binding_memo = "(string \<times> binding_snapshot \<times> instant) list"

definition binding_memo_ttl :: duration where "binding_memo_ttl = 7 * ns_hour"
definition binding_memo_max :: nat where "binding_memo_max = 4096"

definition oldest_entry :: "binding_memo \<Rightarrow> string" where
  "oldest_entry m = fst (foldl (\<lambda>a b. if snd (snd b) < snd (snd a) then b else a) (hd m) (tl m))"

fun evict_oldest :: "nat \<Rightarrow> binding_memo \<Rightarrow> binding_memo" where
  "evict_oldest 0 m = m"
| "evict_oldest (Suc n) m =
     (if length m \<ge> binding_memo_max \<and> m \<noteq> [] then evict_oldest n (AList.delete (oldest_entry m) m) else m)"

definition remember_bindings :: "instant \<Rightarrow> string \<Rightarrow> binding_snapshot \<Rightarrow> binding_memo \<Rightarrow> binding_memo" where
  "remember_bindings now cert snap m =
     (if cert = [] then m
      else
        (let m' = (if length m \<ge> binding_memo_max then
             (let fresh = filter (\<lambda>e. \<not> now - snd (snd e) > binding_memo_ttl) m
              in evict_oldest (length fresh) fresh) else m)
         in AList.update cert (snap, now) m'))"

definition forget_bindings :: "string \<Rightarrow> binding_memo \<Rightarrow> binding_memo" where
  "forget_bindings cert m = (if cert = [] then m else AList.delete cert m)"

definition lookup_cached_bindings ::
  "instant \<Rightarrow> string \<Rightarrow> binding_memo \<Rightarrow> (binding_snapshot \<times> instant) option \<times> binding_memo" where
  "lookup_cached_bindings now cert m =
     (if cert = [] then (None, m)
      else case map_of m cert of
          None \<Rightarrow> (None, m)
        | Some (snap, t) \<Rightarrow>
            if now - t > binding_memo_ttl then (None, AList.delete cert m) else (Some (snap, t), m))"

end
