(* ===== verification/Deploy.thy ===== *)
theory Deploy
  imports World Cloud
begin

text \<open>
  The deployer for Tencent Cloud load balancers (package \<open>deploy\<close>): uploading a certificate, the
  one-click switch from an old to a new certificate, the asynchronous tasks it waits for, the
  enumeration of the bindings of a certificate and the deletion of a retired one.

  The deployer runs over its own state, \<open>cloud\<close>: the number of effects performed, the log of the API
  calls with the answers they got, and the memory of enumerations. \<open>cloud_env\<close> answers the calls, so a
  theorem for every \<open>cloud_env\<close> covers every sequence of answers of the cloud. \<open>Cut\<close> is the value of
  a loop cut off by its fuel.
\<close>

section \<open>What is outside\<close>

record update_reply =
  up_record :: "nat option"
  up_status :: "int option"
  up_progress :: progress

type_synonym counts = "int \<times> int \<times> int \<times> int"

text \<open>The counters of a deploy record, each absent until the server has instrumented the task.\<close>

record record_reply =
  rp_success :: "int option"
  rp_failed :: "int option"
  rp_running :: "int option"
  rp_pending :: "int option"

record delete_reply =
  dl_result :: "bool option"
  dl_task :: "string option"

text \<open>\<open>CertTaskIds\<close>: the certificate and the task of each entry.\<close>

type_synonym task_ids = "(string option \<times> string option) option list"

record uploaded_cert =
  uc_id :: "string option"
  uc_alias :: "string option"

record list_reply =
  ls_certs :: "uploaded_cert option list"
  ls_total :: "nat option"

text \<open>Every call of the API with its answer; the response pointer is \<open>None\<close> when it is nil.\<close>

datatype api_event =
    EvUpload string "sdk_error + (string option \<times> string option) option"
  | EvUpdate string string "sdk_error + update_reply option"
  | EvRecord nat "sdk_error + record_reply option"
  | EvCreate string bool "sdk_error + task_ids option"
  | EvResult string "sdk_error + bind_task option list option"
  | EvDetail string "sdk_error + task_detail option"
  | EvDelete string "sdk_error + delete_reply option"
  | EvDeleteTask string "sdk_error + delete_task option list option"
  | EvList nat "sdk_error + list_reply option"
  | EvWait duration

record cloud_env =
  cl_now :: "nat \<Rightarrow> instant"
  cl_ctx :: "nat \<Rightarrow> (string \<times> bool) option"
  cl_wait :: "nat \<Rightarrow> string option"
  cl_client :: "nat \<Rightarrow> string option"
  cl_upload :: "nat \<Rightarrow> sdk_error + (string option \<times> string option) option"
  cl_update :: "nat \<Rightarrow> sdk_error + update_reply option"
  cl_record :: "nat \<Rightarrow> sdk_error + record_reply option"
  cl_create :: "nat \<Rightarrow> sdk_error + task_ids option"
  cl_result :: "nat \<Rightarrow> sdk_error + bind_task option list option"
  cl_detail :: "nat \<Rightarrow> sdk_error + task_detail option"
  cl_delete :: "nat \<Rightarrow> sdk_error + delete_reply option"
  cl_delete_task :: "nat \<Rightarrow> sdk_error + delete_task option list option"
  cl_list :: "nat \<Rightarrow> sdk_error + list_reply option"
  cl_regions :: "string list"
  cl_enumeration_budget :: duration

record cloud =
  cw_tick :: nat
  cw_log :: "api_event list"
  cw_memo :: binding_memo

type_synonym 'a deployment_step = "(cloud, 'a) state"

text \<open>An effect whose answer is kept in the log.\<close>

definition cloud_ask :: "(nat \<Rightarrow> 'a) \<Rightarrow> 'a deployment_step" where
  "cloud_ask f = State (\<lambda>w. (f (cw_tick w), w\<lparr>cw_tick := Suc (cw_tick w)\<rparr>))"

definition api :: "('a \<Rightarrow> api_event) \<Rightarrow> (nat \<Rightarrow> 'a) \<Rightarrow> 'a deployment_step" where
  "api ev f = State (\<lambda>w. (f (cw_tick w), w\<lparr>cw_tick := Suc (cw_tick w), cw_log := ev (f (cw_tick w)) # cw_log w\<rparr>))"

abbreviation cloud_clock :: "cloud_env \<Rightarrow> instant deployment_step" where
  "cloud_clock E \<equiv> cloud_ask (cl_now E)"

text \<open>\<open>waitBetweenPolls\<close>: \<open>Some\<close> the context's error when the wait was cut short.\<close>

definition wait_between_polls :: "cloud_env \<Rightarrow> duration \<Rightarrow> string option deployment_step" where
  "wait_between_polls E d = api (\<lambda>_. EvWait d) (cl_wait E)"

definition poll_wait :: "duration \<Rightarrow> bool \<Rightarrow> duration" where
  "poll_wait base throttled = (if throttled then 3 * base else base)"

text \<open>\<open>cl_ctx\<close> is \<open>ctx.Err()\<close>: its text and whether it is \<open>context.Canceled\<close>.\<close>

definition sdk_call_error :: "cloud_env \<Rightarrow> string \<Rightarrow> sdk_error \<Rightarrow> sdk_error deployment_step" where
  "sdk_call_error E what err = do {
     c \<leftarrow> cloud_ask (cl_ctx E);
     case c of
       Some (t, True) \<Rightarrow> ret \<lparr>se_code = None, se_text = what @ '': '' @ t\<rparr>
     | _ \<Rightarrow> do {
         c' \<leftarrow> cloud_ask (cl_ctx E);
         ret (case c' of
             Some (t, _) \<Rightarrow> err\<lparr>se_text := what @ '': '' @ se_text err @ '' (context: '' @ t @ '')''\<rparr>
           | None \<Rightarrow> err\<lparr>se_text := what @ '': '' @ se_text err\<rparr>) } }"

definition plain_error :: "string \<Rightarrow> sdk_error" where
  "plain_error t = \<lparr>se_code = None, se_text = t\<rparr>"

section \<open>Waiting for a deploy record\<close>

datatype verdict = Cut | Ended "deploy_error option"

definition deploy_record_grace :: duration where "deploy_record_grace = 15 * ns_second"
definition default_enumeration_budget :: duration where "default_enumeration_budget = 3 * ns_minute"
definition record_timeout :: duration where "record_timeout = 3 * ns_minute"
definition update_timeout :: duration where "update_timeout = 2 * ns_minute"
definition delete_task_timeout :: duration where "delete_task_timeout = 2 * ns_minute"

definition no_resource_bound_error :: "string \<Rightarrow> string list \<Rightarrow> string" where
  "no_resource_bound_error old regions =
     ''UpdateCertificateInstance found no resource bound to the old certificate '' @ old @ '' (regions='' @
     show_names regions @ ''); refusing to mark the new certificate as deployed. Check that the CLB listener '' @
     ''has it bound (an SNI listener must use multi_cert_info; the primary certificate_id is silently ignored)''"

definition describe_deploy_record :: "cloud_env \<Rightarrow> nat \<Rightarrow> (sdk_error + counts option) deployment_step" where
  "describe_deploy_record E i = do {
     x \<leftarrow> api (EvRecord i) (cl_record E);
     case x of
       Inl err \<Rightarrow> do {
         e \<leftarrow> sdk_call_error E (''DescribeHostUpdateRecordDetail('' @ show_int (int i) @ '')'') err; ret (Inl e) }
     | Inr None \<Rightarrow> ret (Inl (plain_error ''DescribeHostUpdateRecordDetail returned an empty response''))
     | Inr (Some r) \<Rightarrow> ret (Inr (case (rp_success r, rp_failed r, rp_running r, rp_pending r) of
           (Some s, Some f, Some rn, Some p) \<Rightarrow> Some (s, f, rn, p)
         | _ \<Rightarrow> None)) }"

text \<open>What an instrumented record says; \<open>Some\<close>: the wait is over.\<close>

fun record_finished :: "counts \<Rightarrow> deploy_error option option" where
  "record_finished (s, f, rn, p) =
     (if rn = 0 \<and> p = 0 \<and> s + f > 0 then
        Some (if f > 0 then Some (DeployFailed (''one-click update finished with '' @ show_int f @
          '' resources failed ('' @ show_int s @ '' succeeded)'')) else None)
      else None)"

record poll_state =
  pl_counts :: counts
  pl_last_error :: "string option"
  pl_failures :: nat
  pl_throttled :: bool

definition no_polls :: poll_state where
  "no_polls = \<lparr>pl_counts = (0, 0, 0, 0), pl_last_error = None, pl_failures = 0, pl_throttled = False\<rparr>"

definition count_failure :: "sdk_error \<Rightarrow> poll_state \<Rightarrow> poll_state" where
  "count_failure err s = s\<lparr>pl_last_error := Some (se_text err), pl_failures := Suc (pl_failures s),
     pl_throttled := (pl_throttled s \<or> is_throttled err)\<rparr>"

fun show_counts :: "counts \<Rightarrow> string" where
  "show_counts (s, f, rn, p) = ''(success='' @ show_int s @ '' failed='' @ show_int f @ '' running='' @ show_int rn @
     '' pending='' @ show_int p @ '')''"

definition failed_polls :: "poll_state \<Rightarrow> string" where
  "failed_polls s = (case pl_last_error s of None \<Rightarrow> []
     | Some e \<Rightarrow> ''; the last '' @ show_int (int (pl_failures s)) @ '' polls failed, most recently: '' @ e)"

text \<open>One look at the record: \<open>Inl\<close> the verdict, \<open>Inr\<close> what is known for the next look.\<close>

definition look_at_record ::
  "cloud_env \<Rightarrow> nat \<Rightarrow> string \<Rightarrow> instant \<Rightarrow> poll_state \<Rightarrow> (deploy_error option + poll_state) deployment_step" where
  "look_at_record E i old grace s = do {
     x \<leftarrow> describe_deploy_record E i;
     case x of
       Inl err \<Rightarrow>
         ret (if is_permanent err then
            Inl (Some (DeployFailed (''cannot query one-click update task '' @ show_int (int i) @ '': '' @ se_text err)))
          else Inr (count_failure err s))
     | Inr None \<Rightarrow> ret (Inr s)
     | Inr (Some c) \<Rightarrow>
         (case record_finished c of
            Some v \<Rightarrow> ret (Inl v)
          | None \<Rightarrow>
              if c = (0, 0, 0, 0) then do {
                now \<leftarrow> cloud_clock E;
                ret (if now > grace then Inl (Some (DeployFailed (no_resource_bound_error old (cl_regions E))))
                  else Inr (s\<lparr>pl_counts := c\<rparr>)) }
              else ret (Inr (s\<lparr>pl_counts := c\<rparr>))) }"

fun poll_record ::
  "cloud_env \<Rightarrow> nat \<Rightarrow> nat \<Rightarrow> string \<Rightarrow> instant \<Rightarrow> instant \<Rightarrow> poll_state \<Rightarrow> verdict deployment_step" where
  "poll_record E 0 i old deadline grace s = ret Cut"
| "poll_record E (Suc n) i old deadline grace s = do {
     x \<leftarrow> look_at_record E i old grace s;
     case x of
       Inl v \<Rightarrow> ret (Ended v)
     | Inr s' \<Rightarrow> do {
         now \<leftarrow> cloud_clock E;
         if now > deadline then
           ret (Ended (Some (DeployFailed (''one-click update task '' @ show_int (int i) @ '' did not finish within 3m '' @
             show_counts (pl_counts s') @ failed_polls s'))))
         else do {
           e \<leftarrow> wait_between_polls E (poll_wait (5 * ns_second) (pl_throttled s'));
           case e of
             Some e \<Rightarrow> ret (Ended (Some (DeployFailed e)))
           | None \<Rightarrow> poll_record E n i old deadline grace s' } } }"

definition wait_deploy_record :: "cloud_env \<Rightarrow> nat \<Rightarrow> nat \<Rightarrow> string \<Rightarrow> verdict deployment_step" where
  "wait_deploy_record E n i old = do {
     start \<leftarrow> cloud_clock E;
     now \<leftarrow> cloud_clock E;
     poll_record E n i old (start + record_timeout) (now + deploy_record_grace) no_polls }"

section \<open>Enumerating the bindings of a certificate\<close>

definition task_of :: "string \<Rightarrow> task_ids \<Rightarrow> string" where
  "task_of cert ts =
     (case find (\<lambda>t. case t of Some (c, k) \<Rightarrow> c = Some cert \<and> k \<noteq> None | None \<Rightarrow> False) ts of
        Some (Some (c, Some k)) \<Rightarrow> k
      | _ \<Rightarrow> [])"

text \<open>The detail of a finished task is remembered for the inventory; its failure changes nothing.\<close>

definition remember_task_detail :: "cloud_env \<Rightarrow> string \<Rightarrow> string \<Rightarrow> unit deployment_step" where
  "remember_task_detail E cert task = do {
     x \<leftarrow> api (EvDetail task) (cl_detail E);
     case x of
       Inl e \<Rightarrow> ret ()
     | Inr d \<Rightarrow> do {
         now \<leftarrow> cloud_clock E;
         modify (\<lambda>w. w\<lparr>cw_memo := remember_bindings now cert (parse_clb_binding_items d cert) (cw_memo w)\<rparr>) } }"

definition look_at_task ::
  "cloud_env \<Rightarrow> string \<Rightarrow> string \<Rightarrow> poll_state \<Rightarrow> ((string + binding_count) + poll_state) deployment_step" where
  "look_at_task E cert task s = do {
     x \<leftarrow> api (EvResult task) (cl_result E);
     case x of
       Inl err \<Rightarrow>
         if is_permanent err then do {
           e \<leftarrow> sdk_call_error E ''DescribeCertificateBindResourceTaskResult'' err; ret (Inl (Inl (se_text e))) }
         else ret (Inr (count_failure err s))
     | Inr resp \<Rightarrow>
         (case count_bindings (case resp of None \<Rightarrow> [] | Some ts \<Rightarrow> ts) task of
            Inl e \<Rightarrow> ret (Inl (Inl e))
          | Inr (Some c) \<Rightarrow> do { remember_task_detail E cert task; ret (Inl (Inr c)) }
          | Inr None \<Rightarrow> ret (Inr s)) }"

text \<open>\<open>None\<close>: cut off by the fuel.\<close>

fun poll_task ::
  "cloud_env \<Rightarrow> nat \<Rightarrow> string \<Rightarrow> string \<Rightarrow> instant \<Rightarrow> poll_state \<Rightarrow> (string + binding_count) option deployment_step" where
  "poll_task E 0 cert task deadline s = ret None"
| "poll_task E (Suc n) cert task deadline s = do {
     x \<leftarrow> look_at_task E cert task s;
     case x of
       Inl v \<Rightarrow> ret (Some v)
     | Inr s' \<Rightarrow> do {
         now \<leftarrow> cloud_clock E;
         if now > deadline then
           ret (Some (Inl (''the bind-resource enumeration did not finish within '' @
             duration_string (cl_enumeration_budget E) @
             (case pl_last_error s' of None \<Rightarrow> '' (taskId='' @ task @ '')''
              | Some e \<Rightarrow> '' (taskId='' @ task @ '')'' @ failed_polls s'))))
         else do {
           e \<leftarrow> wait_between_polls E (poll_wait (2 * ns_second) (pl_throttled s'));
           case e of
             Some e \<Rightarrow> ret (Some (Inl e))
           | None \<Rightarrow> poll_task E n cert task deadline s' } } }"

definition bindings_with ::
  "cloud_env \<Rightarrow> nat \<Rightarrow> string \<Rightarrow> bool \<Rightarrow> (string + binding_count) option deployment_step" where
  "bindings_with E n cert cached = do {
     x \<leftarrow> api (EvCreate cert cached) (cl_create E);
     case x of
       Inl err \<Rightarrow> do {
         e \<leftarrow> sdk_call_error E ''CreateCertificateBindResourceSyncTask'' err; ret (Some (Inl (se_text e))) }
     | Inr resp \<Rightarrow>
         (let task = (case resp of None \<Rightarrow> [] | Some ts \<Rightarrow> task_of cert ts)
          in if task = [] then ret (Some (Inr \<lparr>bc_count = 0, bc_complete = False\<rparr>))
             else do {
               now \<leftarrow> cloud_clock E;
               poll_task E n cert task (now + cl_enumeration_budget E) no_polls }) }"

text \<open>\<open>Bindings\<close> and \<open>BindingsFresh\<close>: the count, whether it is the whole answer, an error.\<close>

definition bindings ::
  "cloud_env \<Rightarrow> nat \<Rightarrow> bool \<Rightarrow> string \<Rightarrow> (string + binding_count) option deployment_step" where
  "bindings E n cached cert =
     (if cert = [] then ret (Some (Inr \<lparr>bc_count = 0, bc_complete = True\<rparr>))
      else do {
        c \<leftarrow> cloud_ask (cl_client E);
        case c of
          Some e \<Rightarrow> ret (Some (Inl e))
        | None \<Rightarrow> bindings_with E n cert cached })"

section \<open>The one-click switch\<close>

definition err_switch_unverified :: string where
  "err_switch_unverified = ''the switch is reported as done but its binding could not be verified''"

definition err_nothing_bound_yet :: string where
  "err_nothing_bound_yet = ''the certificate is uploaded but nothing is bound to it yet''"

text \<open>
  The task in progress belongs to another switch: once it is over, only a binding of the new
  certificate shows that this one took place.
\<close>

definition adopt_update :: "cloud_env \<Rightarrow> nat \<Rightarrow> nat \<Rightarrow> string \<Rightarrow> string \<Rightarrow> verdict deployment_step" where
  "adopt_update E n i old new = do {
     v \<leftarrow> wait_deploy_record E n i old;
     case v of
       Cut \<Rightarrow> ret Cut
     | Ended (Some e) \<Rightarrow> ret (Ended (Some e))
     | Ended None \<Rightarrow> do {
         b \<leftarrow> bindings_with E n new False;
         ret (case b of
             None \<Rightarrow> Cut
           | Some (Inl e) \<Rightarrow> Ended (Some (SwitchUnverified
               (err_switch_unverified @ '': the in-progress update task finished, but enumerating the bindings of '' @ new @ '' failed: '' @ e)))
           | Some (Inr c) \<Rightarrow>
               if bc_count c = 0 \<and> \<not> bc_complete c then Ended (Some (SwitchUnverified
                 (err_switch_unverified @ '': an update task was already in progress and finished, but the bind-resource enumeration for '' @
                  new @ '' did not cover every region'')))
               else if bc_count c = 0 then Ended (Some (DeployFailed
                 (''an update task was already in progress, and this certificate ('' @ new @
                  '') is not bound to any resource afterwards; the task belonged to a different switch, so this '' @
                  ''deploy did not happen'')))
               else Ended None) } }"

definition follow_update :: "cloud_env \<Rightarrow> nat \<Rightarrow> update_reply \<Rightarrow> nat \<Rightarrow> string \<Rightarrow> string \<Rightarrow> verdict deployment_step" where
  "follow_update E n r i old new =
     (if up_status r = Some 0 then adopt_update E n i old new
      else if progress_bound_count (up_progress r) = (0, True) then
        ret (Ended (Some (DeployFailed (no_resource_bound_error old (cl_regions E)))))
      else wait_deploy_record E n i old)"

text \<open>The task of a reply, if the reply has created one.\<close>

definition created_task :: "update_reply option \<Rightarrow> (update_reply \<times> nat) option" where
  "created_task resp =
     (case resp of
        None \<Rightarrow> None
      | Some r \<Rightarrow> (case up_record r of None \<Rightarrow> None | Some i \<Rightarrow> if i > 0 then Some (r, i) else None))"

fun request_update :: "cloud_env \<Rightarrow> nat \<Rightarrow> nat \<Rightarrow> string \<Rightarrow> string \<Rightarrow> instant \<Rightarrow> verdict deployment_step" where
  "request_update E m 0 old new deadline = ret Cut"
| "request_update E m (Suc n) old new deadline = do {
     x \<leftarrow> api (EvUpdate old new) (cl_update E);
     case x of
       Inl err \<Rightarrow> do {
         e \<leftarrow> sdk_call_error E ''UpdateCertificateInstance'' err;
         ret (Ended (Some (DeployFailed (se_text e)))) }
     | Inr resp \<Rightarrow>
         (case created_task resp of
            Some (r, i) \<Rightarrow> follow_update E m r i old new
          | None \<Rightarrow> do {
              now \<leftarrow> cloud_clock E;
              if now > deadline then ret (Ended (Some (DeployFailed
                (''the UpdateCertificateInstance task was not created within 2m (there may be one already running)''))))
              else do {
                e \<leftarrow> wait_between_polls E (3 * ns_second);
                case e of
                  Some e \<Rightarrow> ret (Ended (Some (DeployFailed e)))
                | None \<Rightarrow> request_update E m n old new deadline } }) }"

definition update_instance :: "cloud_env \<Rightarrow> nat \<Rightarrow> string \<Rightarrow> string \<Rightarrow> verdict deployment_step" where
  "update_instance E n old new = do {
     now \<leftarrow> cloud_clock E;
     request_update E n n old new (now + update_timeout) }"

section \<open>Deploying an uploaded certificate\<close>

text \<open>
  A failed switch is looked at once more. A complete zero on both certificates is the first-issuance
  state that waits for a manual bind; a bound new certificate with a complete zero on the old one is
  a switch that took place without being recorded.
\<close>

definition judge_old :: "deploy_error \<Rightarrow> binding_count \<Rightarrow> (string + binding_count) option \<Rightarrow> verdict" where
  "judge_old err c b =
     (case b of
        None \<Rightarrow> Cut
      | Some (Inl e) \<Rightarrow> Ended (Some err)
      | Some (Inr c') \<Rightarrow>
          if bc_complete c' \<and> bc_count c' = 0 then
            (if bc_count c = 0 then Ended (Some (NothingBoundYet err_nothing_bound_yet)) else Ended None)
          else Ended (Some err))"

definition second_look :: "cloud_env \<Rightarrow> nat \<Rightarrow> deploy_error \<Rightarrow> string \<Rightarrow> string \<Rightarrow> verdict deployment_step" where
  "second_look E n err old new = do {
     b \<leftarrow> bindings_with E n new False;
     case b of
       None \<Rightarrow> ret Cut
     | Some (Inl e) \<Rightarrow> ret (Ended (Some err))
     | Some (Inr c) \<Rightarrow>
         if bc_count c = 0 \<and> \<not> bc_complete c then ret (Ended (Some err))
         else do { b' \<leftarrow> bindings_with E n old False; ret (judge_old err c b') } }"

text \<open>The identifier recorded afterwards is that of the upload in every case.\<close>

definition deploy_uploaded :: "cloud_env \<Rightarrow> nat \<Rightarrow> string \<Rightarrow> string \<Rightarrow> verdict deployment_step" where
  "deploy_uploaded E n old new =
     (if old = [] then ret (Ended None)
      else do {
        v \<leftarrow> update_instance E n old new;
        case v of
          Cut \<Rightarrow> ret Cut
        | Ended None \<Rightarrow> ret (Ended None)
        | Ended (Some err) \<Rightarrow> second_look E n err old new })"

definition deploy_with_client ::
  "cloud_env \<Rightarrow> nat \<Rightarrow> string \<Rightarrow> string \<Rightarrow> (string \<times> verdict) deployment_step" where
  "deploy_with_client E n old new = do {
     c \<leftarrow> cloud_ask (cl_client E);
     case c of
       Some e \<Rightarrow> ret (new, Ended (Some (DeployFailed e)))
     | None \<Rightarrow> do { v \<leftarrow> deploy_uploaded E n old new; ret (new, v) } }"

definition upload :: "cloud_env \<Rightarrow> string \<Rightarrow> (string + string) deployment_step" where
  "upload E name = do {
     c \<leftarrow> cloud_ask (cl_client E);
     case c of
       Some e \<Rightarrow> ret (Inl e)
     | None \<Rightarrow> do {
         x \<leftarrow> api (EvUpload (''wecert/'' @ name)) (cl_upload E);
         case x of
           Inl err \<Rightarrow> do { e \<leftarrow> sdk_call_error E ''UploadCertificate'' err; ret (Inl (se_text e)) }
         | Inr None \<Rightarrow> ret (Inl ''UploadCertificate returned an empty response'')
         | Inr (Some (i, dup)) \<Rightarrow>
             ret (if deref i \<noteq> [] then Inr (deref i)
               else if deref dup \<noteq> [] then Inr (deref dup)
               else Inl (''UploadCertificate returned neither a CertificateId nor a RepeatCertId; '' @
                 ''the certificate was not stored'')) } }"

definition deploy_new :: "cloud_env \<Rightarrow> nat \<Rightarrow> string \<Rightarrow> string \<Rightarrow> (string \<times> verdict) deployment_step" where
  "deploy_new E n name old = do {
     u \<leftarrow> upload E name;
     case u of
       Inl e \<Rightarrow> ret ([], Ended (Some (DeployFailed e)))
     | Inr new \<Rightarrow> deploy_with_client E n old new }"

section \<open>Deleting a retired certificate\<close>

datatype delete_verdict = DeleteCut | Deleted | NotDeleted string

definition look_at_delete ::
  "cloud_env \<Rightarrow> string \<Rightarrow> string \<Rightarrow> poll_state \<Rightarrow> (delete_verdict + poll_state) deployment_step" where
  "look_at_delete E cert task s = do {
     x \<leftarrow> api (EvDeleteTask task) (cl_delete_task E);
     ret (case x of
         Inl err \<Rightarrow>
           if is_permanent err then Inl (NotDeleted (''cannot query the delete task for '' @ cert @
             '' (taskId='' @ task @ ''): '' @ se_text err))
           else Inr (count_failure err s)
       | Inr resp \<Rightarrow>
           (case delete_task_status (case resp of None \<Rightarrow> [] | Some ts \<Rightarrow> ts) task of
              Some (status, detail) \<Rightarrow>
                if status = delete_task_running then Inr s
                else if status = delete_task_success then Inl Deleted
                else Inl (NotDeleted (''DeleteCertificate('' @ cert @ '') failed: task '' @ task @
                  '' reported status '' @ show_int (int status) @ detail))
            | None \<Rightarrow> Inr s)) }"

fun poll_delete ::
  "cloud_env \<Rightarrow> nat \<Rightarrow> string \<Rightarrow> string \<Rightarrow> instant \<Rightarrow> poll_state \<Rightarrow> delete_verdict deployment_step" where
  "poll_delete E 0 cert task deadline s = ret DeleteCut"
| "poll_delete E (Suc n) cert task deadline s = do {
     x \<leftarrow> look_at_delete E cert task s;
     case x of
       Inl v \<Rightarrow> ret v
     | Inr s' \<Rightarrow> do {
         now \<leftarrow> cloud_clock E;
         if now > deadline then
           ret (NotDeleted (''the delete task for '' @ cert @ '' did not finish within '' @
             duration_string delete_task_timeout @ '' (taskId='' @ task @ '')'' @ failed_polls s' @
             ''; keeping it on the reclaim list to retry''))
         else do {
           e \<leftarrow> wait_between_polls E (poll_wait (3 * ns_second) (pl_throttled s'));
           case e of
             Some e \<Rightarrow> ret (NotDeleted e)
           | None \<Rightarrow> poll_delete E n cert task deadline s' } } }"

text \<open>A certificate that is already gone is deleted; an accepted delete forgets its enumeration.\<close>

definition delete_certificate :: "cloud_env \<Rightarrow> nat \<Rightarrow> string \<Rightarrow> delete_verdict deployment_step" where
  "delete_certificate E n cert =
     (if cert = [] then ret Deleted
      else do {
        c \<leftarrow> cloud_ask (cl_client E);
        case c of
          Some e \<Rightarrow> ret (NotDeleted e)
        | None \<Rightarrow> do {
            x \<leftarrow> api (EvDelete cert) (cl_delete E);
            case x of
              Inl err \<Rightarrow>
                if is_certificate_not_found err then ret Deleted
                else do {
                  e \<leftarrow> sdk_call_error E (''DeleteCertificate('' @ cert @ '')'') err;
                  ret (NotDeleted (se_text e)) }
            | Inr resp \<Rightarrow> do {
                v \<leftarrow> (case resp of
                    None \<Rightarrow> ret (NotDeleted (''DeleteCertificate('' @ cert @ ''): the API returned an empty response''))
                  | Some r \<Rightarrow>
                      if deref (dl_task r) = [] then
                        ret (if dl_result r = Some False
                          then NotDeleted (''DeleteCertificate('' @ cert @ ''): the API refused the delete'')
                          else Deleted)
                      else do {
                        now \<leftarrow> cloud_clock E;
                        poll_delete E n cert (deref (dl_task r)) (now + delete_task_timeout) no_polls });
                modify (\<lambda>w. w\<lparr>cw_memo := forget_bindings cert (cw_memo w)\<rparr>);
                ret v } } })"

section \<open>The binding patrol\<close>

datatype patrol_kind = PatrolConfirmed | PatrolIncomplete | PatrolDrift | PatrolOrphanUpload | PatrolUnmanaged

record patrol_finding =
  pf_kind :: patrol_kind
  pf_cert_id :: string
  pf_cert_name :: string
  pf_items :: "binding_row list"
  pf_complete :: bool

record known_cert =
  kc_name :: string
  kc_deployed_id :: string

definition list_page :: nat where "list_page = 100"

text \<open>\<open>listUploadedCertificates\<close>: the alias of every uploaded certificate, page by page.\<close>

definition add_uploaded :: "uploaded_cert option list \<Rightarrow> (string \<times> string) list \<Rightarrow> (string \<times> string) list" where
  "add_uploaded cs m = fold (\<lambda>c m. case c of
       None \<Rightarrow> m
     | Some c \<Rightarrow> (case uc_id c of None \<Rightarrow> m | Some i \<Rightarrow> AList.update i (deref (uc_alias c)) m)) cs m"

fun list_uploaded ::
  "cloud_env \<Rightarrow> nat \<Rightarrow> nat \<Rightarrow> (string \<times> string) list \<Rightarrow> (string + (string \<times> string) list) option deployment_step" where
  "list_uploaded E 0 offset m = ret None"
| "list_uploaded E (Suc n) offset m = do {
     x \<leftarrow> api (EvList offset) (cl_list E);
     case x of
       Inl err \<Rightarrow> do {
         e \<leftarrow> sdk_call_error E ''DescribeCertificates'' err;
         ret (Some (Inl (''list uploaded certificates: '' @ se_text e))) }
     | Inr None \<Rightarrow> ret (Some (Inl ''list uploaded certificates: empty response''))
     | Inr (Some r) \<Rightarrow>
         (let m' = add_uploaded (ls_certs r) m
          in if length (ls_certs r) < list_page \<or>
                (case ls_total r of None \<Rightarrow> False | Some t \<Rightarrow> offset + list_page \<ge> t)
             then ret (Some (Inr m'))
             else list_uploaded E n (offset + list_page) m') }"

text \<open>\<open>bindingItemsWith\<close>, uncached: a fresh count, with the rows of the last detail read.\<close>

definition binding_items_with ::
  "cloud_env \<Rightarrow> nat \<Rightarrow> string \<Rightarrow> (string + binding_snapshot) option deployment_step" where
  "binding_items_with E n cert = do {
     b \<leftarrow> bindings_with E n cert False;
     case b of
       None \<Rightarrow> ret None
     | Some (Inl e) \<Rightarrow> ret (Some (Inl e))
     | Some (Inr c) \<Rightarrow> do {
         now \<leftarrow> cloud_clock E;
         memo \<leftarrow> gets cw_memo;
         (let (hit, memo') = lookup_cached_bindings now cert memo
          in do {
            modify (\<lambda>w. w\<lparr>cw_memo := memo'\<rparr>);
            ret (Some (Inr \<lparr>sn_count = bc_count c, sn_complete = bc_complete c,
              sn_items = (case hit of None \<Rightarrow> [] | Some (snap, t) \<Rightarrow> sn_items snap)\<rparr>)) }) } }"

definition patrol_verdict :: "known_cert \<Rightarrow> string + binding_snapshot \<Rightarrow> patrol_finding" where
  "patrol_verdict k r =
     (case r of
        Inl e \<Rightarrow> \<lparr>pf_kind = PatrolIncomplete, pf_cert_id = kc_deployed_id k, pf_cert_name = kc_name k,
          pf_items = [], pf_complete = False\<rparr>
      | Inr s \<Rightarrow>
          \<lparr>pf_kind = (if \<not> sn_complete s then PatrolIncomplete else if sn_count s = 0 then PatrolDrift else PatrolConfirmed),
           pf_cert_id = kc_deployed_id k, pf_cert_name = kc_name k, pf_items = sn_items s,
           pf_complete = sn_complete s\<rparr>)"

fun patrol_known :: "cloud_env \<Rightarrow> nat \<Rightarrow> known_cert list \<Rightarrow> patrol_finding list option deployment_step" where
  "patrol_known E n [] = ret (Some [])"
| "patrol_known E n (k # ks) =
     (if kc_deployed_id k = [] then patrol_known E n ks
      else do {
        r \<leftarrow> binding_items_with E n (kc_deployed_id k);
        case r of
          None \<Rightarrow> ret None
        | Some r \<Rightarrow> do {
            fs \<leftarrow> patrol_known E n ks;
            ret (map_option ((#) (patrol_verdict k r)) fs) } })"

definition unrecorded :: "known_cert list \<Rightarrow> (string \<times> string) list \<Rightarrow> patrol_finding list" where
  "unrecorded known cloud =
     map (\<lambda>i. \<lparr>pf_kind = (if map_of cloud i = Some [] then PatrolOrphanUpload else PatrolUnmanaged),
        pf_cert_id = i, pf_cert_name = [], pf_items = [], pf_complete = False\<rparr>)
       (filter (\<lambda>i. i \<notin> set (map kc_deployed_id (filter (\<lambda>k. kc_deployed_id k \<noteq> []) known)))
         (sort (remdups (map fst cloud))))"

definition patrol_bindings ::
  "cloud_env \<Rightarrow> nat \<Rightarrow> known_cert list \<Rightarrow> (string + patrol_finding list) option deployment_step" where
  "patrol_bindings E n known = do {
     c \<leftarrow> cloud_ask (cl_client E);
     case c of
       Some e \<Rightarrow> ret (Some (Inl e))
     | None \<Rightarrow> do {
         l \<leftarrow> list_uploaded E n 0 [];
         case l of
           None \<Rightarrow> ret None
         | Some (Inl e) \<Rightarrow> ret (Some (Inl e))
         | Some (Inr cloud) \<Rightarrow> do {
             fs \<leftarrow> patrol_known E n known;
             ret (map_option (\<lambda>fs. Inr (fs @ unrecorded known cloud)) fs) } } }"

end
