(* ===== verification/DeployProps.thy ===== *)
theory DeployProps
  imports Deploy
begin

text \<open>
  What the deployer's verdicts rest on. The log of a run holds every answer of the cloud, so each
  verdict is justified by answers found in it: a switch by a clean deploy record or by complete
  enumerations, a deletion by the API's confirmation, a drift finding by a complete zero. The locale
  \<open>growing\<close> lifts a predicate that more answers cannot falsify to every operation.
\<close>

section \<open>The log only grows\<close>

lemma inv_verdict [inv]:
  "(v = Cut \<Longrightarrow> inv I m) \<Longrightarrow> (\<And>e. v = Ended e \<Longrightarrow> inv I (f e)) \<Longrightarrow> inv I (case v of Cut \<Rightarrow> m | Ended e \<Rightarrow> f e)"
  by (cases v) simp_all

locale growing =
  fixes F :: "cloud \<Rightarrow> bool"
  assumes on_tick: "F w \<Longrightarrow> F (w\<lparr>cw_tick := Suc (cw_tick w)\<rparr>)"
    and on_answer: "F w \<Longrightarrow> F (w\<lparr>cw_tick := Suc (cw_tick w), cw_log := e # cw_log w\<rparr>)"
    and on_memo: "F w \<Longrightarrow> F (w\<lparr>cw_memo := m\<rparr>)"
begin

abbreviation L :: "cloud \<Rightarrow> bool" where "L \<equiv> F"

lemma ask_grows [inv]: "inv L (cloud_ask f)"
  by (simp add: inv_def cloud_ask_def on_tick)

lemma api_grows [inv]: "inv L (api ev f)"
  by (simp add: inv_def api_def on_answer)

lemma memo_grows [inv]: "inv L (modify (\<lambda>w. w\<lparr>cw_memo := f w\<rparr>))"
  by (simp add: inv_def modify_def on_memo)

lemma error_grows [inv]: "inv L (sdk_call_error E what err)"
  unfolding sdk_call_error_def by (intro inv | simp split: bool.split)+

lemma wait_grows [inv]: "inv L (wait_between_polls E d)"
  unfolding wait_between_polls_def by (rule inv)

lemma look_at_record_grows [inv]: "inv L (look_at_record E i old grace s)"
  unfolding look_at_record_def describe_deploy_record_def by (intro inv)

lemma poll_record_grows [inv]: "inv L (poll_record E n i old deadline grace s)"
  by (induction n arbitrary: s) (simp_all add: inv)

lemma wait_record_grows [inv]: "inv L (wait_deploy_record E n i old)"
  unfolding wait_deploy_record_def by (intro inv)

lemma detail_grows [inv]: "inv L (remember_task_detail E cert task)"
  unfolding remember_task_detail_def by (intro inv)

lemma look_at_task_grows [inv]: "inv L (look_at_task E cert task s)"
  unfolding look_at_task_def by (intro inv)

lemma poll_task_grows [inv]: "inv L (poll_task E n cert task deadline s)"
  by (induction n arbitrary: s) (simp_all add: inv)

lemma bindings_grows [inv]: "inv L (bindings_with E n cert cached)"
  unfolding bindings_with_def Let_def by (intro inv)

lemma adopt_grows [inv]: "inv L (adopt_update E n i old new)"
  unfolding adopt_update_def by (intro inv)

lemma look_at_delete_grows [inv]: "inv L (look_at_delete E cert task s)"
  unfolding look_at_delete_def by (intro inv)

lemma poll_delete_grows [inv]: "inv L (poll_delete E n cert task deadline s)"
  by (induction n arbitrary: s) (simp_all add: inv)

lemma follow_grows [inv]: "inv L (follow_update E n r i old new)"
  unfolding follow_update_def by (intro inv)

lemma request_grows [inv]: "inv L (request_update E m n old new deadline)"
  by (induction n) (simp_all add: inv)

lemma update_grows [inv]: "inv L (update_instance E n old new)"
  unfolding update_instance_def by (intro inv)

lemma list_grows [inv]: "inv L (list_uploaded E n offset m)"
  by (induction n arbitrary: offset m) (simp_all add: inv Let_def)

lemma items_grows [inv]: "inv L (binding_items_with E n cert)"
  unfolding binding_items_with_def Let_def by (intro inv)

end

section \<open>Evidence\<close>

text \<open>The deploy record \<open>i\<close> was seen finished, with resources switched and none failed.\<close>

definition record_clean :: "nat \<Rightarrow> api_event list \<Rightarrow> bool" where
  "record_clean i es \<longleftrightarrow> (\<exists>r s f. EvRecord i (Inr (Some r)) \<in> set es \<and> rp_success r = Some s \<and> rp_failed r = Some f \<and>
     rp_running r = Some 0 \<and> rp_pending r = Some 0 \<and> 0 < s \<and> f \<le> 0)"

text \<open>A fresh enumeration of the certificate ended in the count \<open>c\<close>.\<close>

definition counted :: "string \<Rightarrow> binding_count \<Rightarrow> api_event list \<Rightarrow> bool" where
  "counted cert c es \<longleftrightarrow> (\<exists>ids ts. EvCreate cert False (Inr (Some ids)) \<in> set es \<and> task_of cert ids \<noteq> [] \<and>
     EvResult (task_of cert ids) (Inr (Some ts)) \<in> set es \<and> count_bindings ts (task_of cert ids) = Inr (Some c))"

definition bound_somewhere :: "string \<Rightarrow> api_event list \<Rightarrow> bool" where
  "bound_somewhere cert es \<longleftrightarrow> (\<exists>c. counted cert c es \<and> 0 < bc_count c)"

definition bound_nowhere :: "string \<Rightarrow> api_event list \<Rightarrow> bool" where
  "bound_nowhere cert es \<longleftrightarrow> (\<exists>c. counted cert c es \<and> bc_complete c \<and> bc_count c = 0)"

definition switch_requested :: "string \<Rightarrow> string \<Rightarrow> update_reply \<Rightarrow> api_event list \<Rightarrow> bool" where
  "switch_requested old new r es \<longleftrightarrow> EvUpdate old new (Inr (Some r)) \<in> set es"

definition created_for :: "string \<Rightarrow> task_ids \<Rightarrow> api_event list \<Rightarrow> bool" where
  "created_for cert ids es \<longleftrightarrow> EvCreate cert False (Inr (Some ids)) \<in> set es"

interpretation clean: growing "\<lambda>w. record_clean i (cw_log w)" for i
  by unfold_locales (auto simp: record_clean_def)

interpretation bound: growing "\<lambda>w. bound_somewhere cert (cw_log w)" for cert
  by unfold_locales (auto simp: bound_somewhere_def counted_def)

interpretation unbound: growing "\<lambda>w. bound_nowhere cert (cw_log w)" for cert
  by unfold_locales (auto simp: bound_nowhere_def counted_def)

interpretation count: growing "\<lambda>w. counted cert c (cw_log w)" for cert c
  by unfold_locales (auto simp: counted_def)

interpretation requested: growing "\<lambda>w. switch_requested old new r (cw_log w)" for old new r
  by unfold_locales (simp_all add: switch_requested_def)

interpretation task: growing "\<lambda>w. created_for cert ids (cw_log w)" for cert ids
  by unfold_locales (simp_all add: created_for_def)

section \<open>A clean deploy record\<close>

lemma look_clean:
  "post P (look_at_record E i old grace s) (\<lambda>x w. x = Inl None \<longrightarrow> record_clean i (cw_log w))"
proof -
  have d: "post P (describe_deploy_record E i)
      (\<lambda>x w. \<forall>c. x = Inr (Some c) \<longrightarrow> record_finished c = Some None \<longrightarrow> record_clean i (cw_log w))"
    unfolding describe_deploy_record_def
    by (auto simp: post_def api_def record_clean_def split: sum.splits option.splits prod.splits if_splits)
  show ?thesis
    unfolding look_at_record_def
    by (rule post_bind [OF d]) (auto simp: post_def cloud_ask_def split: sum.splits option.splits prod.splits)
qed

lemma poll_clean: "post P (poll_record E n i old deadline grace s) (\<lambda>v w. v = Ended None \<longrightarrow> record_clean i (cw_log w))"
proof (induction n arbitrary: s P)
  case (Suc n)
  have r: "post P (ret (Ended (Some e))) (\<lambda>v w. v = Ended None \<longrightarrow> record_clean i (cw_log w))" for e P
    by (simp add: post_def)
  show ?case
    unfolding poll_record.simps
  proof (rule post_bind [OF look_clean], goal_cases)
    case (1 x)
    show ?case
    proof (cases x)
      case (Inr s')
      show ?thesis
        unfolding Inr sum.case by (rule post_any) (intro post_skip post_if post_option Suc r)
    qed (simp add: post_def)
  qed
qed (simp add: post_def)

lemma wait_clean: "post P (wait_deploy_record E n i old) (\<lambda>v w. v = Ended None \<longrightarrow> record_clean i (cw_log w))"
  unfolding wait_deploy_record_def by (intro post_skip poll_clean)

section \<open>A fresh enumeration\<close>

lemma look_at_task_counted:
  assumes "task = task_of cert ids" and "task \<noteq> []"
  shows "post (task.L cert ids) (look_at_task E cert task s)
     (\<lambda>x w. case x of Inl (Inr c) \<Rightarrow> counted cert c (cw_log w) | _ \<Rightarrow> task.L cert ids w)"
proof -
  have a: "post (task.L cert ids) (api (EvResult task) (cl_result E))
      (\<lambda>x w. task.L cert ids w \<and> EvResult task x \<in> set (cw_log w))"
    by (simp add: post_def api_def created_for_def)
  have d: "post (count.L cert c) (do { remember_task_detail E cert task; ret (Inl (Inr c)) })
      (\<lambda>x w. case x of Inl (Inr c) \<Rightarrow> counted cert c (cw_log w) | _ \<Rightarrow> task.L cert ids w)" for c
    by (rule post_keep, rule count.detail_grows) (simp add: post_def)
  have e: "post (task.L cert ids) (do { e \<leftarrow> sdk_call_error E t err; ret (Inl (Inl (se_text e))) })
      (\<lambda>x w. case x of Inl (Inr c) \<Rightarrow> counted cert c (cw_log w) | _ \<Rightarrow> task.L cert ids w)" for t err
    by (rule post_keep, rule task.error_grows) (simp add: post_def)
  have l: "counted cert c (cw_log w)"
    if "task.L cert ids w" "EvResult task (Inr resp) \<in> set (cw_log w)"
      "count_bindings (case resp of None \<Rightarrow> [] | Some ts \<Rightarrow> ts) task = Inr (Some c)" for w resp c
    using that assms unfolding counted_def created_for_def by (cases resp) auto
  show ?thesis
    unfolding look_at_task_def
  proof (rule post_bind [OF a], goal_cases)
    case (1 x)
    show ?case
    proof (cases x)
      case (Inl err)
      have "post (task.L cert ids)
        (if is_permanent err then do { e \<leftarrow> sdk_call_error E ''DescribeCertificateBindResourceTaskResult'' err;
           ret (Inl (Inl (se_text e))) } else ret (Inr (count_failure err s)))
        (\<lambda>x w. case x of Inl (Inr c) \<Rightarrow> counted cert c (cw_log w) | _ \<Rightarrow> task.L cert ids w)"
        by (intro post_if e post_ret) simp
      then show ?thesis unfolding Inl sum.case by (rule post_conseq) simp_all
    next
      case (Inr resp)
      show ?thesis
      proof (cases "count_bindings (case resp of None \<Rightarrow> [] | Some ts \<Rightarrow> ts) task")
        case (Inr r)
        show ?thesis
        proof (cases r)
          case (Some c)
          show ?thesis
            using \<open>x = Inr resp\<close> Inr Some by (auto intro!: post_conseq [OF d] dest: l)
        qed (use \<open>x = Inr resp\<close> Inr in \<open>simp add: post_def\<close>)
      qed (use \<open>x = Inr resp\<close> in \<open>simp add: post_def\<close>)
    qed
  qed
qed

definition counts_for :: "string \<Rightarrow> (string + binding_count) option \<Rightarrow> cloud \<Rightarrow> bool" where
  "counts_for cert b w \<longleftrightarrow> (\<forall>c. b = Some (Inr c) \<longrightarrow> bc_complete c \<or> 0 < bc_count c \<longrightarrow> counted cert c (cw_log w))"

lemma poll_task_counted:
  assumes "task = task_of cert ids" and "task \<noteq> []"
  shows "post (task.L cert ids) (poll_task E n cert task deadline s) (counts_for cert)"
proof (induction n arbitrary: s)
  case (Suc n)
  have r: "post (task.L cert ids) (ret (Some (Inl e))) (counts_for cert)" for e
    by (simp add: post_def counts_for_def)
  have c: "post (task.L cert ids) (cloud_clock E) (\<lambda>_. task.L cert ids)"
    by (rule post_inv, rule task.ask_grows)
  show ?case
    unfolding poll_task.simps
  proof (rule post_bind [OF look_at_task_counted [OF assms]], goal_cases)
    case (1 x)
    show ?case
    proof (cases x)
      case (Inl v)
      show ?thesis
        by (cases v) (simp_all add: Inl post_def counts_for_def)
    next
      case (Inr s')
      show ?thesis
        unfolding Inr sum.case
        by (intro post_keep [OF task.ask_grows] post_keep [OF task.wait_grows] post_if post_option Suc r)
    qed
  qed
qed (simp add: post_def counts_for_def)

lemma bindings_counted: "post P (bindings_with E n cert False) (counts_for cert)"
proof -
  have a: "post P (api (EvCreate cert False) (cl_create E))
      (\<lambda>x w. \<forall>ids. x = Inr (Some ids) \<longrightarrow> task.L cert ids w)"
    by (simp add: post_def api_def created_for_def)
  have r: "post P (ret (Some (Inl e))) (counts_for cert)"
    "post P (ret (Some (Inr \<lparr>bc_count = 0, bc_complete = False\<rparr>))) (counts_for cert)" for e P
    by (simp_all add: post_def counts_for_def)
  show ?thesis
    unfolding bindings_with_def
  proof (rule post_bind [OF a], goal_cases)
    case (1 x)
    show ?case
    proof (cases x)
      case (Inl err)
      show ?thesis unfolding Inl sum.case by (intro post_skip r)
    next
      case (Inr resp)
      show ?thesis
      proof (cases "resp = None \<or> task_of cert (the resp) = []")
        case True
        then show ?thesis
          unfolding Inr sum.case Let_def by (cases resp) (auto intro: r)
      next
        case False
        then obtain ids where i: "resp = Some ids" "task_of cert ids \<noteq> []" by auto
        have "post (task.L cert ids) (do { now \<leftarrow> cloud_clock E;
            poll_task E n cert (task_of cert ids) (now + cl_enumeration_budget E) no_polls }) (counts_for cert)"
          by (intro post_keep [OF task.ask_grows] poll_task_counted i(2) refl)
        then show ?thesis unfolding Inr sum.case Let_def using i by (simp add: post_def)
      qed
    qed
  qed
qed

section \<open>The switch\<close>

definition switched :: "string \<Rightarrow> string \<Rightarrow> nat \<Rightarrow> update_reply \<Rightarrow> api_event list \<Rightarrow> bool" where
  "switched old new i r es \<longleftrightarrow> switch_requested old new r es \<and> up_record r = Some i \<and> 0 < i \<and> record_clean i es \<and>
     (up_status r = Some 0 \<longrightarrow> bound_somewhere new es)"

lemma bindings_somewhere:
  "post P (bindings_with E n cert False) (\<lambda>b w. \<forall>c. b = Some (Inr c) \<longrightarrow>
     (0 < bc_count c \<longrightarrow> bound_somewhere cert (cw_log w)) \<and>
     (bc_complete c \<longrightarrow> bc_count c = 0 \<longrightarrow> bound_nowhere cert (cw_log w)))"
  by (rule post_conseq [OF bindings_counted]) (auto simp: counts_for_def bound_somewhere_def bound_nowhere_def)

lemma adopt_switched:
  "post P (adopt_update E n i old new)
     (\<lambda>v w. v = Ended None \<longrightarrow> record_clean i (cw_log w) \<and> bound_somewhere new (cw_log w))"
proof -
  have b: "post (clean.L i) (bindings_with E n new False)
     (\<lambda>b w. clean.L i w \<and> (\<forall>c. b = Some (Inr c) \<longrightarrow> 0 < bc_count c \<longrightarrow> bound_somewhere new (cw_log w)))"
    by (rule post_conj, rule post_inv, rule clean.bindings_grows, rule post_conseq [OF bindings_somewhere]) auto
  have r: "post (clean.L i) (do { b \<leftarrow> bindings_with E n new False; ret (g b) })
     (\<lambda>v w. v = Ended None \<longrightarrow> record_clean i (cw_log w) \<and> bound_somewhere new (cw_log w))"
    if "\<And>b. g b = Ended None \<Longrightarrow> \<exists>c. b = Some (Inr c) \<and> 0 < bc_count c" for g
    by (rule post_bind [OF b]) (use that in \<open>fastforce simp: post_def\<close>)
  show ?thesis
    unfolding adopt_update_def
  proof (rule post_bind [OF wait_clean], goal_cases)
    case (1 v)
    show ?case
    proof (cases v)
      case (Ended e)
      show ?thesis
      proof (cases e)
        case None
        show ?thesis
          unfolding Ended None verdict.case option.case
          by (rule post_conseq [OF r]) (auto split: option.splits sum.splits if_splits)
      qed (simp add: Ended post_def)
    qed (simp add: post_def)
  qed
qed

lemma follow_switched:
  assumes "up_record r = Some i" and "0 < i"
  shows "post (requested.L old new r) (follow_update E n r i old new)
     (\<lambda>v w. v = Ended None \<longrightarrow> switched old new i r (cw_log w))"
proof -
  have a: "post (requested.L old new r) (adopt_update E n i old new)
     (\<lambda>v w. requested.L old new r w \<and> (v = Ended None \<longrightarrow> record_clean i (cw_log w) \<and> bound_somewhere new (cw_log w)))"
    by (rule post_conj, rule post_inv, rule requested.adopt_grows, rule adopt_switched)
  have w: "post (requested.L old new r) (wait_deploy_record E n i old)
     (\<lambda>v w. requested.L old new r w \<and> (v = Ended None \<longrightarrow> record_clean i (cw_log w)))"
    by (rule post_conj, rule post_inv, rule requested.wait_record_grows, rule wait_clean)
  show ?thesis
    unfolding follow_update_def
  proof (intro post_if, goal_cases)
    case 1
    show ?case by (rule post_conseq [OF a]) (simp_all add: switched_def assms)
  next
    case 2
    show ?case by (simp add: post_def)
  next
    case 3
    then show ?case by (intro post_conseq [OF w]) (simp_all add: switched_def assms)
  qed
qed

lemma request_switched:
  "post P (request_update E m n old new deadline)
     (\<lambda>v w. v = Ended None \<longrightarrow> (\<exists>i r. switched old new i r (cw_log w)))"
proof (induction n arbitrary: P)
  case (Suc n)
  have a: "post P (api (EvUpdate old new) (cl_update E))
      (\<lambda>x w. \<forall>r. x = Inr (Some r) \<longrightarrow> requested.L old new r w)"
    by (simp add: post_def api_def switch_requested_def)
  have r: "post P (ret (Ended (Some e))) (\<lambda>v w. v = Ended None \<longrightarrow> (\<exists>i r. switched old new i r (cw_log w)))" for e P
    by (simp add: post_def)
  show ?case
    unfolding request_update.simps
  proof (rule post_bind [OF a], goal_cases)
    case (1 x)
    show ?case
    proof (cases x)
      case (Inl err)
      show ?thesis unfolding Inl sum.case by (intro post_skip r)
    next
      case (Inr resp)
      show ?thesis
      proof (cases "created_task resp")
        case None
        then show ?thesis
          unfolding Inr sum.case None option.case by (intro post_skip post_if post_option Suc r)
      next
        case (Some p)
        obtain q i where p: "p = (q, i)" by fastforce
        have c: "resp = Some q" "up_record q = Some i" "0 < i"
          using Some p by (auto simp: created_task_def split: option.splits if_splits)
        have "post (requested.L old new q) (follow_update E m q i old new)
            (\<lambda>v w. v = Ended None \<longrightarrow> (\<exists>i r. switched old new i r (cw_log w)))"
          by (rule post_conseq [OF follow_switched [OF c(2,3)]]) auto
        then show ?thesis
          unfolding Inr sum.case Some p option.case prod.case
          by (rule post_conseq) (use c(1) in auto)
      qed
    qed
  qed
qed (simp add: post_def)

section \<open>The second look\<close>

text \<open>
  Why a deployment is reported as done, and why it is reported as waiting for its first bind.
\<close>

definition looked :: "deploy_error \<Rightarrow> string \<Rightarrow> string \<Rightarrow> verdict \<Rightarrow> cloud \<Rightarrow> bool" where
  "looked err old new v w \<longleftrightarrow>
     (v = Ended None \<longrightarrow> bound_somewhere new (cw_log w) \<and> bound_nowhere old (cw_log w)) \<and>
     (\<forall>t. v = Ended (Some (NothingBoundYet t)) \<longrightarrow> err \<noteq> NothingBoundYet t \<longrightarrow>
        bound_nowhere new (cw_log w) \<and> bound_nowhere old (cw_log w))"

lemma look_at_old:
  assumes "inv F (bindings_with E n old False)"
    and "\<And>w. F w \<Longrightarrow> if bc_count c = 0 then bound_nowhere new (cw_log w) else bound_somewhere new (cw_log w)"
  shows "post F (do { b \<leftarrow> bindings_with E n old False; ret (judge_old err c b) }) (looked err old new)"
  by (rule post_bind [OF post_conj [OF post_inv [OF assms(1)] bindings_somewhere]], rule post_ret)
    (auto simp: judge_old_def looked_def split: option.splits sum.splits if_splits dest: assms(2))

lemma second_look_evidence: "post P (second_look E n err old new) (looked err old new)"
  unfolding second_look_def
proof (rule post_bind [OF bindings_somewhere], goal_cases)
  case (1 b)
  show ?case
  proof (cases "\<exists>c. b = Some (Inr c) \<and> (bc_complete c \<or> 0 < bc_count c)")
    case True
    then obtain c where c: "b = Some (Inr c)" "bc_complete c \<or> 0 < bc_count c" by blast
    let ?F = "if bc_count c = 0 then unbound.L new else bound.L new"
    have "post ?F (do { b \<leftarrow> bindings_with E n old False; ret (judge_old err c b) }) (looked err old new)"
      by (rule look_at_old) (simp_all add: unbound.bindings_grows bound.bindings_grows split: if_splits)
    then show ?thesis using c by (auto elim!: post_conseq split: if_splits)
  next
    case False
    then show ?thesis
      by (auto simp: post_def looked_def split: option.splits sum.splits)
  qed
qed

section \<open>Verdicts rest on evidence\<close>

lemma poll_not_waiting: "answers (poll_record E n i old deadline grace s) (\<lambda>v. v \<noteq> Ended (Some (NothingBoundYet t)))"
proof (induction n arbitrary: s)
  case (Suc n)
  have l: "answers (look_at_record E i old grace s) (\<lambda>x. x \<noteq> Inl (Some (NothingBoundYet t)))" for s
    unfolding look_at_record_def
    by (intro answers_bind_any answers_cases answers_ret; auto elim: record_finished.elims split: if_splits)
  show ?case
    unfolding poll_record.simps
    by (rule answers_bind [OF l]) (intro answers_cases answers_bind_any answers_ret Suc; auto)
qed (simp add: answers_def)

lemma answers_verdict:
  "(v = Cut \<Longrightarrow> answers m R) \<Longrightarrow> (\<And>e. v = Ended e \<Longrightarrow> answers (f e) R) \<Longrightarrow>
   answers (case v of Cut \<Rightarrow> m | Ended e \<Rightarrow> f e) R"
  by (cases v) simp_all

lemma update_not_waiting: "answers (update_instance E n old new) (\<lambda>v. v \<noteq> Ended (Some (NothingBoundYet t)))"
proof -
  have w: "answers (wait_deploy_record E n i old) (\<lambda>v. v \<noteq> Ended (Some (NothingBoundYet t)))" for i
    unfolding wait_deploy_record_def by (intro answers_bind_any poll_not_waiting)
  have a: "answers (adopt_update E n i old new) (\<lambda>v. v \<noteq> Ended (Some (NothingBoundYet t)))" for i
    unfolding adopt_update_def
    by (rule answers_bind [OF w])
      (intro answers_verdict answers_cases answers_bind_any answers_ret; auto split: option.splits sum.splits)
  have f: "answers (follow_update E n r i old new) (\<lambda>v. v \<noteq> Ended (Some (NothingBoundYet t)))" for r i
    unfolding follow_update_def by (intro answers_if a w answers_ret) simp
  have "answers (request_update E n m old new d) (\<lambda>v. v \<noteq> Ended (Some (NothingBoundYet t)))" for m d
    by (induction m) (simp_all, (intro answers_cases answers_bind_any answers_ret f | simp)+)
  then show ?thesis unfolding update_instance_def by (intro answers_bind_any)
qed

text \<open>
  C15. A switch is reported as done only on evidence gathered for it: the cloud's deploy record of the
  requested switch finished with resources switched and none failed, and where the record belonged
  to a switch already in progress the new certificate was then found bound; or fresh enumerations
  found the new certificate bound and, over every region, the old one bound nowhere. It is reported
  as waiting for its first bind only when complete enumerations found neither certificate bound. The
  identifier answered is always that of the upload. This holds for every sequence of answers, with
  lost replies, partial enumerations and tasks of other switches in between.
\<close>

theorem deployment_is_evidenced:
  assumes "old \<noteq> []" and "run_state (deploy_with_client E n old new) w = ((i, v), w')"
  shows "i = new \<and>
    (v = Ended None \<longrightarrow> (\<exists>k r. switched old new k r (cw_log w')) \<or>
       bound_somewhere new (cw_log w') \<and> bound_nowhere old (cw_log w')) \<and>
    (\<forall>t. v = Ended (Some (NothingBoundYet t)) \<longrightarrow> bound_nowhere new (cw_log w') \<and> bound_nowhere old (cw_log w'))"
proof -
  let ?Q = "\<lambda>v w. (v = Ended None \<longrightarrow> (\<exists>k r. switched old new k r (cw_log w)) \<or>
       bound_somewhere new (cw_log w) \<and> bound_nowhere old (cw_log w)) \<and>
    (\<forall>t. v = Ended (Some (NothingBoundYet t)) \<longrightarrow> bound_nowhere new (cw_log w) \<and> bound_nowhere old (cw_log w))"
  have u: "post P (update_instance E n old new) (\<lambda>v w. (v = Ended None \<longrightarrow> (\<exists>i r. switched old new i r (cw_log w))) \<and>
      (\<forall>t. v \<noteq> Ended (Some (NothingBoundYet t))))" for P
  proof (rule post_conj)
    show "post P (update_instance E n old new) (\<lambda>v w. v = Ended None \<longrightarrow> (\<exists>i r. switched old new i r (cw_log w)))"
      unfolding update_instance_def by (intro post_skip request_switched)
    show "post P (update_instance E n old new) (\<lambda>v w. \<forall>t. v \<noteq> Ended (Some (NothingBoundYet t)))"
      using update_not_waiting [of E n old new] by (auto simp: post_def answers_def split: prod.split) (metis fst_conv)
  qed
  have d: "post P (deploy_uploaded E n old new) ?Q" for P
    unfolding deploy_uploaded_def if_not_P [OF assms(1)]
  proof (rule post_bind [OF u], goal_cases)
    case (1 v)
    have s: "post P (second_look E n e old new) ?Q" if "\<forall>t. e \<noteq> NothingBoundYet t" for e P
      by (rule post_conseq [OF second_look_evidence]) (use that in \<open>auto simp: looked_def\<close>)
    show ?case
    proof (cases "\<exists>e. v = Ended (Some e) \<and> (\<forall>t. e \<noteq> NothingBoundYet t)")
      case True
      then show ?thesis using s by (auto intro: post_any)
    next
      case False
      then show ?thesis by (cases v) (auto simp: post_def split: option.splits)
    qed
  qed
  have "post (\<lambda>_. True) (deploy_with_client E n old new) (\<lambda>x w. fst x = new \<and> ?Q (snd x) w)"
    unfolding deploy_with_client_def
  proof (rule post_skip, rule post_option, goal_cases)
    case (1 c)
    show ?case by (rule post_bind [OF d]) (simp add: post_def)
  qed (simp add: post_def)
  from post_run [OF this _ assms(2)] show ?thesis by simp
qed

definition one_shot :: cloud_env where
  "one_shot = \<lparr>cl_now = (\<lambda>k. int k * ns_second), cl_ctx = (\<lambda>_. None), cl_wait = (\<lambda>_. None),
     cl_client = (\<lambda>_. None), cl_upload = (\<lambda>_. Inr (Some (Some ''new'', None))),
     cl_update = (\<lambda>_. Inr (Some \<lparr>up_record = Some 7, up_status = Some 1, up_progress = []\<rparr>)),
     cl_record = (\<lambda>_. Inr (Some \<lparr>rp_success = Some 2, rp_failed = Some 0, rp_running = Some 0, rp_pending = Some 0\<rparr>)),
     cl_create = (\<lambda>_. Inr (Some [Some (Some ''old'', Some ''t'')])),
     cl_result = (\<lambda>_. Inr (Some [Some \<lparr>bt_task = Some ''t'', bt_error = None, bt_status = Some 1,
        bt_results = [Some [Some \<lparr>rr_total = Some 0, rr_error = None\<rparr>]]\<rparr>])),
     cl_detail = (\<lambda>_. Inr None), cl_delete = (\<lambda>_. Inr (Some \<lparr>dl_result = Some True, dl_task = Some ''d''\<rparr>)),
     cl_delete_task = (\<lambda>_. Inr (Some [Some \<lparr>dt_task = Some ''d'', dt_status = Some 1, dt_error = None\<rparr>])),
     cl_list = (\<lambda>_. Inr (Some \<lparr>ls_certs = [], ls_total = None\<rparr>)), cl_regions = [''ap-guangzhou''],
     cl_enumeration_budget = default_enumeration_budget\<rparr>"

definition quiet_cloud :: cloud where
  "quiet_cloud = \<lparr>cw_tick = 0, cw_log = [], cw_memo = []\<rparr>"

theorem deployment_is_evidenced_witness:
  "let (r, w) = run_state (deploy_with_client one_shot 9 ''old'' ''new'') quiet_cloud
   in r = (''new'', Ended None) \<and> ((\<exists>k r. switched ''old'' ''new'' k r (cw_log w)) \<or>
        bound_somewhere ''new'' (cw_log w) \<and> bound_nowhere ''old'' (cw_log w))"
proof -
  obtain r w where r: "run_state (deploy_with_client one_shot 9 ''old'' ''new'') quiet_cloud = (r, w)" by fastforce
  have "fst (run_state (deploy_with_client one_shot 9 ''old'' ''new'') quiet_cloud) = (''new'', Ended None)" by code_simp
  with r have v: "r = (''new'', Ended None)" by simp
  show ?thesis using deployment_is_evidenced [OF _ r [unfolded v]] by (simp add: r v)
qed

section \<open>A deletion is confirmed\<close>

definition delete_confirmed :: "string \<Rightarrow> api_event list \<Rightarrow> bool" where
  "delete_confirmed cert es \<longleftrightarrow>
     (\<exists>err. EvDelete cert (Inl err) \<in> set es \<and> is_certificate_not_found err) \<or>
     (\<exists>r. EvDelete cert (Inr (Some r)) \<in> set es \<and>
        (if deref (dl_task r) = [] then dl_result r \<noteq> Some False
         else \<exists>ts detail. EvDeleteTask (deref (dl_task r)) (Inr (Some ts)) \<in> set es \<and>
           delete_task_status ts (deref (dl_task r)) = Some (delete_task_success, detail)))"

definition task_succeeded :: "string \<Rightarrow> api_event list \<Rightarrow> bool" where
  "task_succeeded task es \<longleftrightarrow> (\<exists>ts detail. EvDeleteTask task (Inr (Some ts)) \<in> set es \<and>
     delete_task_status ts task = Some (delete_task_success, detail))"

definition delete_answered :: "string \<Rightarrow> delete_reply \<Rightarrow> api_event list \<Rightarrow> bool" where
  "delete_answered cert r es \<longleftrightarrow> EvDelete cert (Inr (Some r)) \<in> set es"

interpretation answered: growing "\<lambda>w. delete_answered cert r (cw_log w)" for cert r
  by unfold_locales (simp_all add: delete_answered_def)

lemma look_deleted:
  "post P (look_at_delete E cert task s) (\<lambda>x w. x = Inl Deleted \<longrightarrow> task_succeeded task (cw_log w))"
  unfolding look_at_delete_def
  by (auto simp: post_def api_def task_succeeded_def split: sum.splits option.splits if_splits)

lemma poll_deleted:
  "post P (poll_delete E n cert task deadline s) (\<lambda>v w. v = Deleted \<longrightarrow> task_succeeded task (cw_log w))"
proof (induction n arbitrary: s P)
  case (Suc n)
  have r: "post P (ret (NotDeleted e)) (\<lambda>v w. v = Deleted \<longrightarrow> task_succeeded task (cw_log w))" for e P
    by (simp add: post_def)
  show ?case
    unfolding poll_delete.simps
  proof (rule post_bind [OF look_deleted], goal_cases)
    case (1 x)
    show ?case
    proof (cases x)
      case (Inr s')
      show ?thesis
        unfolding Inr sum.case by (rule post_any) (intro post_skip post_if post_option Suc r)
    qed (simp add: post_def)
  qed
qed (simp add: post_def)



section \<open>The patrol\<close>

lemma items_evidence:
  "post P (binding_items_with E n cert) (\<lambda>r w. \<forall>s. r = Some (Inr s) \<longrightarrow> sn_complete s \<longrightarrow>
     (if sn_count s = 0 then bound_nowhere cert (cw_log w) else bound_somewhere cert (cw_log w)))"
  unfolding binding_items_with_def
proof (rule post_bind [OF bindings_somewhere], goal_cases)
  case (1 b)
  show ?case
  proof (cases "\<exists>c. b = Some (Inr c)")
    case True
    then obtain c where c: "b = Some (Inr c)" by blast
    show ?thesis
      by (auto simp: c post_def cloud_ask_def gets_def modify_def Let_def lookup_cached_bindings_def split: prod.split)
  qed (auto simp: post_def split: option.splits sum.splits)
qed

definition finding_evidence :: "known_cert list \<Rightarrow> patrol_finding \<Rightarrow> api_event list \<Rightarrow> bool" where
  "finding_evidence known f es \<longleftrightarrow> (\<exists>k \<in> set known. kc_name k = pf_cert_name f \<and> kc_deployed_id k = pf_cert_id f) \<and>
     (pf_kind f = PatrolDrift \<longrightarrow> bound_nowhere (pf_cert_id f) es) \<and>
     (pf_kind f = PatrolConfirmed \<longrightarrow> bound_somewhere (pf_cert_id f) es)"

interpretation finding: growing "\<lambda>w. finding_evidence known f (cw_log w)" for known f
  by unfold_locales (auto simp: finding_evidence_def bound_nowhere_def bound_somewhere_def counted_def)

lemma verdict_evidence:
  assumes "k \<in> set known" and "\<forall>s. r = Inr s \<longrightarrow> sn_complete s \<longrightarrow>
     (if sn_count s = 0 then bound_nowhere (kc_deployed_id k) es else bound_somewhere (kc_deployed_id k) es)"
  shows "finding_evidence known (patrol_verdict k r) es"
  using assms by (auto simp: finding_evidence_def patrol_verdict_def split: sum.splits if_splits)

lemma known_grows: "inv (finding.L known f) (patrol_known E n ks)"
  by (induction E n ks rule: patrol_known.induct) (simp_all add: inv finding.items_grows)

lemma patrol_known_evidence:
  "set ks \<subseteq> set known \<Longrightarrow> post P (patrol_known E n ks)
     (\<lambda>r w. \<forall>fs f. r = Some fs \<longrightarrow> f \<in> set fs \<longrightarrow> finding_evidence known f (cw_log w))"
proof (induction ks arbitrary: P)
  case (Cons k ks)
  show ?case
  proof (cases "kc_deployed_id k = []")
    case True
    then show ?thesis using Cons by simp
  next
    case False
    show ?thesis
      unfolding patrol_known.simps if_not_P [OF False]
    proof (rule post_bind [OF items_evidence], goal_cases)
      case (1 r)
      show ?case
      proof (cases r)
        case (Some x)
        have "post (finding.L known (patrol_verdict k x)) (do { fs \<leftarrow> patrol_known E n ks;
              ret (map_option ((#) (patrol_verdict k x)) fs) })
            (\<lambda>r w. \<forall>fs f. r = Some fs \<longrightarrow> f \<in> set fs \<longrightarrow> finding_evidence known f (cw_log w))"
          by (rule post_bind [OF post_conj [OF post_inv [OF known_grows] Cons.IH]])
            (use Cons.prems in \<open>auto simp: post_def\<close>)
        then show ?thesis
          unfolding Some option.case by (rule post_conseq) (use Cons.prems in \<open>auto intro!: verdict_evidence\<close>)
      qed (simp add: post_def)
    qed
  qed
qed (simp add: post_def)

text \<open>
  What the patrol reports is what the cloud said: a certificate is reported unbound (drift) only after
  a fresh enumeration that covers every region found nothing, reported bound only after one that found
  something, and every uploaded certificate reported as foreign is one that no stored row names.
\<close>

theorem patrol_findings_rest_on_answers:
  assumes "run_state (patrol_bindings E n known) w = (Some (Inr fs), w')" and "f \<in> set fs"
  shows "if pf_kind f \<in> {PatrolOrphanUpload, PatrolUnmanaged} then pf_cert_id f \<notin> kc_deployed_id ` set known \<or> pf_cert_id f = []
    else finding_evidence known f (cw_log w')"
proof -
  have k: "post P (patrol_known E n known) (\<lambda>r w. \<forall>fs f. r = Some fs \<longrightarrow> f \<in> set fs \<longrightarrow>
      finding_evidence known f (cw_log w))" for P
    by (rule patrol_known_evidence) simp
  have kind: "answers (patrol_known E n ks) (\<lambda>r. \<forall>fs f. r = Some fs \<longrightarrow> f \<in> set fs \<longrightarrow>
      pf_kind f \<noteq> PatrolOrphanUpload \<and> pf_kind f \<noteq> PatrolUnmanaged)" for ks
  proof (induction ks)
    case (Cons c ks)
    have v: "pf_kind (patrol_verdict c r) \<notin> {PatrolOrphanUpload, PatrolUnmanaged}" for r
      by (simp add: patrol_verdict_def split: sum.split)
    show ?case
      unfolding patrol_known.simps
      by (rule answers_if, rule Cons, rule answers_bind_any, rule answers_option, simp add: answers_def,
        rule answers_bind [OF Cons], rule answers_ret) (use v in auto)
  qed (simp add: answers_def)
  let ?Q = "\<lambda>r w. \<forall>fs. r = Some (Inr fs) \<longrightarrow> (\<forall>f \<in> set fs. if pf_kind f \<in> {PatrolOrphanUpload, PatrolUnmanaged}
      then pf_cert_id f \<notin> kc_deployed_id ` set known \<or> pf_cert_id f = [] else finding_evidence known f (cw_log w))"
  have u: "f \<in> set (unrecorded known cloud) \<Longrightarrow> pf_kind f \<in> {PatrolOrphanUpload, PatrolUnmanaged} \<and>
      (pf_cert_id f \<notin> kc_deployed_id ` set known \<or> pf_cert_id f = [])" for f cloud
    by (auto simp: unrecorded_def split: if_splits)
  have b: "post P (patrol_known E n known) (\<lambda>r w. (\<forall>fs f. r = Some fs \<longrightarrow> f \<in> set fs \<longrightarrow>
      finding_evidence known f (cw_log w) \<and> pf_kind f \<noteq> PatrolOrphanUpload \<and> pf_kind f \<noteq> PatrolUnmanaged))" for P
    by (rule post_conseq [OF post_conj [OF k post_answers [OF kind [of known]]]]) auto
  have r: "post P (ret None) ?Q" "post P (ret (Some (Inl e))) ?Q" for P e
    by (simp_all add: post_def)
  have c: "post P (do { fs \<leftarrow> patrol_known E n known; ret (map_option (\<lambda>fs. Inr (fs @ unrecorded known cloud)) fs) }) ?Q"
    for P cloud
  proof (rule post_bind [OF b], rule post_ret, intro allI impI ballI, goal_cases)
    case (1 x w fs f)
    then obtain g where g: "x = Some g" "fs = g @ unrecorded known cloud" by auto
    show ?case
    proof (cases "f \<in> set g")
      case True
      then show ?thesis using 1(1) g(1) by auto
    next
      case False
      then show ?thesis using u [of f cloud] 1(3) g(2) by auto
    qed
  qed
  have "post (\<lambda>_. True) (patrol_bindings E n known) ?Q"
    unfolding patrol_bindings_def by (intro post_skip post_option post_sum r c)
  from post_run [OF this _ assms(1)] have "\<forall>f \<in> set fs. if pf_kind f \<in> {PatrolOrphanUpload, PatrolUnmanaged}
      then pf_cert_id f \<notin> kc_deployed_id ` set known \<or> pf_cert_id f = [] else finding_evidence known f (cw_log w')"
    by blast
  then show ?thesis using assms(2) by (rule bspec)
qed

theorem patrol_findings_rest_on_answers_witness:
  "let (r, w) = run_state (patrol_bindings one_shot 9 [\<lparr>kc_name = ''c'', kc_deployed_id = ''old''\<rparr>]) quiet_cloud
   in \<exists>f. r = Some (Inr [f]) \<and> pf_kind f = PatrolDrift \<and>
        finding_evidence [\<lparr>kc_name = ''c'', kc_deployed_id = ''old''\<rparr>] f (cw_log w)"
proof -
  let ?ks = "[\<lparr>kc_name = ''c'', kc_deployed_id = ''old''\<rparr>]"
  obtain r w where r: "run_state (patrol_bindings one_shot 9 ?ks) quiet_cloud = (r, w)" by fastforce
  have "fst (run_state (patrol_bindings one_shot 9 ?ks) quiet_cloud) =
    Some (Inr [\<lparr>pf_kind = PatrolDrift, pf_cert_id = ''old'', pf_cert_name = ''c'', pf_items = [], pf_complete = True\<rparr>])"
    by code_simp
  with r have v: "r = Some (Inr [\<lparr>pf_kind = PatrolDrift, pf_cert_id = ''old'', pf_cert_name = ''c'',
      pf_items = [], pf_complete = True\<rparr>])" by simp
  show ?thesis using patrol_findings_rest_on_answers [OF r [unfolded v]] by (simp add: r v)
qed

section \<open>The deployer ends\<close>

text \<open>
  The four polling loops have one shape: a look that may settle the matter, the deadline, the wait.
  With a clock that moves on by at least \<open>p\<close> over the three effects of a round, \<open>n\<close> rounds are enough
  once \<open>n * p\<close> exceeds the time left.
\<close>

definition moving_clock :: "cloud_env \<Rightarrow> duration \<Rightarrow> bool" where
  "moving_clock E p \<longleftrightarrow> 0 < p \<and> (\<forall>k. cl_now E k \<le> cl_now E (Suc k)) \<and> (\<forall>k. cl_now E k + p \<le> cl_now E (k + 3))"

lemma moving_clock_mono: "moving_clock E p \<Longrightarrow> k \<le> m \<Longrightarrow> cl_now E k \<le> cl_now E m"
  unfolding moving_clock_def by (metis lift_Suc_mono_le)

interpretation upward: growing "\<lambda>w. k \<le> cw_tick w" for k
  by unfold_locales simp_all

locale polling =
  fixes E :: cloud_env
    and loop :: "nat \<Rightarrow> 's \<Rightarrow> 'v deployment_step"
    and look :: "'s \<Rightarrow> ('r + 's) deployment_step"
    and fin :: "'r \<Rightarrow> 'v" and late :: "'s \<Rightarrow> 'v" and stop :: "string \<Rightarrow> 'v"
    and pause :: "'s \<Rightarrow> duration" and deadline :: instant and cut :: 'v
  assumes round: "loop (Suc n) s = do {
      x \<leftarrow> look s;
      case x of
        Inl r \<Rightarrow> ret (fin r)
      | Inr s' \<Rightarrow> do {
          now \<leftarrow> cloud_clock E;
          if now > deadline then ret (late s')
          else do {
            e \<leftarrow> wait_between_polls E (pause s');
            case e of Some e \<Rightarrow> ret (stop e) | None \<Rightarrow> loop n s' } } }"
    and moves: "run_state (look s) w = (x, w') \<Longrightarrow> cw_tick w < cw_tick w'"
    and settled: "answers (look s) (\<lambda>x. \<forall>r. x = Inl r \<longrightarrow> fin r \<noteq> cut)" "late s \<noteq> cut" "stop e \<noteq> cut"
begin

lemma ends:
  assumes "moving_clock E p"
  shows "deadline < cl_now E (cw_tick w) + int n * p \<Longrightarrow> fst (run_state (loop (Suc n) s) w) \<noteq> cut"
proof (induction n arbitrary: w s)
  case (0 w s)
  obtain x w1 where x: "run_state (look s) w = (x, w1)" by fastforce
  have f: "\<forall>r. x = Inl r \<longrightarrow> fin r \<noteq> cut" by (rule answers_run [OF settled(1) x])
  have "cl_now E (cw_tick w) \<le> cl_now E (cw_tick w1)" using moving_clock_mono [OF assms] moves [OF x] by simp
  then show ?case using 0 x f settled(2) by (cases x) (simp_all add: round cloud_ask_def)
next
  case (Suc n w s)
  obtain x w1 where x: "run_state (look s) w = (x, w1)" by fastforce
  have f: "\<forall>r. x = Inl r \<longrightarrow> fin r \<noteq> cut" by (rule answers_run [OF settled(1) x])
  show ?case
  proof (cases x)
    case (Inr s')
    let ?w = "w1\<lparr>cw_tick := Suc (cw_tick w1)\<rparr>"
    obtain e w2 where e: "run_state (wait_between_polls E (pause s')) ?w = (e, w2)" by fastforce
    have t: "cw_tick w2 = cw_tick w1 + 2" using e by (auto simp: wait_between_polls_def api_def)
    have "cl_now E (cw_tick w) + p \<le> cl_now E (cw_tick w + 3)" using assms by (simp add: moving_clock_def)
    also have "\<dots> \<le> cl_now E (cw_tick w2)" using moving_clock_mono [OF assms] moves [OF x] t by simp
    finally have "deadline < cl_now E (cw_tick w2) + int n * p" using Suc.prems by (simp add: distrib_right)
    from Suc.IH [OF this] show ?thesis
      using x Inr e settled(2,3) by (subst round) (auto simp: cloud_ask_def split: option.split)
  qed (use x f in \<open>simp add: round\<close>)
qed

end

lemma api_moves: "run_state (api ev f) w = (x, w') \<Longrightarrow> cw_tick w' = Suc (cw_tick w)"
  by (auto simp: api_def)

text \<open>A look starts with a call.\<close>

lemma look_moves:
  assumes "run_state (State_Monad.bind (api ev f) g) w = (x, w')" and "\<And>k y. inv (upward.L k) (g y)"
  shows "cw_tick w < cw_tick w'"
proof -
  obtain y w1 where y: "run_state (api ev f) w = (y, w1)" by fastforce
  have "run_state (g y) w1 = (x, w')" using assms(1) y by simp
  from inv_run [OF assms(2) _ this, of "cw_tick w1"] show ?thesis using api_moves [OF y] by simp
qed

lemma record_moves: "run_state (look_at_record E i old grace s) w = (x, w') \<Longrightarrow> cw_tick w < cw_tick w'"
  unfolding look_at_record_def describe_deploy_record_def State_Monad.bind_assoc
  apply (rule look_moves, assumption)
  apply (intro inv)
  done

lemma task_moves: "run_state (look_at_task E cert task s) w = (x, w') \<Longrightarrow> cw_tick w < cw_tick w'"
  unfolding look_at_task_def
  apply (rule look_moves, assumption)
  apply (intro inv)
  done

interpretation rec: polling E "\<lambda>n. poll_record E n i old deadline grace" "look_at_record E i old grace" Ended
  "\<lambda>s. Ended (Some (DeployFailed (''one-click update task '' @ show_int (int i) @ '' did not finish within 3m '' @
     show_counts (pl_counts s) @ failed_polls s)))" "\<lambda>e. Ended (Some (DeployFailed e))"
  "\<lambda>s. poll_wait (5 * ns_second) (pl_throttled s)" deadline Cut
  for E i old deadline grace
  by unfold_locales (simp_all add: answers_def record_moves)

interpretation enum: polling E "\<lambda>n. poll_task E n cert task deadline" "look_at_task E cert task" Some
  "\<lambda>s. Some (Inl (''the bind-resource enumeration did not finish within '' @ duration_string (cl_enumeration_budget E) @
     (case pl_last_error s of None \<Rightarrow> '' (taskId='' @ task @ '')'' | Some e \<Rightarrow> '' (taskId='' @ task @ '')'' @ failed_polls s)))"
  "\<lambda>e. Some (Inl e)" "\<lambda>s. poll_wait (2 * ns_second) (pl_throttled s)" deadline None
  for E cert task deadline
  by unfold_locales (simp_all add: answers_def task_moves)

lemma delete_moves: "run_state (look_at_delete E cert task s) w = (x, w') \<Longrightarrow> cw_tick w < cw_tick w'"
  unfolding look_at_delete_def by (auto simp: api_def)

lemma look_not_cut: "answers (look_at_delete E cert task s) (\<lambda>x. \<forall>r. x = Inl r \<longrightarrow> r \<noteq> DeleteCut)"
  unfolding look_at_delete_def
  by (intro answers_bind_any answers_ret) (auto split: sum.splits option.splits if_splits)

interpretation del: polling E "\<lambda>n. poll_delete E n cert task deadline" "look_at_delete E cert task" "\<lambda>v. v"
  "\<lambda>s. NotDeleted (''the delete task for '' @ cert @ '' did not finish within '' @ duration_string delete_task_timeout @
     '' (taskId='' @ task @ '')'' @ failed_polls s @ ''; keeping it on the reclaim list to retry'')"
  NotDeleted "\<lambda>s. poll_wait (3 * ns_second) (pl_throttled s)" deadline DeleteCut
  for E cert task deadline
  by unfold_locales (simp_all add: delete_moves look_not_cut)

definition rounds :: "cloud_env \<Rightarrow> duration \<Rightarrow> nat \<Rightarrow> bool" where
  "rounds E p n \<longleftrightarrow> moving_clock E p \<and> record_timeout < int n * p \<and> cl_enumeration_budget E < int n * p"

lemma rounds_later:
  assumes "rounds E p n" and "t < int n * p" and "k \<le> m"
  shows "cl_now E k + t < cl_now E m + int n * p"
  using moving_clock_mono [of E p k m] assms by (simp add: rounds_def)

lemma wait_ends: assumes "rounds E p n" shows "answers (wait_deploy_record E (Suc n) i old) (\<lambda>v. v \<noteq> Cut)"
  unfolding answers_def
proof
  fix w :: cloud
  let ?w = "w\<lparr>cw_tick := Suc (Suc (cw_tick w))\<rparr>"
  have "cl_now E (cw_tick w) + record_timeout < cl_now E (cw_tick ?w) + int n * p"
    by (rule rounds_later [OF assms]) (use assms in \<open>simp_all add: rounds_def\<close>)
  from rec.ends [OF _ this] show "fst (run_state (wait_deploy_record E (Suc n) i old) w) \<noteq> Cut"
    using assms by (simp add: wait_deploy_record_def cloud_ask_def rounds_def del: poll_record.simps)
qed

lemma bindings_end: assumes "rounds E p n" shows "answers (bindings_with E (Suc n) cert c) (\<lambda>b. b \<noteq> None)"
  unfolding bindings_with_def
proof (rule answers_bind_any, rule answers_sum, goal_cases)
  case (1 x err)
  show ?case by (intro answers_bind_any answers_ret) simp
next
  case (2 x resp)
  have "answers (do { now \<leftarrow> cloud_clock E; poll_task E (Suc n) cert task (now + cl_enumeration_budget E) no_polls })
      (\<lambda>b. b \<noteq> None)" for task
    unfolding answers_def
  proof
    fix w :: cloud
    let ?w = "w\<lparr>cw_tick := Suc (cw_tick w)\<rparr>"
    have "cl_now E (cw_tick w) + cl_enumeration_budget E < cl_now E (cw_tick ?w) + int n * p"
      by (rule rounds_later [OF assms]) (use assms in \<open>simp_all add: rounds_def\<close>)
    from enum.ends [OF _ this] show "fst (run_state (do { now \<leftarrow> cloud_clock E;
        poll_task E (Suc n) cert task (now + cl_enumeration_budget E) no_polls }) w) \<noteq> None"
      using assms by (simp add: cloud_ask_def rounds_def del: poll_task.simps)
  qed
  then show ?case unfolding Let_def by (intro answers_if answers_ret) simp_all
qed

lemma follow_ends:
  assumes "rounds E p n"
  shows "answers (follow_update E (Suc n) r i old new) (\<lambda>v. v \<noteq> Cut)"
proof -
  have "answers (adopt_update E (Suc n) i old new) (\<lambda>v. v \<noteq> Cut)"
    unfolding adopt_update_def
    by (rule answers_bind [OF wait_ends [OF assms]], rule answers_verdict, simp, rule answers_option,
      rule answers_bind [OF bindings_end [OF assms]], rule answers_ret)
      (auto simp: answers_def split: option.splits sum.splits if_splits)
  then show ?thesis
    unfolding follow_update_def by (intro answers_if answers_ret wait_ends [OF assms]) simp_all
qed

text \<open>The request loop in the shape of \<open>polling\<close>.\<close>

definition look_for_task :: "cloud_env \<Rightarrow> nat \<Rightarrow> string \<Rightarrow> string \<Rightarrow> unit \<Rightarrow> (verdict + unit) deployment_step" where
  "look_for_task E m old new u = do {
     x \<leftarrow> api (EvUpdate old new) (cl_update E);
     case x of
       Inl err \<Rightarrow> do {
         e \<leftarrow> sdk_call_error E ''UpdateCertificateInstance'' err; ret (Inl (Ended (Some (DeployFailed (se_text e))))) }
     | Inr resp \<Rightarrow> (case created_task resp of
           Some (r, i) \<Rightarrow> do { v \<leftarrow> follow_update E m r i old new; ret (Inl v) }
         | None \<Rightarrow> ret (Inr ())) }"

lemma request_polling:
  assumes "rounds E p n"
  shows "polling E (\<lambda>k u. request_update E (Suc n) k old new deadline) (look_for_task E (Suc n) old new) (\<lambda>v. v)
    (\<lambda>_. Ended (Some (DeployFailed
      (''the UpdateCertificateInstance task was not created within 2m (there may be one already running)''))))
    (\<lambda>e. Ended (Some (DeployFailed e))) (\<lambda>_. 3 * ns_second) deadline Cut"
proof (unfold_locales, goal_cases)
  case (1 k u)
  show ?case
    unfolding request_update.simps look_for_task_def State_Monad.bind_assoc
    by (rule arg_cong [where f = "State_Monad.bind _"], rule ext) (auto simp: bind_assoc split: sum.split option.split prod.split)
next
  case (2 u w x w')
  then show ?case
    unfolding look_for_task_def by (rule look_moves) (intro inv)
next
  case (3 u)
  show ?case
    unfolding look_for_task_def
    by (rule answers_bind_any, rule answers_sum, intro answers_bind_any answers_ret, simp, rule answers_option)
      (simp add: answers_def, rule answers_prod, rule answers_bind [OF follow_ends [OF assms]], rule answers_ret, simp)
qed simp_all

lemma update_ends:
  assumes "rounds E p n"
  shows "answers (update_instance E (Suc n) old new) (\<lambda>v. v \<noteq> Cut)"
  unfolding answers_def
proof
  fix w :: cloud
  let ?w = "w\<lparr>cw_tick := Suc (cw_tick w)\<rparr>"
  have "cl_now E (cw_tick w) + update_timeout < cl_now E (cw_tick ?w) + int n * p"
    by (rule rounds_later [OF assms])
      (use assms in \<open>simp_all add: rounds_def record_timeout_def update_timeout_def ns_minute_def ns_second_def\<close>)
  from polling.ends [OF request_polling [OF assms] _ this]
  show "fst (run_state (update_instance E (Suc n) old new) w) \<noteq> Cut"
    using assms by (simp add: update_instance_def cloud_ask_def rounds_def del: request_update.simps)
qed

text \<open>
  C33. The deployer always comes back: with a clock that moves on by at least \<open>p\<close> over a polling round, and
  fuel for the longest of its timeouts, no deployment and no deletion is cut off, whatever the cloud
  answers or keeps to itself.
\<close>

theorem deployer_ends:
  assumes "moving_clock E p" and "record_timeout < int n * p" and "cl_enumeration_budget E < int n * p"
  shows "snd (fst (run_state (deploy_with_client E (Suc n) old new) w)) \<noteq> Cut \<and>
    fst (run_state (delete_certificate E (Suc n) cert) w) \<noteq> DeleteCut"
proof
  have r: "rounds E p n" using assms by (simp add: rounds_def)
  have s: "answers (second_look E (Suc n) e old new) (\<lambda>v. v \<noteq> Cut)" for e
    unfolding second_look_def
    by (rule answers_bind [OF bindings_end [OF r]], rule answers_option, simp, rule answers_sum, rule answers_ret, simp,
      rule answers_if, rule answers_ret, simp, rule answers_bind [OF bindings_end [OF r]], rule answers_ret)
      (auto simp: judge_old_def split: sum.split option.split)
  have "answers (deploy_uploaded E (Suc n) old new) (\<lambda>v. v \<noteq> Cut)"
    unfolding deploy_uploaded_def
    by (rule answers_if, rule answers_ret, simp, rule answers_bind [OF update_ends [OF r]], rule answers_verdict, simp,
      rule answers_option, rule answers_ret, simp, rule s)
  then have "answers (deploy_with_client E (Suc n) old new) (\<lambda>x. snd x \<noteq> Cut)"
    unfolding deploy_with_client_def
    by (intro answers_bind_any answers_option answers_bind [where S = "\<lambda>v. v \<noteq> Cut"] answers_ret; simp)
  then show "snd (fst (run_state (deploy_with_client E (Suc n) old new) w)) \<noteq> Cut" by (simp add: answers_def)
  have "answers (do { now \<leftarrow> cloud_clock E; poll_delete E (Suc n) cert task (now + delete_task_timeout) no_polls })
      (\<lambda>v. v \<noteq> DeleteCut)" for task
    unfolding answers_def
  proof
    fix w :: cloud
    let ?w = "w\<lparr>cw_tick := Suc (cw_tick w)\<rparr>"
    have "cl_now E (cw_tick w) + delete_task_timeout < cl_now E (cw_tick ?w) + int n * p"
      by (rule rounds_later [OF r])
        (use assms(2) in \<open>simp_all add: record_timeout_def delete_task_timeout_def ns_minute_def ns_second_def\<close>)
    from del.ends [OF assms(1) this] show "fst (run_state (do { now \<leftarrow> cloud_clock E;
        poll_delete E (Suc n) cert task (now + delete_task_timeout) no_polls }) w) \<noteq> DeleteCut"
      by (simp add: cloud_ask_def del: poll_delete.simps)
  qed
  then have "answers (delete_certificate E (Suc n) cert) (\<lambda>v. v \<noteq> DeleteCut)"
    unfolding delete_certificate_def
    apply (intro answers_if)
     apply (rule answers_ret, simp)
    apply (rule answers_bind_any, rule answers_option, rule answers_bind_any, rule answers_sum)
      apply (intro answers_if answers_ret answers_bind_any; simp)
     apply (rule answers_bind [where S = "\<lambda>v. v \<noteq> DeleteCut"])
      apply (rule answers_option, rule answers_ret, simp, rule answers_if, rule answers_ret, simp)
      apply assumption
     apply (rule answers_bind_any, rule answers_ret, assumption)
    apply (rule answers_ret, simp)
    done
  then show "fst (run_state (delete_certificate E (Suc n) cert) w) \<noteq> DeleteCut" by (simp add: answers_def)
qed

theorem deployer_ends_witness:
  "snd (fst (run_state (deploy_with_client (one_shot\<lparr>cl_update := \<lambda>_. Inr None\<rparr>) (Suc 100) ''old'' ''new'') quiet_cloud)) \<noteq> Cut"
proof -
  let ?E = "one_shot\<lparr>cl_update := \<lambda>_. Inr None\<rparr>"
  have "moving_clock ?E (3 * ns_second)" "record_timeout < int 100 * (3 * ns_second)"
    "cl_enumeration_budget ?E < int 100 * (3 * ns_second)"
    by (simp_all add: moving_clock_def one_shot_def record_timeout_def default_enumeration_budget_def
      ns_minute_def ns_second_def)
  from deployer_ends [OF this] show ?thesis by simp
qed

section \<open>The kind of an orphan\<close>

text \<open>
  An upload of this program carries the alias \<open>wecert/<name>\<close>, so an upload whose resume anchor was
  lost is never reported as \<open>PatrolOrphanUpload\<close>, the kind meant for it: that kind is reserved for an
  empty alias.
\<close>

theorem own_orphans_are_unmanaged:
  assumes "f \<in> set (unrecorded known cloud)" and "map_of cloud (pf_cert_id f) = Some (''wecert/'' @ name)"
  shows "pf_kind f = PatrolUnmanaged"
  using assms by (auto simp: unrecorded_def)

end
