(* ===== verification/Certs.thy ===== *)
theory Certs
  imports World Group
begin

text \<open>
  The declarations of certificates (\<open>internal/config/certificate.go\<close>, \<open>domain.go\<close>,
  \<open>failure_fallback.go\<close>, the backup targets of \<open>backup.go\<close>): the records as the YAML has them, their
  defaults and every check of \<open>NormalizeCertificates\<close>, the one entry point that the configuration and
  the desired-state document share. A normaliser returns the record with its fields filled in, or the
  first complaint; \<open>config_error\<close> says which complaint, not its text.
\<close>

section \<open>Durations as text\<close>

text \<open>
  \<open>time.ParseDuration\<close>: an optional sign and a sequence of numbers with units. The scaling of a
  fraction is done in \<open>float64\<close>, with \<open>fl\<close> the rounding of one operation.
\<close>

definition digit :: "char \<Rightarrow> bool" where
  "digit c \<longleftrightarrow> (let n = (of_char c :: int) in 48 \<le> n \<and> n \<le> 57)"

definition digit_value :: "char \<Rightarrow> int" where
  "digit_value c = of_char c - 48"

fun leading_int :: "int \<Rightarrow> string \<Rightarrow> (int \<times> string) option" where
  "leading_int x [] = Some (x, [])"
| "leading_int x (c # s) =
     (if \<not> digit c then Some (x, c # s)
      else if x > 2 ^ 63 div 10 then None
      else let x' = x * 10 + digit_value c in if x' > 2 ^ 63 then None else leading_int x' s)"

fun leading_fraction :: "int \<Rightarrow> int \<Rightarrow> bool \<Rightarrow> string \<Rightarrow> int \<times> int \<times> string" where
  "leading_fraction x scale over [] = (x, scale, [])"
| "leading_fraction x scale over (c # s) =
     (if \<not> digit c then (x, scale, c # s)
      else if over \<or> x > (2 ^ 63 - 1) div 10 then leading_fraction x scale True s
      else let y = x * 10 + digit_value c in
        if y > 2 ^ 63 then leading_fraction x scale True s else leading_fraction y (scale * 10) False s)"

definition duration_unit :: "string \<Rightarrow> int option" where
  "duration_unit u = map_of
     [(''ns'', 1), (''us'', 10 ^ 3), ([char_of (194 :: nat), char_of (181 :: nat), CHR ''s''], 10 ^ 3),
      ([char_of (206 :: nat), char_of (188 :: nat), CHR ''s''], 10 ^ 3), (''ms'', 10 ^ 6), (''s'', 10 ^ 9),
      (''m'', 60 * 10 ^ 9), (''h'', 3600 * 10 ^ 9)] u"

text \<open>One number with its unit: its nanoseconds and the rest of the text.\<close>

definition duration_component :: "(rat \<Rightarrow> rat) \<Rightarrow> string \<Rightarrow> (int \<times> string) option" where
  "duration_component fl s =
     (case leading_int 0 s of
        None \<Rightarrow> None
      | Some (v, s1) \<Rightarrow>
          (let dot = s1 \<noteq> [] \<and> hd s1 = CHR ''.'';
               (f, scale, s2) = (if dot then leading_fraction 0 1 False (tl s1) else (0, 1, s1));
               pre = length s1 \<noteq> length s;
               post = (dot \<and> length s2 \<noteq> length (tl s1));
               u = takeWhile (\<lambda>c. c \<noteq> CHR ''.'' \<and> \<not> digit c) s2
           in if \<not> pre \<and> \<not> post then None
              else if u = [] then None
              else case duration_unit u of
                  None \<Rightarrow> None
                | Some unit \<Rightarrow>
                    if v > 2 ^ 63 div unit then None
                    else let v' = v * unit + (if f > 0
                         then \<lfloor>fl (fl (of_int f) * fl (of_int unit / of_int scale))\<rfloor> else 0)
                      in if v' > 2 ^ 63 then None else Some (v', drop (length u) s2)))"

lemma leading_int_length: "leading_int x s = Some (v, s') \<Longrightarrow> length s' \<le> length s"
  by (induction x s rule: leading_int.induct) (auto simp: Let_def split: if_splits)

lemma leading_fraction_length: "leading_fraction x k ov s = (f, k', s') \<Longrightarrow> length s' \<le> length s"
  by (induction x k ov s rule: leading_fraction.induct) (auto simp: Let_def split: if_splits)

lemma duration_component_shrinks:
  assumes "duration_component fl s = Some (v, s')"
  shows "length s' < length s"
proof -
  obtain v1 s1 where s1: "leading_int 0 s = Some (v1, s1)"
    using assms by (auto simp: duration_component_def split: option.splits)
  define dot where "dot \<longleftrightarrow> s1 \<noteq> [] \<and> hd s1 = CHR ''.''"
  obtain f k s2 where s2: "(if dot then leading_fraction 0 1 False (tl s1) else (0, 1, s1)) = (f, k, s2)"
    using prod_cases3 by blast
  have "length s2 \<le> length s"
    using s2 leading_int_length [OF s1] leading_fraction_length [of 0 1 False "tl s1" f k s2] by (auto split: if_splits)
  moreover have "takeWhile (\<lambda>c. c \<noteq> CHR ''.'' \<and> \<not> digit c) s2 \<noteq> []"
    "s' = drop (length (takeWhile (\<lambda>c. c \<noteq> CHR ''.'' \<and> \<not> digit c) s2)) s2"
    using assms s1 s2 unfolding duration_component_def dot_def [symmetric]
    by (auto simp: Let_def dot_def split: if_splits option.splits)
  ultimately show ?thesis by (cases s2) auto
qed

function duration_components :: "(rat \<Rightarrow> rat) \<Rightarrow> int \<Rightarrow> string \<Rightarrow> int option" where
  "duration_components fl d s =
     (if s = [] then Some d
      else case duration_component fl s of
          None \<Rightarrow> None
        | Some (v, s') \<Rightarrow> if d + v > 2 ^ 63 then None else duration_components fl (d + v) s')"
  by pat_completeness auto

termination
  by (relation "measure (\<lambda>(fl, d, s). length s)") (auto dest: duration_component_shrinks)

declare duration_components.simps [simp del]

definition parse_go_duration :: "(rat \<Rightarrow> rat) \<Rightarrow> string \<Rightarrow> duration option" where
  "parse_go_duration fl s =
     (let signed = s \<noteq> [] \<and> hd s \<in> {CHR ''-'', CHR ''+''}; neg = (signed \<and> hd s = CHR ''-'');
          s' = (if signed then tl s else s)
      in if s' = ''0'' then Some 0
         else if s' = [] then None
         else case duration_components fl 0 s' of
             None \<Rightarrow> None
           | Some d \<Rightarrow> if neg then Some (- d) else if d > 2 ^ 63 - 1 then None else Some d)"

section \<open>Complaints\<close>

datatype config_error =
    Missing string
  | Unknown string string
  | BadDuration string string
  | NotPositive string string
  | Negative string
  | BelowMinimum string
  | AboveMaximum string
  | Malformed string string
  | DuplicateEntry string string
  | EmptyEntry string
  | Conflict string string
  | BadName domain_error
  | RedundantName string string
  | SameIdentifierSet string string
  | InCertificate string config_error

definition parse_duration :: "(rat \<Rightarrow> rat) \<Rightarrow> string \<Rightarrow> duration \<Rightarrow> string \<Rightarrow> config_error + duration" where
  "parse_duration fl s def field =
     (if s = [] then (if def = 0 then Inl (Missing field) else Inr def)
      else case parse_go_duration fl s of
          None \<Rightarrow> Inl (BadDuration field s)
        | Some d \<Rightarrow> if d \<le> 0 then Inl (NotPositive field s) else Inr d)"

lemma parse_duration_positive: "parse_duration fl s def field = Inr d \<Longrightarrow> 0 \<le> def \<Longrightarrow> 0 < d"
  by (auto simp: parse_duration_def split: if_splits option.splits)

section \<open>Profiles and key types\<close>

definition profile_max_names :: "(string \<times> nat) list" where
  "profile_max_names = [(''classic'', 100), (''tlsserver'', 25), (''shortlived'', 25)]"

definition profile_renew_before :: "(string \<times> duration) list" where
  "profile_renew_before = [(''classic'', 30 * 24 * ns_hour), (''tlsserver'', 15 * 24 * ns_hour),
     (''shortlived'', 48 * ns_hour)]"

definition max_names :: "string \<Rightarrow> nat" where
  "max_names p = (case map_of profile_max_names p of Some n \<Rightarrow> n | None \<Rightarrow> 0)"

definition renew_before_of :: "string \<Rightarrow> duration" where
  "renew_before_of p = (case map_of profile_renew_before p of Some d \<Rightarrow> d | None \<Rightarrow> 0)"

definition valid_profile :: "string \<Rightarrow> bool" where
  "valid_profile p \<longleftrightarrow> map_of profile_max_names p \<noteq> None"

definition valid_key_type :: "string \<Rightarrow> bool" where
  "valid_key_type k \<longleftrightarrow> k \<in> {''ecdsa-p256'', ''ecdsa-p384'', ''rsa2048'', ''rsa4096''}"

section \<open>The failure fallback\<close>

record fallback_settings =
  fs_enabled :: "bool option"
  fs_after_failures :: int
  fs_before_expiry :: string
  fs_min_identifier_failures :: int
  fs_failure_window :: string
  fs_min_names :: int
  fs_before_expiry_dur :: duration
  fs_failure_window_dur :: duration

definition normalize_fallback ::
  "(rat \<Rightarrow> rat) \<Rightarrow> fallback_settings \<Rightarrow> config_error + fallback_settings" where
  "normalize_fallback fl f =
     (case parse_duration fl (fs_before_expiry f) (7 * 24 * ns_hour) ''failureFallback.beforeExpiry'' of
        Inl e \<Rightarrow> Inl e
      | Inr be \<Rightarrow>
     (case parse_duration fl (fs_failure_window f) (24 * ns_hour) ''failureFallback.failureWindow'' of
        Inl e \<Rightarrow> Inl e
      | Inr fw \<Rightarrow>
          if fs_after_failures f < 0 then Inl (Negative ''failureFallback.afterFailures'')
          else if fs_min_identifier_failures f < 0 then Inl (Negative ''failureFallback.minIdentifierFailures'')
          else if fs_min_names f < 0 then Inl (Negative ''failureFallback.minNames'')
          else Inr (f\<lparr>fs_before_expiry_dur := be, fs_failure_window_dur := fw\<rparr>)))"

text \<open>What the manager reads of the settings.\<close>

definition policy_of :: "fallback_settings \<Rightarrow> failure_fallback" where
  "policy_of f = \<lparr>ff_enabled = fs_enabled f, ff_after_failures = fs_after_failures f,
     ff_min_identifier_failures = fs_min_identifier_failures f, ff_min_names = fs_min_names f,
     ff_before_expiry = fs_before_expiry_dur f, ff_failure_window = fs_failure_window_dur f\<rparr>"

section \<open>Backup targets\<close>

record backup_target =
  bt_hmac_key_file :: string
  bt_type :: string
  bt_name :: string
  bt_bucket :: string
  bt_prefix :: string
  bt_endpoint :: string
  bt_region :: string
  bt_host :: string
  bt_username :: string
  bt_remote_dir :: string
  bt_password_env :: string
  bt_private_key_file :: string
  bt_private_key_passphrase_env :: string
  bt_known_hosts_file :: string
  bt_secret_id_env :: string
  bt_secret_key_env :: string
  bt_keep :: int
  bt_timeout :: string
  bt_timeout_dur :: duration

definition target_field :: "nat \<Rightarrow> string \<Rightarrow> string" where
  "target_field i f = ''stateBackup.remoteTargets['' @ show_int (int i) @ ''].'' @ f"

definition or_default :: "string \<Rightarrow> string \<Rightarrow> string" where
  "or_default def s = (if s = [] then def else s)"

definition check_target_type :: "nat \<Rightarrow> backup_target \<Rightarrow> config_error + backup_target" where
  "check_target_type i t =
     (if bt_type t = ''s3'' \<or> bt_type t = ''cos'' then
        (if bt_bucket t = [] then Inl (Missing (target_field i ''bucket''))
         else if bt_type t = ''cos'' then
           (if trim_space (bt_endpoint t) = [] then Inl (Missing (target_field i ''endpoint''))
            else Inr (t\<lparr>bt_secret_id_env := or_default ''TENCENTCLOUD_SECRET_ID'' (bt_secret_id_env t),
              bt_secret_key_env := or_default ''TENCENTCLOUD_SECRET_KEY'' (bt_secret_key_env t)\<rparr>))
         else Inr t)
      else if bt_type t = ''sftp'' then
        (if bt_host t = [] \<or> bt_username t = [] \<or> bt_remote_dir t = [] \<or> bt_known_hosts_file t = [] then
           Inl (Missing (target_field i ''sftp''))
         else if bt_private_key_file t = [] \<and> bt_password_env t = [] then
           Inl (Missing (target_field i ''privateKeyFile''))
         else Inr t)
      else Inl (Unknown (target_field i ''type'') (bt_type t)))"

definition default_backup_keep :: int where "default_backup_keep = 7"

definition normalize_target :: "(rat \<Rightarrow> rat) \<Rightarrow> nat \<Rightarrow> backup_target \<Rightarrow> config_error + backup_target" where
  "normalize_target fl i t =
     (case check_target_type i (t\<lparr>bt_type := canonical (bt_type t), bt_name := trim_space (bt_name t)\<rparr>) of
        Inl e \<Rightarrow> Inl e
      | Inr t \<Rightarrow>
          (let name = or_default (bt_type t @ ''-'' @ show_int (int i + 1)) (bt_name t);
               keep = (if bt_keep t = 0 then default_backup_keep else bt_keep t)
           in if keep < 1 then Inl (BelowMinimum (target_field i ''keep''))
              else case parse_duration fl (bt_timeout t) (5 * ns_minute) (target_field i ''timeout'') of
                  Inl e \<Rightarrow> Inl e
                | Inr d \<Rightarrow> Inr (t\<lparr>bt_name := name, bt_keep := keep, bt_timeout_dur := d\<rparr>)))"

fun normalize_targets :: "(rat \<Rightarrow> rat) \<Rightarrow> nat \<Rightarrow> backup_target list \<Rightarrow> config_error + backup_target list" where
  "normalize_targets fl i [] = Inr []"
| "normalize_targets fl i (t # ts) =
     (case normalize_target fl i t of
        Inl e \<Rightarrow> Inl e
      | Inr t' \<Rightarrow> map_sum id ((#) t') (normalize_targets fl (Suc i) ts))"
section \<open>Certificates\<close>

record cert_export =
  cx_local_dir :: string
  cx_targets :: "backup_target list"

record deploy_options =
  do_enabled :: bool
  do_target :: string
  do_nginx_dir :: "string option"

record certificate =
  ct_name :: string
  ct_domains :: "string list"
  ct_profile :: string
  ct_key_type :: string
  ct_renew_before :: string
  ct_deploy :: deploy_options
  ct_fallback :: "fallback_settings option"
  ct_export :: "cert_export option"
  ct_uin :: string
  ct_renew_before_dur :: duration

definition normalize_export :: "(rat \<Rightarrow> rat) \<Rightarrow> cert_export \<Rightarrow> config_error + cert_export" where
  "normalize_export fl x =
     (let dir = trim_space (cx_local_dir x) in
      if dir = [] \<and> cx_targets x = [] then Inl (Missing ''export'')
      else case normalize_targets fl 0 (cx_targets x) of
          Inl e \<Rightarrow> Inl e
        | Inr ts \<Rightarrow> Inr (x\<lparr>cx_local_dir := dir, cx_targets := ts\<rparr>))"

definition option_sum :: "('a \<Rightarrow> 'e + 'a) \<Rightarrow> 'a option \<Rightarrow> 'e + 'a option" where
  "option_sum f x = (case x of None \<Rightarrow> Inr None | Some a \<Rightarrow> map_sum id Some (f a))"

text \<open>The part of \<open>Certificate.normalize\<close> that follows the domains.\<close>

definition normalize_renewal ::
  "(rat \<Rightarrow> rat) \<Rightarrow> certificate \<Rightarrow> config_error + certificate" where
  "normalize_renewal fl c =
     (case parse_duration fl (ct_renew_before c) (renew_before_of (ct_profile c)) ''renewBefore'' of
        Inl e \<Rightarrow> Inl e
      | Inr d \<Rightarrow>
          if (case profile_validity (ct_profile c) of None \<Rightarrow> False | Some v \<Rightarrow> d \<ge> v) then
            Inl (InCertificate (ct_name c) (AboveMaximum ''renewBefore''))
          else case option_sum (normalize_fallback fl) (ct_fallback c) of
              Inl e \<Rightarrow> Inl (InCertificate (ct_name c) e)
            | Inr f \<Rightarrow>
                (case option_sum (normalize_export fl) (ct_export c) of
                   Inl e \<Rightarrow> Inl (InCertificate (ct_name c) e)
                 | Inr x \<Rightarrow> Inr (c\<lparr>ct_renew_before_dur := d, ct_fallback := f, ct_export := x\<rparr>)))"

definition normalize_certificate ::
  "golib \<Rightarrow> (rat \<Rightarrow> rat) \<Rightarrow> string list \<Rightarrow> certificate \<Rightarrow> config_error + certificate" where
  "normalize_certificate L fl seen c0 =
     (let c = c0\<lparr>ct_profile := or_default ''classic'' (ct_profile c0),
          ct_key_type := or_default ''ecdsa-p256'' (ct_key_type c0)\<rparr>
      in if ct_name c = [] then Inl (Missing ''certificates[].name'')
         else if ct_name c \<in> set seen then Inl (DuplicateEntry ''certificates[].name'' (ct_name c))
         else if \<not> valid_profile (ct_profile c) then Inl (InCertificate (ct_name c) (Unknown ''profile'' (ct_profile c)))
         else if \<not> valid_key_type (ct_key_type c) then
           Inl (InCertificate (ct_name c) (Unknown ''keyType'' (ct_key_type c)))
         else if ct_domains c = [] then Inl (InCertificate (ct_name c) (Missing ''domains''))
         else case normalize_domains L (ct_domains c) of
             Inl e \<Rightarrow> Inl (InCertificate (ct_name c) (BadName e))
           | Inr ds \<Rightarrow>
               if length ds > max_names (ct_profile c) then
                 Inl (InCertificate (ct_name c) (AboveMaximum ''domains''))
               else normalize_renewal fl (c\<lparr>ct_domains := ds\<rparr>))"

section \<open>A set of certificates\<close>

text \<open>The key of \<open>byDomainSet\<close>.\<close>

definition identity_key :: "certificate \<Rightarrow> string" where
  "identity_key c = domain_key (ct_domains c) @ ''|'' @ ct_key_type c"

fun normalize_from_certs ::
  "golib \<Rightarrow> (rat \<Rightarrow> rat) \<Rightarrow> string list \<Rightarrow> (string \<times> string) list \<Rightarrow> certificate list \<Rightarrow>
   config_error + certificate list" where
  "normalize_from_certs L fl seen sets [] = Inr []"
| "normalize_from_certs L fl seen sets (c0 # cs) =
     (case normalize_certificate L fl seen c0 of
        Inl e \<Rightarrow> Inl e
      | Inr c \<Rightarrow>
          (case reject_redundant_wildcards (ct_domains c) (ct_domains c) of
             Some (w, n) \<Rightarrow> Inl (InCertificate (ct_name c) (RedundantName w n))
           | None \<Rightarrow>
               (case map_of sets (identity_key c) of
                  Some prev \<Rightarrow> Inl (SameIdentifierSet prev (ct_name c))
                | None \<Rightarrow>
                    (case normalize_from_certs L fl (ct_name c # seen) ((identity_key c, ct_name c) # sets) cs of
                       Inl e \<Rightarrow> Inl e
                     | Inr cs' \<Rightarrow> Inr (c # cs')))))"

definition normalize_certificates ::
  "golib \<Rightarrow> (rat \<Rightarrow> rat) \<Rightarrow> certificate list \<Rightarrow> config_error + certificate list" where
  "normalize_certificates L fl cs = normalize_from_certs L fl [] [] cs"

text \<open>What the manager is given of a normalised certificate.\<close>

definition config_of :: "certificate \<Rightarrow> cert_config" where
  "config_of c = \<lparr>cc_name = ct_name c, cc_domains = ct_domains c, cc_profile = ct_profile c,
     cc_key_type = ct_key_type c, cc_renew_before = ct_renew_before_dur c, cc_deploy = do_enabled (ct_deploy c),
     cc_export = (ct_export c \<noteq> None), cc_fallback = map_option policy_of (ct_fallback c)\<rparr>"

section \<open>What is accepted\<close>

lemma is_space_lower [simp]: "is_space (lower_char c) = is_space c"
  by (auto simp: is_space_def of_char_lower Let_def)

lemma trim_space_lower: "trim_space (to_lower s) = to_lower (trim_space s)"
proof -
  have "dropWhile is_space (map lower_char xs) = map lower_char (dropWhile is_space xs)" for xs
    by (induction xs) simp_all
  then show ?thesis by (simp add: trim_space_def to_lower_def rev_map)
qed

lemma canonical_idem [simp]: "canonical (canonical d) = canonical d"
  by (simp add: canonical_def trim_space_lower)

definition certificate_ok :: "golib \<Rightarrow> certificate \<Rightarrow> bool" where
  "certificate_ok L c \<longleftrightarrow>
     ct_name c \<noteq> [] \<and> valid_profile (ct_profile c) \<and> valid_key_type (ct_key_type c) \<and>
     ct_domains c \<noteq> [] \<and> distinct (ct_domains c) \<and> length (ct_domains c) \<le> max_names (ct_profile c) \<and>
     (\<forall>d \<in> set (ct_domains c). canonical d = d \<and> validate_domain L d = None) \<and>
     0 < ct_renew_before_dur c \<and> the (profile_validity (ct_profile c)) > ct_renew_before_dur c"

definition no_redundant_name :: "certificate \<Rightarrow> bool" where
  "no_redundant_name c \<longleftrightarrow>
     (\<forall>w \<in> set (ct_domains c). \<forall>n \<in> set (ct_domains c). wildcard_covers w n \<longrightarrow> n = w)"

lemma renew_before_of_nonneg: "0 \<le> renew_before_of p"
  by (auto simp: renew_before_of_def profile_renew_before_def ns_hour_def split: option.split dest: map_of_SomeD)

lemma profile_has_validity: "valid_profile p \<Longrightarrow> \<exists>v. profile_validity p = Some v"
  by (auto simp: valid_profile_def profile_max_names_def profile_validity_def split: if_splits)

lemma normalize_renewal_ok:
  assumes "normalize_renewal fl c = Inr c'"
  shows "\<exists>d f x. c' = c\<lparr>ct_renew_before_dur := d, ct_fallback := f, ct_export := x\<rparr> \<and> 0 < d \<and>
    parse_duration fl (ct_renew_before c) (renew_before_of (ct_profile c)) ''renewBefore'' = Inr d \<and>
    (\<forall>v. profile_validity (ct_profile c) = Some v \<longrightarrow> d < v) \<and>
    option_sum (normalize_fallback fl) (ct_fallback c) = Inr f \<and> option_sum (normalize_export fl) (ct_export c) = Inr x"
  using assms parse_duration_positive [OF _ renew_before_of_nonneg]
  by (fastforce simp: normalize_renewal_def split: sum.splits if_splits option.splits)

lemma normalize_certificate_ok:
  assumes "normalize_certificate L fl seen c = Inr c'"
  shows "certificate_ok L c' \<and> ct_name c' = ct_name c \<and> ct_name c' \<notin> set seen"
proof -
  let ?c = "c\<lparr>ct_profile := or_default ''classic'' (ct_profile c),
    ct_key_type := or_default ''ecdsa-p256'' (ct_key_type c)\<rparr>"
  obtain ds where ds: "normalize_domains L (ct_domains c) = Inr ds" "length ds \<le> max_names (ct_profile ?c)"
    "normalize_renewal fl (?c\<lparr>ct_domains := ds\<rparr>) = Inr c'"
    and n: "ct_name c \<noteq> []" "ct_name c \<notin> set seen" "valid_profile (ct_profile ?c)" "valid_key_type (ct_key_type ?c)"
      "ct_domains c \<noteq> []"
    using assms by (auto simp: normalize_certificate_def Let_def split: if_splits sum.splits)
  have "ds = dedup (map canonical (ct_domains c))" "\<forall>d \<in> set (ct_domains c). validate_domain L (canonical d) = None"
    using ds(1) by (simp_all add: normalize_domains_Inr)
  then have "distinct ds" "set ds = canonical ` set (ct_domains c)"
    "\<forall>d \<in> set ds. canonical d = d \<and> validate_domain L d = None" by auto
  moreover have "ds \<noteq> []" using n(5) \<open>set ds = _\<close> by auto
  moreover obtain v where "profile_validity (ct_profile ?c) = Some v" using profile_has_validity [OF n(3)] by blast
  ultimately show ?thesis
    using normalize_renewal_ok [OF ds(3)] ds(2) n by (auto simp: certificate_ok_def)
qed

lemma no_redundant_iff: "reject_redundant_wildcards (ct_domains c) (ct_domains c) = None \<longleftrightarrow> no_redundant_name c"
proof -
  have "is_wildcard w" if "wildcard_covers w n" for w n using that by (simp add: wildcard_covers_def split: if_splits)
  then show ?thesis
    unfolding reject_redundant_None no_redundant_name_def using redundant_under_iff by blast
qed

lemma accepted_one_by_one:
  assumes "normalize_from_certs L fl seen sets cs = Inr cs'"
  shows "map ct_name cs' = map ct_name cs \<and> distinct (map ct_name cs') \<and> set (map ct_name cs') \<inter> set seen = {} \<and>
    (\<forall>c \<in> set cs'. certificate_ok L c \<and> no_redundant_name c) \<and>
    distinct (map identity_key cs') \<and> set (map identity_key cs') \<inter> fst ` set sets = {}"
  using assms
proof (induction L fl seen sets cs arbitrary: cs' rule: normalize_from_certs.induct)
  case (2 L fl seen sets c0 cs)
  obtain c where c: "normalize_certificate L fl seen c0 = Inr c"
    using 2(2) by (auto split: sum.splits)
  have r: "reject_redundant_wildcards (ct_domains c) (ct_domains c) = None" "map_of sets (identity_key c) = None"
    using 2(2) by (auto simp: c split: option.splits)
  obtain ds where ds: "normalize_from_certs L fl (ct_name c # seen) ((identity_key c, ct_name c) # sets) cs = Inr ds"
    "cs' = c # ds" using 2(2) by (auto simp: c r split: sum.splits)
  have "no_redundant_name c" using r(1) no_redundant_iff by blast
  moreover have "identity_key c \<notin> fst ` set sets" using r(2) by (simp add: map_of_eq_None_iff)
  moreover have "ct_name c \<notin> ct_name ` set ds" "ct_name ` set ds \<inter> set seen = {}"
    "identity_key c \<notin> identity_key ` set ds" "identity_key ` set ds \<inter> fst ` set sets = {}"
    using "2.IH" [OF c r ds(1)] by auto
  ultimately show ?case
    using "2.IH" [OF c r ds(1)] normalize_certificate_ok [OF c] unfolding ds(2)
    by (intro conjI; simp)
qed simp

lemma ok_comma_free: "certificate_ok L c \<Longrightarrow> comma_free (ct_domains c)"
proof -
  assume c: "certificate_ok L c"
  have "CHR '','' \<notin> set d" if d: "d \<in> set (ct_domains c)" for d
  proof -
    have v: "validate_domain L d = None" using c d by (simp add: certificate_ok_def)
    then have "CHR '','' \<notin> set (base_name d)" using host_name_chars [OF validate_domain_host [OF v]] by fastforce
    moreover have "CHR '','' \<notin> set (''*.'' @ b)" if "CHR '','' \<notin> set b" for b using that by simp
    ultimately show ?thesis using wildcard_decomp base_not_wildcard by metis
  qed
  then show ?thesis by (simp add: comma_free_def list_all_iff)
qed

lemma ok_key_set: "certificate_ok L c \<Longrightarrow> key_set (ct_domains c) = set (ct_domains c)"
proof -
  assume c: "certificate_ok L c"
  have "[] \<notin> set (ct_domains c)"
  proof
    assume "[] \<in> set (ct_domains c)"
    then have "validate_domain L [] = None" using c by (simp add: certificate_ok_def)
    then show False by (simp add: validate_domain_def)
  qed
  moreover have "canonical ` set (ct_domains c) = set (ct_domains c)"
    using c by (auto simp: certificate_ok_def image_iff)
  ultimately show ?thesis by (simp add: key_set_def)
qed

lemma identity_key_eq:
  "set (ct_domains c) = set (ct_domains c') \<Longrightarrow> ct_key_type c = ct_key_type c' \<Longrightarrow> identity_key c = identity_key c'"
  using domain_key_set [of "ct_domains c" "ct_domains c'"] by (simp add: identity_key_def)

text \<open>
  What every consumer of a list of certificates may rely on: the declared certificates come back in
  order, under distinct names, each with a known profile and key type, distinct canonical valid
  domains within the profile's limit and none that a wildcard makes redundant, and a renewal margin
  that is positive and shorter than the validity; and no two of them ask for the same set of names
  with the same key type.
\<close>

theorem accepted_certificates:
  assumes "normalize_certificates L fl cs = Inr cs'"
  shows "map ct_name cs' = map ct_name cs \<and> distinct (map ct_name cs') \<and>
    (\<forall>c \<in> set cs'. certificate_ok L c \<and> no_redundant_name c) \<and>
    (\<forall>c \<in> set cs'. \<forall>c' \<in> set cs'. set (ct_domains c) = set (ct_domains c') \<longrightarrow> ct_key_type c = ct_key_type c' \<longrightarrow> c = c')"
proof -
  note a = accepted_one_by_one [OF assms [unfolded normalize_certificates_def]]
  have "c = c'" if "c \<in> set cs'" "c' \<in> set cs'" "set (ct_domains c) = set (ct_domains c')" "ct_key_type c = ct_key_type c'"
    for c c'
    using that identity_key_eq [OF that(3,4)] a by (auto simp: distinct_map inj_on_def)
  then show ?thesis using a by blast
qed

section \<open>Normalising twice\<close>

definition trimmed :: "string \<Rightarrow> bool" where "trimmed s \<longleftrightarrow> trim_space s = s"

lemma trim_space_trimmed [simp]: "trimmed (trim_space s)"
  by (simp add: trimmed_def)

lemma digits_last: "0 \<le> n \<Longrightarrow> digits n \<noteq> [] \<and> \<not> is_space (last (digits n))"
proof (induction n rule: digits.induct)
  case (1 n)
  have s: "\<not> is_space (char_of (48 + k) :: char)" if "0 \<le> k" "k < 10" for k :: int
  proof -
    have "int (of_char (char_of (48 + k) :: char)) = 48 + k"
      using that by (simp only: of_nat_of_char of_char_of) simp
    then show ?thesis using that by (simp add: is_space_def Let_def)
  qed
  then show ?case
    using 1 by (subst digits.simps, subst digits.simps [of n]) (simp add: s)
qed

lemma trimmed_number: "a \<noteq> [] \<Longrightarrow> \<not> is_space (hd a) \<Longrightarrow> trimmed (a @ show_int (int i + 1))"
proof -
  assume a: "a \<noteq> []" "\<not> is_space (hd a)"
  have d: "digits (int i + 1) \<noteq> [] \<and> \<not> is_space (last (digits (int i + 1)))" using digits_last by simp
  then obtain u v where u: "digits (int i + 1) = u @ [v]" "\<not> is_space v" by (metis append_butlast_last_id)
  have "dropWhile is_space (a @ u @ [v]) = a @ u @ [v]" using a by (cases a) simp_all
  then show ?thesis using u by (simp add: trimmed_def trim_space_def show_int_def)
qed

lemma or_default_twice [simp]: "or_default d (or_default d s) = or_default d s"
  by (simp add: or_default_def)

lemma check_cos:
  "bt_type t = ''cos'' \<Longrightarrow> check_target_type i t = Inr s \<Longrightarrow>
   bt_bucket t \<noteq> [] \<and> trim_space (bt_endpoint t) \<noteq> [] \<and>
   s = t\<lparr>bt_secret_id_env := or_default ''TENCENTCLOUD_SECRET_ID'' (bt_secret_id_env t),
     bt_secret_key_env := or_default ''TENCENTCLOUD_SECRET_KEY'' (bt_secret_key_env t)\<rparr>"
  unfolding check_target_type_def by (cases "bt_bucket t = []"; cases "trim_space (bt_endpoint t) = []"; simp)

lemma check_other: "bt_type t \<noteq> ''cos'' \<Longrightarrow> check_target_type i t = Inr s \<Longrightarrow> s = t"
  unfolding check_target_type_def by (simp only: split: if_splits) simp_all

lemma check_known: "check_target_type i t = Inr s \<Longrightarrow> bt_type t \<in> {''s3'', ''cos'', ''sftp''}"
  by (simp only: check_target_type_def split: if_splits) simp_all

lemma check_again: "check_target_type i t = Inr s \<Longrightarrow> check_target_type i s = Inr s"
proof (cases "bt_type t = ''cos''")
  case True
  assume "check_target_type i t = Inr s"
  from check_cos [OF True this] True show ?thesis by (simp add: check_target_type_def)
next
  case False
  assume "check_target_type i t = Inr s"
  with check_other [OF False this] show ?thesis by simp
qed

lemma check_keeps: "check_target_type i t = Inr s \<Longrightarrow>
   bt_type s = bt_type t \<and> bt_name s = bt_name t \<and> bt_keep s = bt_keep t \<and> bt_timeout s = bt_timeout t"
proof (cases "bt_type t = ''cos''")
  case True
  assume "check_target_type i t = Inr s"
  from check_cos [OF True this] True show ?thesis by simp
next
  case False
  assume "check_target_type i t = Inr s"
  from check_other [OF False this] show ?thesis by simp
qed

lemma check_frame:
  "check_target_type i (t\<lparr>bt_name := n, bt_keep := k, bt_timeout_dur := d\<rparr>) =
   map_sum id (\<lambda>s. s\<lparr>bt_name := n, bt_keep := k, bt_timeout_dur := d\<rparr>) (check_target_type i t)"
  by (simp add: check_target_type_def)

lemma normalize_target_again:
  assumes "normalize_target fl i t = Inr t'"
  shows "normalize_target fl i t' = Inr t'"
proof -
  let ?t = "t\<lparr>bt_type := canonical (bt_type t), bt_name := trim_space (bt_name t)\<rparr>"
  obtain s where s: "check_target_type i ?t = Inr s"
    using assms by (auto simp: normalize_target_def split: sum.splits)
  note k = check_keeps [OF s]
  define keep where "keep = (if bt_keep s = 0 then default_backup_keep else bt_keep s)"
  define name where "name = or_default (bt_type s @ ''-'' @ show_int (int i + 1)) (bt_name s)"
  obtain d where d: "parse_duration fl (bt_timeout s) (5 * ns_minute) (target_field i ''timeout'') = Inr d"
    "t' = s\<lparr>bt_name := name, bt_keep := keep, bt_timeout_dur := d\<rparr>" "\<not> keep < 1"
    using assms s unfolding keep_def name_def
    by (auto simp: normalize_target_def Let_def split: sum.splits if_splits)
  have "trimmed (bt_type s @ ''-'' @ show_int (int i + 1))"
    using trimmed_number [of "bt_type s @ ''-''" i] check_known [OF s] k by (auto simp: is_space_def Let_def)
  then have n: "trim_space name = name" "name \<noteq> []"
    using k by (auto simp: name_def or_default_def trimmed_def)
  have "t'\<lparr>bt_type := canonical (bt_type t'), bt_name := trim_space (bt_name t')\<rparr> = t'"
    using k n(1) by (simp add: d(2))
  moreover have "check_target_type i t' = Inr t'"
    unfolding d(2) check_frame check_again [OF s] by simp
  ultimately show ?thesis
    using n(2) d by (simp add: normalize_target_def Let_def or_default_def)
qed

lemma normalize_targets_again: "normalize_targets fl i ts = Inr ts' \<Longrightarrow> normalize_targets fl i ts' = Inr ts'"
proof (induction fl i ts arbitrary: ts' rule: normalize_targets.induct)
  case (2 fl i t ts)
  obtain t' where t: "normalize_target fl i t = Inr t'" using "2.prems" by (auto split: sum.splits)
  obtain us where u: "normalize_targets fl (Suc i) ts = Inr us" "ts' = t' # us"
    using "2.prems" t by (cases "normalize_targets fl (Suc i) ts") auto
  show ?case using "2.IH" [OF t u(1)] normalize_target_again [OF t] by (simp add: u(2))
qed simp

lemma normalize_fallback_again: "normalize_fallback fl f = Inr f' \<Longrightarrow> normalize_fallback fl f' = Inr f'"
  by (auto simp: normalize_fallback_def split: sum.splits if_splits)

lemma normalize_export_again: "normalize_export fl x = Inr x' \<Longrightarrow> normalize_export fl x' = Inr x'"
proof -
  assume x: "normalize_export fl x = Inr x'"
  obtain ts where ts: "normalize_targets fl 0 (cx_targets x) = Inr ts"
    using x by (auto simp: normalize_export_def Let_def split: sum.splits if_splits)
  then have "ts = [] \<longleftrightarrow> cx_targets x = []"
    by (cases "cx_targets x") (auto split: sum.splits simp: map_sum_def)
  then show ?thesis
    using x ts normalize_targets_again [OF ts]
    by (auto simp: normalize_export_def Let_def split: sum.splits if_splits)
qed

lemma option_sum_again:
  "(\<And>a b. f a = Inr b \<Longrightarrow> f b = Inr b) \<Longrightarrow> option_sum f x = Inr y \<Longrightarrow> option_sum f y = Inr y"
  by (cases x; cases "f (the x)") (auto simp: option_sum_def)

lemma valid_profile_Nil [simp]: "\<not> valid_profile []" "\<not> valid_key_type []"
  by (simp_all add: valid_profile_def profile_max_names_def valid_key_type_def)

lemma normalize_domains_again: "normalize_domains L ds = Inr ds' \<Longrightarrow> normalize_domains L ds' = Inr ds'"
proof -
  assume "normalize_domains L ds = Inr ds'"
  then have d: "\<forall>d \<in> set ds. validate_domain L (canonical d) = None" "ds' = dedup (map canonical ds)"
    by (simp_all add: normalize_domains_Inr)
  then have "map canonical ds' = ds'" by (intro map_idI) auto
  then show ?thesis using d by (auto simp: normalize_domains_Inr dedup_distinct)
qed

lemma normalize_certificate_again:
  assumes "normalize_certificate L fl seen c = Inr c'"
  shows "normalize_certificate L fl seen c' = Inr c'"
proof -
  let ?c = "c\<lparr>ct_profile := or_default ''classic'' (ct_profile c),
    ct_key_type := or_default ''ecdsa-p256'' (ct_key_type c)\<rparr>"
  obtain ds where ds: "normalize_domains L (ct_domains c) = Inr ds" "length ds \<le> max_names (ct_profile ?c)"
    "normalize_renewal fl (?c\<lparr>ct_domains := ds\<rparr>) = Inr c'"
    and n: "ct_name c \<noteq> []" "ct_name c \<notin> set seen" "valid_profile (ct_profile ?c)" "valid_key_type (ct_key_type ?c)"
    using assms by (auto simp: normalize_certificate_def Let_def split: if_splits sum.splits)
  obtain d f x where c': "c' = ?c\<lparr>ct_domains := ds, ct_renew_before_dur := d, ct_fallback := f, ct_export := x\<rparr>"
    "parse_duration fl (ct_renew_before c) (renew_before_of (ct_profile ?c)) ''renewBefore'' = Inr d"
    "\<forall>v. profile_validity (ct_profile ?c) = Some v \<longrightarrow> d < v"
    "option_sum (normalize_fallback fl) (ct_fallback c) = Inr f" "option_sum (normalize_export fl) (ct_export c) = Inr x"
    using normalize_renewal_ok [OF ds(3)] by auto
  have "option_sum (normalize_fallback fl) f = Inr f" "option_sum (normalize_export fl) x = Inr x"
    using c'(4,5) by (auto intro: option_sum_again normalize_fallback_again normalize_export_again)
  then have "normalize_renewal fl c' = Inr c'"
    using c'(2,3) unfolding c'(1) by (auto simp: normalize_renewal_def split: option.splits)
  moreover have "ct_domains c' \<noteq> []"
    using normalize_certificate_ok [OF assms] by (simp add: certificate_ok_def)
  moreover have "c'\<lparr>ct_profile := or_default ''classic'' (ct_profile c),
      ct_key_type := or_default ''ecdsa-p256'' (ct_key_type c), ct_domains := ds\<rparr> = c'"
    "normalize_domains L (ct_domains c') = Inr ds"
    using c'(1) normalize_domains_again [OF ds(1)] by simp_all
  moreover have "ct_name c' = ct_name c" "ct_profile c' = ct_profile ?c" "ct_key_type c' = ct_key_type ?c"
    by (simp_all add: c'(1))
  ultimately show ?thesis
    using n ds(2) by (simp add: normalize_certificate_def Let_def)
qed

text \<open>
  What the generator writes is read back as it is: a list of certificates that has been normalised
  is accepted again and comes back unchanged, whatever defaults were filled in the first time.
\<close>

theorem normalising_is_stable:
  assumes "normalize_certificates L fl cs = Inr cs'"
  shows "normalize_certificates L fl cs' = Inr cs'"
proof -
  have "normalize_from_certs L fl seen sets ds = Inr ds' \<Longrightarrow> normalize_from_certs L fl seen sets ds' = Inr ds'"
    for seen sets ds ds'
  proof (induction L fl seen sets ds arbitrary: ds' rule: normalize_from_certs.induct)
    case (2 L fl seen sets c0 cs)
    obtain c where c: "normalize_certificate L fl seen c0 = Inr c"
      using "2.prems" by (auto split: sum.splits)
    have r: "reject_redundant_wildcards (ct_domains c) (ct_domains c) = None" "map_of sets (identity_key c) = None"
      using "2.prems" by (auto simp: c split: option.splits)
    obtain ds where ds: "normalize_from_certs L fl (ct_name c # seen) ((identity_key c, ct_name c) # sets) cs = Inr ds"
      "ds' = c # ds" using "2.prems" by (auto simp: c r split: sum.splits)
    show ?case using "2.IH" [OF c r ds(1)] normalize_certificate_again [OF c] by (simp add: r ds(2))
  qed simp
  then show ?thesis using assms unfolding normalize_certificates_def by blast
qed

definition sample_certificate :: certificate where
  "sample_certificate = \<lparr>ct_name = ''example-com'', ct_domains = ['' WWW.example.com'', ''example.com''],
     ct_profile = [], ct_key_type = [], ct_renew_before = ''720h'',
     ct_deploy = \<lparr>do_enabled = True, do_target = [], do_nginx_dir = None\<rparr>, ct_fallback = None,
     ct_export = None, ct_uin = [], ct_renew_before_dur = 0\<rparr>"

lemma sample_accepted:
  "normalize_certificates acme_lib (\<lambda>x. x) [sample_certificate] = Inr [sample_certificate\<lparr>
     ct_domains := [''www.example.com'', ''example.com''], ct_profile := ''classic'',
     ct_key_type := ''ecdsa-p256'', ct_renew_before_dur := 2592000000000000\<rparr>]"
  by code_simp

theorem accepted_certificates_witness:
  "certificate_ok acme_lib (sample_certificate\<lparr>ct_domains := [''www.example.com'', ''example.com''],
     ct_profile := ''classic'', ct_key_type := ''ecdsa-p256'', ct_renew_before_dur := 2592000000000000\<rparr>)"
  using accepted_certificates [OF sample_accepted] by simp

theorem normalising_is_stable_witness:
  "\<exists>cs. cs \<noteq> [] \<and> normalize_certificates acme_lib (\<lambda>x. x) cs = Inr cs"
  using normalising_is_stable [OF sample_accepted] by blast

end
