(* ===== verification/Desired.thy ===== *)
theory Desired
  imports Certs
begin

unbundle bit_operations_syntax

text \<open>
  The desired state (package \<open>internal/spec\<close>): the document the onboarding component writes and its
  validation (\<open>document.go\<close>), the sources a pass reads its certificates from (\<open>static.go\<close>, \<open>file.go\<close>)
  and the comparison made before a document is enforced (\<open>observe.go\<close>).

  The file system, the YAML decoder, SHA-256 and the clock are arguments: a read of the document is
  described by what each system call answered (\<open>doc_read\<close>).
\<close>

section \<open>Decisions and results\<close>

record decision =
  dn_hostname :: string
  dn_included :: bool
  dn_reason :: string
  dn_certificate :: string

record certificate_change =
  cg_name :: string
  cg_added :: "string list"
  cg_removed :: "string list"
  cg_changed :: "string list"

record shadow_report =
  sr_revision :: string
  sr_generated_at :: instant
  sr_error :: string
  sr_add :: "string list"
  sr_remove :: "string list"
  sr_change :: "certificate_change list"
  sr_added_domains :: nat
  sr_removed_domains :: nat

record desired_result =
  re_certs :: "certificate list"
  re_decisions :: "decision list"
  re_revision :: string
  re_generated_at :: instant
  re_frozen :: bool
  re_freeze_reason :: string
  re_shadow :: "shadow_report option"

definition cert_names :: "desired_result \<Rightarrow> string list" where
  "cert_names r = map ct_name (re_certs r)"

definition find_cert :: "string \<Rightarrow> certificate list \<Rightarrow> certificate option" where
  "find_cert name cs = find (\<lambda>c. ct_name c = name) cs"

definition decisions_for :: "string \<Rightarrow> certificate list \<Rightarrow> decision list" where
  "decisions_for reason cs = concat (map (\<lambda>c. map (\<lambda>d.
     \<lparr>dn_hostname = d, dn_included = True, dn_reason = reason, dn_certificate = ct_name c\<rparr>) (ct_domains c)) cs)"

section \<open>The fingerprint of a desired state\<close>

definition effective_renew_before :: "(rat \<Rightarrow> rat) \<Rightarrow> certificate \<Rightarrow> duration" where
  "effective_renew_before fl c =
     (if ct_renew_before_dur c > 0 then ct_renew_before_dur c
      else if ct_renew_before c \<noteq> [] then
        (case parse_go_duration fl (ct_renew_before c) of Some d \<Rightarrow> d | None \<Rightarrow> 0)
      else renew_before_of (ct_profile c))"

definition newline :: string where "newline = [char_of (10 :: nat)]"

definition show_bool :: "bool \<Rightarrow> string" where
  "show_bool b = (if b then ''true'' else ''false'')"

text \<open>What one certificate adds to the hash.\<close>

definition fingerprint_of :: "(rat \<Rightarrow> rat) \<Rightarrow> certificate \<Rightarrow> string" where
  "fingerprint_of fl c =
     ''name='' @ ct_name c @ newline @ ''profile='' @ ct_profile c @ newline @
     ''keyType='' @ ct_key_type c @ newline @
     ''renewBefore='' @ duration_string (effective_renew_before fl c) @ newline @
     ''deploy='' @ show_bool (do_enabled (ct_deploy c)) @ newline @
     concat (map (\<lambda>d. ''domain='' @ d @ newline) (sort (ct_domains c))) @ [char_of (0 :: nat)]"

definition hex_digit :: "nat \<Rightarrow> char" where
  "hex_digit d = ''0123456789abcdef'' ! (d mod 16)"

definition hex_bytes :: "nat list \<Rightarrow> string" where
  "hex_bytes bs = concat (map (\<lambda>b. [hex_digit (b div 16), hex_digit b]) bs)"

definition revision :: "(rat \<Rightarrow> rat) \<Rightarrow> (string \<Rightarrow> nat list) \<Rightarrow> certificate list \<Rightarrow> string" where
  "revision fl sha cs =
     ''sha256:'' @ take 16 (hex_bytes (sha (concat (map (fingerprint_of fl) (sort_key ct_name cs)))))"

section \<open>The document\<close>

record desired_document =
  dd_api_version :: string
  dd_kind :: string
  dd_generated_at :: instant
  dd_generator :: string
  dd_revision :: string
  dd_certs :: "certificate list"

datatype document_error =
    BadVersion string
  | BadKind string
  | NoGeneratedAt
  | FutureDated duration
  | NoCertificates
  | BadCertificates config_error
  | NoRegisteredDomain string
  | SpansDomains string "string list"
  | UnstableName string string
  | RevisionMismatch string string

definition max_generated_at_skew :: duration where "max_generated_at_skew = ns_hour"

definition check_name_stability :: "golib \<Rightarrow> certificate \<Rightarrow> document_error option" where
  "check_name_stability L c =
     (let regs = dedup (filter (\<lambda>r. r \<noteq> []) (map (registered_domain L) (ct_domains c)))
      in case regs of
          [] \<Rightarrow> Some (NoRegisteredDomain (ct_name c))
        | [reg] \<Rightarrow> if ct_name c = cert_name reg then None else Some (UnstableName (ct_name c) reg)
        | _ \<Rightarrow> Some (SpansDomains (ct_name c) (sort regs)))"

fun check_names_stable :: "golib \<Rightarrow> certificate list \<Rightarrow> document_error option" where
  "check_names_stable L [] = None"
| "check_names_stable L (c # cs) =
     (case check_name_stability L c of Some e \<Rightarrow> Some e | None \<Rightarrow> check_names_stable L cs)"

definition validate_document ::
  "golib \<Rightarrow> (rat \<Rightarrow> rat) \<Rightarrow> (string \<Rightarrow> nat list) \<Rightarrow> instant \<Rightarrow> desired_document \<Rightarrow>
   document_error + desired_document" where
  "validate_document L fl sha now d =
     (if dd_api_version d \<noteq> ''wecert/v1'' then Inl (BadVersion (dd_api_version d))
      else if dd_kind d \<noteq> ''DesiredState'' then Inl (BadKind (dd_kind d))
      else if dd_generated_at d = zero_time then Inl NoGeneratedAt
      else if time_sub (dd_generated_at d) now > max_generated_at_skew then
        Inl (FutureDated (time_sub (dd_generated_at d) now))
      else if dd_certs d = [] then Inl NoCertificates
      else case normalize_certificates L fl (dd_certs d) of
          Inl e \<Rightarrow> Inl (BadCertificates e)
        | Inr cs \<Rightarrow>
            (case check_names_stable L cs of
               Some e \<Rightarrow> Inl e
             | None \<Rightarrow>
                 (let want = revision fl sha cs
                  in if dd_revision d = [] then Inr (d\<lparr>dd_certs := cs, dd_revision := want\<rparr>)
                     else if dd_revision d \<noteq> want then Inl (RevisionMismatch (dd_revision d) want)
                     else Inr (d\<lparr>dd_certs := cs\<rparr>))))"

section \<open>Reading the document\<close>

text \<open>
  The answers of one read: opening without following a symlink, \<open>fstat\<close> of the open file, \<open>stat\<close> of
  its directory, the bytes (at most one beyond the limit), and the decoder: the first document and
  what follows it (\<open>Inr True\<close> is an empty document).
\<close>

record file_info =
  fi_regular :: bool
  fi_perm :: nat
  fi_uid :: "int option"

datatype open_answer = OpenFailed string | SymlinkRefused | Opened

record doc_read =
  rd_open :: open_answer
  rd_file :: "string + file_info"
  rd_dir :: "string + file_info"
  rd_euid :: int
  rd_bytes :: "string + string"
  rd_decode :: "string + desired_document \<times> (string + bool) list"

datatype load_error =
    OpenError string
  | IsSymlink
  | StatError string
  | NotRegular
  | WritableByOthers nat
  | OwnedByOther int
  | DirStatError string
  | DirWritableByOthers nat
  | DirOwnedByOther int
  | ReadError string
  | TooLarge
  | ParseError string
  | ManyDocuments
  | Rejected document_error

definition max_document_bytes :: nat where "max_document_bytes = 16 * 1048576"

definition check_document_owner :: "doc_read \<Rightarrow> file_info \<Rightarrow> load_error option" where
  "check_document_owner r fi =
     (case fi_uid fi of None \<Rightarrow> None | Some u \<Rightarrow> if u \<noteq> rd_euid r then Some (OwnedByOther u) else None)"

definition check_document_dir_owner :: "doc_read \<Rightarrow> file_info \<Rightarrow> load_error option" where
  "check_document_dir_owner r fi =
     (case fi_uid fi of
        None \<Rightarrow> None
      | Some u \<Rightarrow> if u \<noteq> 0 \<and> u \<noteq> rd_euid r then Some (DirOwnedByOther u) else None)"

definition check_document_dir :: "doc_read \<Rightarrow> load_error option" where
  "check_document_dir r =
     (case rd_dir r of
        Inl e \<Rightarrow> Some (DirStatError e)
      | Inr fi \<Rightarrow>
          if fi_perm fi AND 18 \<noteq> 0 then Some (DirWritableByOthers (fi_perm fi))
          else check_document_dir_owner r fi)"

fun reject_extra_documents :: "(string + bool) list \<Rightarrow> load_error option" where
  "reject_extra_documents [] = None"
| "reject_extra_documents (x # xs) =
     (case x of
        Inl e \<Rightarrow> Some (ParseError e)
      | Inr blank \<Rightarrow> if blank then reject_extra_documents xs else Some ManyDocuments)"

definition parse_document ::
  "golib \<Rightarrow> (rat \<Rightarrow> rat) \<Rightarrow> (string \<Rightarrow> nat list) \<Rightarrow> instant \<Rightarrow> doc_read \<Rightarrow> load_error + desired_document" where
  "parse_document L fl sha now r =
     (case rd_bytes r of
        Inl e \<Rightarrow> Inl (ReadError e)
      | Inr data \<Rightarrow>
          if length data > max_document_bytes then Inl TooLarge
          else case rd_decode r of
              Inl e \<Rightarrow> Inl (ParseError e)
            | Inr (doc, rest) \<Rightarrow>
                (case reject_extra_documents rest of
                   Some e \<Rightarrow> Inl e
                 | None \<Rightarrow> map_sum Rejected id (validate_document L fl sha now doc)))"

definition load_document ::
  "golib \<Rightarrow> (rat \<Rightarrow> rat) \<Rightarrow> (string \<Rightarrow> nat list) \<Rightarrow> instant \<Rightarrow> doc_read \<Rightarrow> load_error + desired_document" where
  "load_document L fl sha now r =
     (case rd_open r of
        OpenFailed e \<Rightarrow> Inl (OpenError e)
      | SymlinkRefused \<Rightarrow> Inl IsSymlink
      | Opened \<Rightarrow>
          (case rd_file r of
             Inl e \<Rightarrow> Inl (StatError e)
           | Inr fi \<Rightarrow>
               if \<not> fi_regular fi then Inl NotRegular
               else if fi_perm fi AND 18 \<noteq> 0 then Inl (WritableByOthers (fi_perm fi))
               else case check_document_owner r fi of
                   Some e \<Rightarrow> Inl e
                 | None \<Rightarrow>
                     (case check_document_dir r of
                        Some e \<Rightarrow> Inl e
                      | None \<Rightarrow> parse_document L fl sha now r)))"

section \<open>The sources\<close>

definition static_result ::
  "(rat \<Rightarrow> rat) \<Rightarrow> (string \<Rightarrow> nat list) \<Rightarrow> certificate list \<Rightarrow> desired_result" where
  "static_result fl sha cs =
     \<lparr>re_certs = cs,
      re_decisions = decisions_for ''declared in the configuration file (desiredState.mode=static)'' cs,
      re_revision = revision fl sha cs, re_generated_at = zero_time, re_frozen = False,
      re_freeze_reason = [], re_shadow = None\<rparr>"

definition document_result :: "desired_document \<Rightarrow> bool \<Rightarrow> string \<Rightarrow> desired_result" where
  "document_result d frozen reason =
     \<lparr>re_certs = dd_certs d,
      re_decisions = decisions_for (''declared in the desired-state document ('' @ dd_revision d @ '')'') (dd_certs d),
      re_revision = dd_revision d, re_generated_at = dd_generated_at d, re_frozen = frozen,
      re_freeze_reason = reason, re_shadow = None\<rparr>"

text \<open>
  The document source keeps the last document that could be read; \<open>show\<close> renders the error of a
  read. Creating it needs one successful read.
\<close>

definition new_file :: "load_error + desired_document \<Rightarrow> load_error + desired_document option" where
  "new_file load = map_sum id Some load"

definition file_desired ::
  "(load_error \<Rightarrow> string) \<Rightarrow> load_error + desired_document \<Rightarrow> desired_document option \<Rightarrow>
   (string + desired_result) \<times> desired_document option" where
  "file_desired show load lastd =
     (case load of
        Inr d \<Rightarrow> (Inr (document_result d False []), Some d)
      | Inl e \<Rightarrow>
          (case lastd of
             None \<Rightarrow> (Inl (''no usable desired state: '' @ show e), None)
           | Some d \<Rightarrow> (Inr (document_result d True (show e)), lastd)))"

fun file_run ::
  "(load_error \<Rightarrow> string) \<Rightarrow> desired_document option \<Rightarrow> (load_error + desired_document) list \<Rightarrow>
   (string + desired_result) list" where
  "file_run show lastd [] = []"
| "file_run show lastd (l # ls) =
     (let (answer, lastd') = file_desired show l lastd in answer # file_run show lastd' ls)"
section \<open>Comparing two desired states\<close>

text \<open>\<open>byName\<close>: of certificates with the same name the last one counts.\<close>

definition by_name :: "certificate list \<Rightarrow> (string \<times> certificate) list" where
  "by_name cs = fold (\<lambda>c m. AList.update (ct_name c) c m) cs []"

definition only_in :: "string list \<Rightarrow> string list \<Rightarrow> string list" where
  "only_in a b = sort (filter (\<lambda>x. x \<notin> set b) a)"

definition diff_cert :: "certificate \<Rightarrow> certificate \<Rightarrow> certificate_change option" where
  "diff_cert cur want =
     (let added = only_in (ct_domains want) (ct_domains cur);
          removed = only_in (ct_domains cur) (ct_domains want);
          changed = (if ct_profile cur \<noteq> ct_profile want then [''profile''] else []) @
            (if ct_key_type cur \<noteq> ct_key_type want then [''keyType''] else []) @
            (if do_enabled (ct_deploy cur) \<noteq> do_enabled (ct_deploy want) then [''deploy''] else []) @
            (if ct_renew_before_dur cur \<noteq> ct_renew_before_dur want then [''renewBefore''] else [])
      in if added = [] \<and> removed = [] \<and> changed = [] then None
         else Some \<lparr>cg_name = ct_name cur, cg_added = added, cg_removed = removed, cg_changed = changed\<rparr>)"

definition changes :: "(string \<times> certificate) list \<Rightarrow> (string \<times> certificate) list \<Rightarrow> certificate_change list" where
  "changes cur want = concat (map (\<lambda>(n, w).
     case map_of cur n of None \<Rightarrow> [] | Some c \<Rightarrow> (case diff_cert c w of None \<Rightarrow> [] | Some ch \<Rightarrow> [ch])) want)"

definition diff_results :: "desired_result \<Rightarrow> desired_result \<Rightarrow> shadow_report" where
  "diff_results enforced shadow =
     (let cur = by_name (re_certs enforced); want = by_name (re_certs shadow);
          add = filter (\<lambda>(n, c). n \<notin> fst ` set cur) want;
          rem = filter (\<lambda>(n, c). n \<notin> fst ` set want) cur;
          ch = changes cur want
      in \<lparr>sr_revision = re_revision shadow, sr_generated_at = re_generated_at shadow, sr_error = [],
          sr_add = sort (map fst add), sr_remove = sort (map fst rem), sr_change = sort_key cg_name ch,
          sr_added_domains = sum_list (map (\<lambda>(n, c). length (ct_domains c)) add) + sum_list (map (length \<circ> cg_added) ch),
          sr_removed_domains = sum_list (map (\<lambda>(n, c). length (ct_domains c)) rem) + sum_list (map (length \<circ> cg_removed) ch)\<rparr>)"

definition report_empty :: "shadow_report option \<Rightarrow> bool" where
  "report_empty s = (case s of
       None \<Rightarrow> False
     | Some r \<Rightarrow> sr_error r = [] \<and> sr_add r = [] \<and> sr_remove r = [] \<and> sr_change r = [])"

definition failed_report :: "string \<Rightarrow> instant \<Rightarrow> string \<Rightarrow> shadow_report" where
  "failed_report revn at' err = \<lparr>sr_revision = revn, sr_generated_at = at', sr_error = err, sr_add = [],
     sr_remove = [], sr_change = [], sr_added_domains = 0, sr_removed_domains = 0\<rparr>"

text \<open>\<open>Observer.DesiredWithReasons\<close>: the primary decides, the shadow is only compared.\<close>

definition observe :: "string + desired_result \<Rightarrow> string + desired_result \<Rightarrow> string + desired_result" where
  "observe primary shadow =
     (case primary of
        Inl e \<Rightarrow> Inl e
      | Inr res \<Rightarrow>
          (case shadow of
             Inl e \<Rightarrow> Inr (res\<lparr>re_shadow := Some (failed_report [] zero_time e)\<rparr>)
           | Inr sh \<Rightarrow>
               if re_frozen sh then Inr (res\<lparr>re_shadow := Some (failed_report (re_revision sh) (re_generated_at sh)
                 (''the shadow source is frozen on revision '' @ re_revision sh @ '': '' @ re_freeze_reason sh))\<rparr>)
               else Inr (res\<lparr>re_shadow := Some (diff_results res sh)\<rparr>)))"

section \<open>The comparison\<close>

lemma sort_key_Nil [simp]: "sort_key f xs = [] \<longleftrightarrow> xs = []"
  by (metis length_0_conv length_sort)

lemma absent_Nil: "map fst (filter (\<lambda>(n, c). n \<notin> N) xs) = [] \<longleftrightarrow> fst ` set xs \<subseteq> N"
  by (induction xs) auto

lemma keys_by_name: "distinct (map fst (by_name cs)) \<and> fst ` set (by_name cs) = ct_name ` set cs"
proof -
  have "distinct (map fst m) \<Longrightarrow> distinct (map fst (fold (\<lambda>c m. AList.update (ct_name c) c m) cs m)) \<and>
      fst ` set (fold (\<lambda>c m. AList.update (ct_name c) c m) cs m) = fst ` set m \<union> ct_name ` set cs" for m
    by (induction cs arbitrary: m) (auto simp: distinct_update dom_update)
  then show ?thesis unfolding by_name_def by simp
qed

lemma find_cert_None: "find_cert n cs = None \<longleftrightarrow> n \<notin> ct_name ` set cs"
  by (auto simp: find_cert_def find_None_iff)

lemma map_of_by_name: "distinct (map ct_name cs) \<Longrightarrow> map_of (by_name cs) n = find_cert n cs"
proof -
  have "distinct (map ct_name cs) \<Longrightarrow> map_of (fold (\<lambda>c m. AList.update (ct_name c) c m) cs m) n =
      (case find_cert n cs of Some c \<Rightarrow> Some c | None \<Rightarrow> map_of m n)" for m
  proof (induction cs arbitrary: m)
    case (Cons c cs)
    have "find_cert (ct_name c) cs = None"
      using Cons.prems by (simp add: find_cert_None)
    then show ?case
      using Cons by (auto simp: find_cert_def update_conv split: option.split)
  qed (simp add: find_cert_def)
  then show "distinct (map ct_name cs) \<Longrightarrow> map_of (by_name cs) n = find_cert n cs"
    unfolding by_name_def by (auto split: option.split)
qed

lemma mem_by_name: "distinct (map ct_name cs) \<Longrightarrow> (n, c) \<in> set (by_name cs) \<longleftrightarrow> find_cert n cs = Some c"
  using map_of_by_name [of cs n] keys_by_name [of cs] by (metis map_of_eq_Some_iff)

lemma only_in_Nil: "only_in a b = [] \<longleftrightarrow> set a \<subseteq> set b"
proof -
  have "only_in a b = [] \<longleftrightarrow> set (only_in a b) = {}" by simp
  also have "\<dots> \<longleftrightarrow> set a \<subseteq> set b" by (auto simp: only_in_def)
  finally show ?thesis .
qed

text \<open>What the comparison looks at of two certificates, and of two lists.\<close>

definition same_wish :: "certificate \<Rightarrow> certificate \<Rightarrow> bool" where
  "same_wish c d \<longleftrightarrow> set (ct_domains c) = set (ct_domains d) \<and> ct_profile c = ct_profile d \<and>
     ct_key_type c = ct_key_type d \<and> do_enabled (ct_deploy c) = do_enabled (ct_deploy d) \<and>
     ct_renew_before_dur c = ct_renew_before_dur d"

definition same_desired :: "certificate list \<Rightarrow> certificate list \<Rightarrow> bool" where
  "same_desired cs ds \<longleftrightarrow> (\<forall>n. rel_option same_wish (find_cert n cs) (find_cert n ds))"

lemma diff_cert_None: "diff_cert c d = None \<longleftrightarrow> same_wish c d"
  by (auto simp: diff_cert_def same_wish_def Let_def only_in_Nil)

lemma concat_Nil_iff: "concat xs = [] \<longleftrightarrow> (\<forall>x \<in> set xs. x = [])"
  by auto

lemma changes_Nil:
  assumes "distinct (map ct_name cur)" and "distinct (map ct_name want)"
  shows "changes (by_name cur) (by_name want) = [] \<longleftrightarrow>
    (\<forall>n c d. find_cert n cur = Some c \<longrightarrow> find_cert n want = Some d \<longrightarrow> same_wish c d)"
proof -
  have "changes (by_name cur) (by_name want) = [] \<longleftrightarrow>
      (\<forall>(n, d) \<in> set (by_name want). \<forall>c. find_cert n cur = Some c \<longrightarrow> same_wish c d)"
    by (auto simp: changes_def map_of_by_name [OF assms(1)] diff_cert_None [symmetric] split: option.splits)
  then show ?thesis using mem_by_name [OF assms(2)] by blast
qed

lemma rel_option_both:
  "rel_option R a b \<longleftrightarrow> (a = None \<longleftrightarrow> b = None) \<and> (\<forall>x y. a = Some x \<longrightarrow> b = Some y \<longrightarrow> R x y)"
  by (cases a; cases b) auto

lemma same_desired_iff:
  "same_desired cs ds \<longleftrightarrow> ct_name ` set cs = ct_name ` set ds \<and>
     (\<forall>n c d. find_cert n cs = Some c \<longrightarrow> find_cert n ds = Some d \<longrightarrow> same_wish c d)"
proof -
  have "ct_name ` set cs = ct_name ` set ds \<longleftrightarrow> (\<forall>n. find_cert n cs = None \<longleftrightarrow> find_cert n ds = None)"
    unfolding find_cert_None by blast
  then show ?thesis unfolding same_desired_def rel_option_both by metis
qed


section \<open>The fingerprint\<close>

lemma sort_by_name:
  assumes "distinct (map ct_name cs)"
  shows "sort_key ct_name cs = map (\<lambda>n. the (find_cert n cs)) (sort (map ct_name cs))"
proof -
  have "sort (map ct_name cs) = map ct_name (sort_key ct_name cs)"
    using assms by (intro sorted_distinct_set_unique) (simp_all add: distinct_map)
  moreover have "find_cert (ct_name c) cs = Some c" if "c \<in> set cs" for c
    using that assms by (induction cs) (auto simp: find_cert_def)
  then have "map (\<lambda>c. the (find_cert (ct_name c) cs)) (sort_key ct_name cs) = sort_key ct_name cs"
    by (intro map_idI) simp
  ultimately show ?thesis by (simp add: comp_def)
qed

lemma same_fingerprint:
  assumes "certificate_ok L c" and "certificate_ok L d" and "same_wish c d" and "ct_name c = ct_name d"
  shows "fingerprint_of fl c = fingerprint_of fl d"
proof -
  have "sort (ct_domains c) = sort (ct_domains d)"
    using assms by (intro sorted_distinct_set_unique) (simp_all add: certificate_ok_def same_wish_def)
  moreover have "effective_renew_before fl c = effective_renew_before fl d"
    using assms by (simp add: effective_renew_before_def certificate_ok_def same_wish_def)
  ultimately show ?thesis using assms(3,4) by (simp add: fingerprint_of_def same_wish_def)
qed

lemma find_cert_mem: "find_cert n cs = Some c \<Longrightarrow> c \<in> set cs \<and> ct_name c = n"
  unfolding find_cert_def by (auto simp: find_Some_iff)

text \<open>
  The fingerprint is one of what is asked for: two accepted lists that ask for the same get the same
  revision, whatever the order of their certificates and domains and however their renewal margins
  are written.
\<close>

theorem agreeing_states_share_revision:
  assumes "normalize_certificates L fl cs = Inr cs'" and "normalize_certificates L fl ds = Inr ds'"
    and "same_desired cs' ds'"
  shows "revision fl sha cs' = revision fl sha ds'"
proof -
  note a = accepted_one_by_one [OF assms(1) [unfolded normalize_certificates_def]]
    and b = accepted_one_by_one [OF assms(2) [unfolded normalize_certificates_def]]
  have n: "ct_name ` set cs' = ct_name ` set ds'" using assms(3) same_desired_iff by blast
  have s: "sort (map ct_name cs') = sort (map ct_name ds')"
  proof (rule sorted_distinct_set_unique)
    show "distinct (sort (map ct_name cs'))" "distinct (sort (map ct_name ds'))"
      using a b by (metis distinct_sort)+
  qed (use n in simp_all)
  have "fingerprint_of fl (the (find_cert n cs')) = fingerprint_of fl (the (find_cert n ds'))"
    if "n \<in> set (sort (map ct_name ds'))" for n
  proof -
    obtain c d where f: "find_cert n cs' = Some c" "find_cert n ds' = Some d"
      using \<open>n \<in> _\<close> \<open>ct_name ` set cs' = _\<close> find_cert_None by fastforce
    moreover have "same_wish c d" using f assms(3) same_desired_iff by blast
    ultimately show ?thesis
      using same_fingerprint find_cert_mem [OF f(1)] find_cert_mem [OF f(2)] a b by fastforce
  qed
  then have "map (fingerprint_of fl) (sort_key ct_name cs') = map (fingerprint_of fl) (sort_key ct_name ds')"
    unfolding sort_by_name [OF a [THEN conjunct2, THEN conjunct1]] sort_by_name [OF b [THEN conjunct2, THEN conjunct1]] s
    by simp
  then show ?thesis by (simp add: revision_def)
qed

section \<open>What validation guarantees\<close>

lemma names_stable:
  "check_names_stable L cs = None \<longleftrightarrow> (\<forall>c \<in> set cs. check_name_stability L c = None)"
  by (induction cs) (auto split: option.split)

lemma stable_name:
  "check_name_stability L c = None \<Longrightarrow> \<exists>reg. reg \<noteq> [] \<and> ct_name c = cert_name reg \<and>
     (\<forall>d \<in> set (ct_domains c). registered_domain L d = reg \<or> registered_domain L d = []) \<and>
     (\<exists>d \<in> set (ct_domains c). registered_domain L d = reg)"
proof -
  let ?f = "filter (\<lambda>r. r \<noteq> []) (map (registered_domain L) (ct_domains c))"
  assume "check_name_stability L c = None"
  then obtain reg where r: "dedup ?f = [reg]" "ct_name c = cert_name reg"
    by (auto simp: check_name_stability_def Let_def split: list.splits if_splits)
  have "set ?f = {reg}" using r(1) by (metis list.simps(15) empty_set set_dedup)
  then have "reg \<in> registered_domain L ` set (ct_domains c)" "reg \<noteq> []"
    "\<forall>d \<in> set (ct_domains c). registered_domain L d = reg \<or> registered_domain L d = []" by auto
  then show ?thesis using r(2) by blast
qed

lemma validated:
  assumes "validate_document L fl sha now d = Inr d'"
  shows "normalize_certificates L fl (dd_certs d) = Inr (dd_certs d') \<and> dd_certs d \<noteq> [] \<and>
    check_names_stable L (dd_certs d') = None \<and> dd_revision d' = revision fl sha (dd_certs d') \<and>
    time_sub (dd_generated_at d) now \<le> max_generated_at_skew \<and> dd_generated_at d \<noteq> zero_time \<and>
    dd_generated_at d' = dd_generated_at d \<and> dd_api_version d = ''wecert/v1'' \<and> dd_kind d = ''DesiredState''"
  using assms by (auto simp: validate_document_def Let_def split: if_splits sum.splits option.splits)

text \<open>
  A document that passes validation names at least one certificate; each certificate's name is the
  one derived from the registered domain that all its names share, so that it cannot move when a
  name is added or removed, and no two certificates share a registered domain; the revision is the
  fingerprint of the certificates, and the date lies at most an hour ahead of the clock.
\<close>

theorem validated_documents_are_stable:
  assumes "validate_document L fl sha now d = Inr d'"
  shows "dd_certs d' \<noteq> [] \<and> dd_revision d' = revision fl sha (dd_certs d') \<and>
    dd_generated_at d' \<le> now + max_generated_at_skew \<and>
    (\<forall>c \<in> set (dd_certs d'). certificate_ok L c \<and> (\<exists>reg. ct_name c = cert_name reg \<and>
       (\<forall>d \<in> set (ct_domains c). registered_domain L d = reg \<or> registered_domain L d = []))) \<and>
    (\<forall>c \<in> set (dd_certs d'). \<forall>e \<in> set (dd_certs d'). \<forall>x \<in> set (ct_domains c). \<forall>y \<in> set (ct_domains e).
       registered_domain L x = registered_domain L y \<longrightarrow> registered_domain L x \<noteq> [] \<longrightarrow> c = e)"
proof -
  note v = validated [OF assms]
  note a = accepted_one_by_one [OF v [THEN conjunct1, unfolded normalize_certificates_def]]
  have st: "\<exists>reg. ct_name c = cert_name reg \<and>
      (\<forall>d \<in> set (ct_domains c). registered_domain L d = reg \<or> registered_domain L d = [])" if "c \<in> set (dd_certs d')" for c
  proof -
    have "check_name_stability L c = None" using v that names_stable by blast
    from stable_name [OF this] show ?thesis by blast
  qed
  have eq: "c = e" if "c \<in> set (dd_certs d')" "e \<in> set (dd_certs d')" "x \<in> set (ct_domains c)" "y \<in> set (ct_domains e)"
      "registered_domain L x = registered_domain L y" "registered_domain L x \<noteq> []" for c e x y
  proof -
    have "ct_name c = ct_name e" using st [OF that(1)] st [OF that(2)] that(3-) by metis
    moreover have "inj_on ct_name (set (dd_certs d'))" using a by (simp add: distinct_map)
    ultimately show ?thesis using that(1,2) by (metis inj_onD)
  qed
  show ?thesis
  proof (intro conjI ballI impI)
    show "dd_certs d' \<noteq> []" using v a by (metis list.map_disc_iff)
    show "dd_revision d' = revision fl sha (dd_certs d')" using v by blast
    show "dd_generated_at d' \<le> now + max_generated_at_skew"
      using v by (auto simp: time_sub_def max_generated_at_skew_def ns_hour_def)
    fix c assume c: "c \<in> set (dd_certs d')"
    show "certificate_ok L c" using a c by blast
    show "\<exists>reg. ct_name c = cert_name reg \<and>
      (\<forall>d \<in> set (ct_domains c). registered_domain L d = reg \<or> registered_domain L d = [])" by (rule st [OF c])
  qed (rule eq)
qed


section \<open>Freezing on the last good document\<close>

definition trusted_read :: "doc_read \<Rightarrow> bool" where
  "trusted_read r \<longleftrightarrow> rd_open r = Opened \<and>
     (\<exists>fi. rd_file r = Inr fi \<and> fi_regular fi \<and> fi_perm fi AND 18 = 0 \<and> fi_uid fi \<in> {None, Some (rd_euid r)}) \<and>
     (\<exists>fi. rd_dir r = Inr fi \<and> fi_perm fi AND 18 = 0 \<and> fi_uid fi \<in> {None, Some 0, Some (rd_euid r)})"

lemma loaded_document:
  assumes "load_document L fl sha now r = Inr d"
  shows "trusted_read r \<and> (\<exists>d0 rest. rd_decode r = Inr (d0, rest) \<and> rest = replicate (length rest) (Inr True) \<and>
    validate_document L fl sha now d0 = Inr d)"
proof -
  have e: "reject_extra_documents xs = None \<Longrightarrow> xs = replicate (length xs) (Inr True)" for xs
    by (induction xs) (auto split: sum.splits if_splits)
  have t: "trusted_read r" and p: "parse_document L fl sha now r = Inr d"
    using assms by (auto simp: load_document_def trusted_read_def check_document_owner_def check_document_dir_def
      check_document_dir_owner_def split: open_answer.splits sum.splits if_splits option.splits)
  obtain d0 rest where "rd_decode r = Inr (d0, rest)" "reject_extra_documents rest = None"
    "map_sum Rejected id (validate_document L fl sha now d0) = Inr d"
    using p by (auto simp: parse_document_def split: sum.splits if_splits option.splits)
  then show ?thesis using t e by (cases "validate_document L fl sha now d0") auto
qed

definition last_good :: "desired_document \<Rightarrow> (load_error + desired_document) list \<Rightarrow> desired_document" where
  "last_good d ls = fold (\<lambda>l d. case l of Inr d' \<Rightarrow> d' | Inl _ \<Rightarrow> d) ls d"

lemma file_run_answers:
  "i < length ls \<Longrightarrow> file_run show (Some d) ls ! i = Inr (document_result (last_good d (take (Suc i) ls))
     (isl (ls ! i)) (case ls ! i of Inl e \<Rightarrow> show e | Inr _ \<Rightarrow> []))"
proof (induction ls arbitrary: d i)
  case (Cons l ls)
  show ?case
  proof (cases i)
    case 0
    then show ?thesis by (cases l) (simp_all add: file_desired_def last_good_def)
  next
    case (Suc j)
    then show ?thesis
      using Cons.IH [of j] Cons.prems by (cases l) (simp_all add: file_desired_def last_good_def)
  qed
qed simp

lemma length_file_run [simp]: "length (file_run show d ls) = length ls"
  by (induction ls arbitrary: d) (simp_all add: case_prod_beta)

lemma last_good_cases: "last_good d ls = d \<or> Inr (last_good d ls) \<in> set ls"
  by (induction ls arbitrary: d) (auto simp: last_good_def split: sum.split)

text \<open>
  C24. Once the document source exists, no failed read ever empties or fails the desired state: every
  answer carries the certificates of the last document that could be read, which is one that was
  valid and, if read later, trusted; and the answer says that it is frozen exactly when the read of
  that pass failed.
\<close>

theorem unreadable_document_freezes:
  assumes "load_document L fl sha t0 r0 = Inr d0" and "i < length reads"
  shows "let loads = map (\<lambda>(t, r). load_document L fl sha t r) reads; d = last_good d0 (take (Suc i) loads) in
    file_run show (Some d0) loads ! i = Inr (document_result d (isl (loads ! i))
      (case loads ! i of Inl e \<Rightarrow> show e | Inr _ \<Rightarrow> [])) \<and>
    dd_certs d \<noteq> [] \<and> (\<exists>t r d1. (t, r) \<in> insert (t0, r0) (set reads) \<and> trusted_read r \<and>
      validate_document L fl sha t d1 = Inr d)"
proof -
  define loads where "loads = map (\<lambda>(t, r). load_document L fl sha t r) reads"
  define d where "d = last_good d0 (take (Suc i) loads)"
  have "d = d0 \<or> Inr d \<in> set loads" using last_good_cases [of d0 "take (Suc i) loads"] set_take_subset unfolding d_def by fast
  then obtain t r where tr: "(t, r) \<in> insert (t0, r0) (set reads)" "load_document L fl sha t r = Inr d"
    using assms(1) unfolding loads_def by auto metis
  then obtain d1 where d1: "trusted_read r" "validate_document L fl sha t d1 = Inr d" using loaded_document [OF tr(2)] by blast
  note v = validated [OF d1(2)]
  have "dd_certs d \<noteq> []"
    using v accepted_one_by_one [OF v [THEN conjunct1, unfolded normalize_certificates_def]] by (metis list.map_disc_iff)
  then show ?thesis
    using file_run_answers [of i loads "show" d0] tr(1) d1 assms(2)
    unfolding Let_def loads_def [symmetric] d_def [symmetric] by (auto simp: loads_def)
qed

section \<open>Witnesses\<close>

definition sample_sha :: "string \<Rightarrow> nat list" where
  "sample_sha s = [length s mod 256, 17]"

definition sample_document :: desired_document where
  "sample_document = \<lparr>dd_api_version = ''wecert/v1'', dd_kind = ''DesiredState'', dd_generated_at = 0,
     dd_generator = ''wecert-onboard'', dd_revision = [], dd_certs = [sample_certificate]\<rparr>"

definition sample_normalized :: certificate where
  "sample_normalized = sample_certificate\<lparr>ct_domains := [''www.example.com'', ''example.com''],
     ct_profile := ''classic'', ct_key_type := ''ecdsa-p256'', ct_renew_before_dur := 2592000000000000\<rparr>"

lemma sample_stable: "check_names_stable acme_lib [sample_normalized] = None"
  by code_simp

lemma sample_valid:
  "validate_document acme_lib (\<lambda>x. x) sample_sha 0 sample_document = Inr (sample_document\<lparr>dd_certs := [sample_normalized],
     dd_revision := revision (\<lambda>x. x) sample_sha [sample_normalized]\<rparr>)"
  using sample_stable sample_accepted unfolding sample_normalized_def [symmetric]
  by (simp add: validate_document_def sample_document_def zero_time_def time_sub_def max_generated_at_skew_def
    ns_hour_def Let_def)

definition sample_read :: doc_read where
  "sample_read = \<lparr>rd_open = Opened, rd_file = Inr \<lparr>fi_regular = True, fi_perm = 420, fi_uid = None\<rparr>,
     rd_dir = Inr \<lparr>fi_regular = False, fi_perm = 448, fi_uid = Some 0\<rparr>, rd_euid = 1000,
     rd_bytes = Inr [], rd_decode = Inr (sample_document, [])\<rparr>"

lemma sample_loads:
  "load_document acme_lib (\<lambda>x. x) sample_sha 0 sample_read = Inr (sample_document\<lparr>dd_certs := [sample_normalized],
     dd_revision := revision (\<lambda>x. x) sample_sha [sample_normalized]\<rparr>)"
  by (simp add: load_document_def sample_read_def check_document_owner_def check_document_dir_def
    check_document_dir_owner_def parse_document_def sample_valid)


definition sample_respelled :: certificate where
  "sample_respelled = sample_normalized\<lparr>ct_domains := [''example.com'', ''www.example.com''], ct_renew_before := ''43200m''\<rparr>"

lemma respelled_accepted:
  "normalize_certificates acme_lib (\<lambda>x. x)
     [sample_certificate\<lparr>ct_domains := [''EXAMPLE.com'', ''www.example.com''], ct_renew_before := ''43200m''\<rparr>]
   = Inr [sample_respelled]"
  by code_simp

theorem agreeing_states_share_revision_witness:
  "revision (\<lambda>x. x) sample_sha [sample_normalized] = revision (\<lambda>x. x) sample_sha [sample_respelled]"
proof -
  have n: "normalize_certificates acme_lib (\<lambda>x. x) [sample_certificate] = Inr [sample_normalized]"
    using sample_accepted by (simp add: sample_normalized_def)
  have "same_wish sample_normalized sample_respelled" "ct_name sample_normalized = ct_name sample_respelled"
    by (auto simp: same_wish_def sample_normalized_def sample_respelled_def)
  then have "same_desired [sample_normalized] [sample_respelled]"
    by (auto simp: same_desired_def find_cert_def)
  from agreeing_states_share_revision [OF n respelled_accepted this] show ?thesis .
qed

theorem validated_documents_are_stable_witness:
  "certificate_ok acme_lib sample_normalized"
  using validated_documents_are_stable [OF sample_valid] by simp


theorem unreadable_document_freezes_witness:
  "re_frozen (projr (file_run (\<lambda>_. ''gone'') (Some (sample_document\<lparr>dd_certs := [sample_normalized],
     dd_revision := revision (\<lambda>x. x) sample_sha [sample_normalized]\<rparr>))
     [load_document acme_lib (\<lambda>x. x) sample_sha 1 (sample_read\<lparr>rd_open := SymlinkRefused\<rparr>)] ! 0))"
  using unreadable_document_freezes [OF sample_loads, of 0 "[(1, sample_read\<lparr>rd_open := SymlinkRefused\<rparr>)]" "\<lambda>_. ''gone''"]
  by (simp add: Let_def load_document_def document_result_def)

end
