(* ===== verification/Settings.thy ===== *)
theory Settings
  imports Certs
begin

text \<open>
  The process configuration (\<open>internal/config\<close>): its sections as records and their normalisation in
  the code's order (\<open>normalize.go\<close> and the section files), the checks of contact addresses and
  resolver addresses (\<open>domain.go\<close>), where secrets come from (\<open>secrets.go\<close>) and the warnings at load
  (\<open>load.go\<close>). As in \<open>Certs\<close> a normaliser answers the record with its defaults or the first
  complaint.

  \<open>url.Parse\<close>, \<open>filepath.Clean\<close> and the IP functions are fields of \<open>netlib\<close>; YAML decoding is not
  modelled, a configuration is the decoded record. A \<open>float64\<close> setting is a rational, or \<open>None\<close> for
  NaN.
\<close>

record url =
  u_scheme :: string
  u_host :: string
  u_hostname :: string

record netlib =
  nl_url :: "string \<Rightarrow> url option"
  nl_is_ip :: "string \<Rightarrow> bool"
  nl_is_loopback_ip :: "string \<Rightarrow> bool"
  nl_clean :: "string \<Rightarrow> string"

section \<open>Sequences of checks\<close>

definition refuse :: "bool \<Rightarrow> config_error \<Rightarrow> config_error option" where
  "refuse b e = (if b then Some e else None)"

fun first_error :: "config_error option list \<Rightarrow> config_error option" where
  "first_error [] = None"
| "first_error (x # xs) = (case x of Some e \<Rightarrow> Some e | None \<Rightarrow> first_error xs)"

definition checked :: "config_error option list \<Rightarrow> 'a \<Rightarrow> config_error + 'a" where
  "checked es a = (case first_error es of Some e \<Rightarrow> Inl e | None \<Rightarrow> Inr a)"

definition and_then :: "'e + 'a \<Rightarrow> ('a \<Rightarrow> 'e + 'b) \<Rightarrow> 'e + 'b" where
  "and_then x f = (case x of Inl e \<Rightarrow> Inl e | Inr a \<Rightarrow> f a)"

lemma refuse_None [simp]: "refuse b e = None \<longleftrightarrow> \<not> b"
  by (simp add: refuse_def)

lemma first_error_None [simp]: "first_error es = None \<longleftrightarrow> (\<forall>e \<in> set es. e = None)"
  by (induction es) (auto split: option.split)

lemma checked_Inr [simp]: "checked es a = Inr b \<longleftrightarrow> (\<forall>e \<in> set es. e = None) \<and> b = a"
  by (auto simp: checked_def split: option.split) (metis first_error_None option.distinct(1))

lemma and_then_Inr [simp]: "and_then x f = Inr b \<longleftrightarrow> (\<exists>a. x = Inr a \<and> f a = Inr b)"
  by (simp add: and_then_def split: sum.split)

section \<open>Contact addresses\<close>

definition reserved_contact_domains :: "string list" where
  "reserved_contact_domains = [''example.com'', ''example.net'', ''example.org'', ''example.edu'']"

definition reserved_contact_tlds :: "string list" where
  "reserved_contact_tlds = [''example'', ''invalid'', ''test'', ''localhost'']"

definition after_dot :: "string \<Rightarrow> string option" where
  "after_dot s = (case dropWhile (\<lambda>c. c \<noteq> CHR ''.'') s of [] \<Rightarrow> None | _ # r \<Rightarrow> Some r)"

lemma after_dot_length: "after_dot s = Some r \<Longrightarrow> length r < length s"
proof -
  assume "after_dot s = Some r"
  then obtain c where "dropWhile (\<lambda>c. c \<noteq> CHR ''.'') s = c # r" by (auto simp: after_dot_def split: list.splits)
  then have "length s = length (takeWhile (\<lambda>c. c \<noteq> CHR ''.'') s) + length (c # r)"
    by (metis length_append takeWhile_dropWhile_id)
  then show ?thesis by simp
qed

function check_contact_domain :: "string \<Rightarrow> config_error option" where
  "check_contact_domain suf =
     (if suf = [] then None
      else if suf \<in> set reserved_contact_domains then Some (Conflict ''acme.email'' suf)
      else case after_dot suf of
          None \<Rightarrow> refuse (suf \<in> set reserved_contact_tlds) (Conflict ''acme.email'' suf)
        | Some r \<Rightarrow>
            if r \<in> set reserved_contact_tlds then Some (Conflict ''acme.email'' r)
            else check_contact_domain r)"
  by pat_completeness auto

termination
  by (relation "measure length") (auto dest: after_dot_length)

declare check_contact_domain.simps [simp del]

text \<open>\<open>strings.LastIndex\<close> of an at sign: what stands before and after it.\<close>

definition split_last :: "char \<Rightarrow> string \<Rightarrow> (string \<times> string) option" where
  "split_last c s =
     (if c \<in> set s then
        (let after = rev (takeWhile (\<lambda>x. x \<noteq> c) (rev s))
         in Some (take (length s - length after - 1) s, after))
      else None)"

definition validate_contact_email :: "string \<Rightarrow> config_error option" where
  "validate_contact_email email =
     (case split_last (CHR ''@'') email of
        None \<Rightarrow> Some (Malformed ''acme.email'' email)
      | Some (user, domain) \<Rightarrow>
          if user = [] \<or> domain = [] then Some (Malformed ''acme.email'' email)
          else check_contact_domain (to_lower (trim_suffix ''.'' domain)))"

section \<open>Host and port\<close>

text \<open>\<open>net.SplitHostPort\<close>; \<open>None\<close> is any of its errors.\<close>

definition split_host_port :: "string \<Rightarrow> (string \<times> string) option" where
  "split_host_port s =
     (case split_last (CHR '':'') s of
        None \<Rightarrow> None
      | Some (before, port) \<Rightarrow>
          if CHR ''['' \<in> set port \<or> CHR '']'' \<in> set port then None
          else if prefix ''['' s then
            (let inner = takeWhile (\<lambda>c. c \<noteq> CHR '']'') (tl s)
             in if before = ''['' @ inner @ '']'' \<and> CHR ''['' \<notin> set inner then Some (inner, port) else None)
          else if CHR '':'' \<in> set before \<or> CHR ''['' \<in> set before \<or> CHR '']'' \<in> set before then None
          else Some (before, port))"

definition join_host_port :: "string \<Rightarrow> string \<Rightarrow> string" where
  "join_host_port host port =
     (if CHR '':'' \<in> set host \<or> CHR ''%'' \<in> set host then ''['' @ host @ '']:'' @ port else host @ '':'' @ port)"

definition is_loopback_host :: "netlib \<Rightarrow> string \<Rightarrow> bool" where
  "is_loopback_host N host \<longleftrightarrow> host = ''localhost'' \<or> nl_is_ip N host \<and> nl_is_loopback_ip N host"

text \<open>\<open>strconv.ParseUint(s, 10, 16)\<close>.\<close>

definition parse_uint16 :: "string \<Rightarrow> int option" where
  "parse_uint16 s =
     (if s = [] \<or> \<not> list_all digit s then None
      else let n = foldl (\<lambda>n c. n * 10 + digit_value c) 0 s in if n < 65536 then Some n else None)"

definition split_resolver_address :: "netlib \<Rightarrow> string \<Rightarrow> config_error + string \<times> string" where
  "split_resolver_address N v =
     (if nl_is_ip N v then Inr (v, [])
      else case split_host_port v of
          Some (host, port) \<Rightarrow> checked [refuse (host = [] \<or> port = []) (Malformed ''dns.recursiveNameservers'' v)] (host, port)
        | None \<Rightarrow> checked [refuse (CHR '':'' \<in> set v) (Malformed ''dns.recursiveNameservers'' v)] (v, []))"

definition resolver_address :: "netlib \<Rightarrow> string \<Rightarrow> config_error + string" where
  "resolver_address N raw =
     (let v = trim_space raw; field = ''dns.recursiveNameservers''
      in if v = [] then Inl (EmptyEntry field)
         else and_then (split_resolver_address N v) (\<lambda>(host, port).
           let port = or_default ''53'' port
           in checked [refuse (\<not> nl_is_ip N host) (Malformed field raw),
                refuse (parse_uint16 port \<in> {None, Some 0}) (Malformed field raw)] (join_host_port host port)))"

fun normalize_nameservers :: "netlib \<Rightarrow> string list \<Rightarrow> string list \<Rightarrow> config_error + string list" where
  "normalize_nameservers N seen [] = Inr []"
| "normalize_nameservers N seen (raw # rest) =
     and_then (resolver_address N raw) (\<lambda>addr.
       if addr \<in> set seen then normalize_nameservers N seen rest
       else and_then (normalize_nameservers N (addr # seen) rest) (\<lambda>out. Inr (addr # out)))"

fun normalize_list :: "string \<Rightarrow> string list \<Rightarrow> string list \<Rightarrow> config_error + string list" where
  "normalize_list field seen [] = Inr []"
| "normalize_list field seen (raw # rest) =
     (let v = canonical raw
      in if v = [] then Inl (EmptyEntry field)
         else if v \<in> set seen then normalize_list field seen rest
         else and_then (normalize_list field (v # seen) rest) (\<lambda>out. Inr (v # out)))"

section \<open>The sections of the configuration\<close>

record acme_settings =
  as_directory :: string
  as_fallback_directories :: "string list"
  as_email :: string
  as_eab_kid :: string
  as_eab_hmac :: string
  as_eab_hmac_file :: string

record dns_settings =
  ds_provider :: string
  ds_lego_provider :: string
  ds_login_token :: string
  ds_login_token_file :: string
  ds_cf_token :: string
  ds_cf_token_file :: string
  ds_r53_region :: string
  ds_r53_hosted_zone :: string
  ds_r53_access_key :: string
  ds_r53_secret_key :: string
  ds_r53_secret_key_file :: string
  ds_r53_session_token :: string
  ds_r53_session_token_file :: string
  ds_ttl :: int
  ds_propagation_timeout :: string
  ds_polling_interval :: string
  ds_nameservers :: "string list"
  ds_propagation :: duration
  ds_polling :: duration

record tencent_settings =
  tn_credential_mode :: string
  tn_secret_id :: string
  tn_secret_key :: string
  tn_secret_id_file :: string
  tn_secret_key_file :: string
  tn_role_name :: string
  tn_resource_types :: "string list"
  tn_regions :: "string list"

record nginx_settings =
  ng_dir_template :: string
  ng_cert_file :: string
  ng_key_file :: string
  ng_reload :: "string list option"

record webhook_settings =
  wh_listen :: string
  wh_token :: string
  wh_token_file :: string
  wh_notify_url :: string
  wh_notify_secret :: string
  wh_notify_secret_file :: string
  wh_admin_token :: string
  wh_notify_format :: string
  wh_pd_key :: string
  wh_pd_key_file :: string
  wh_jira_url :: string
  wh_jira_project :: string
  wh_jira_issue_type :: string
  wh_jira_email :: string
  wh_jira_token :: string
  wh_jira_token_file :: string
  wh_jira_auth :: string
  wh_jira_reuse :: "bool option"

record desired_settings =
  dz_mode :: string
  dz_path :: string
  dz_max_staleness :: string
  dz_max_staleness_dur :: duration

record backup_settings =
  bk_enabled :: "bool option"
  bk_interval :: string
  bk_keep :: int
  bk_dir :: string
  bk_local_dirs :: "string list"
  bk_targets :: "backup_target list"
  bk_interval_dur :: duration

record probe_settings =
  ps_enabled :: "bool option"
  ps_port :: int
  ps_timeout :: string
  ps_max_hosts :: "int option"
  ps_require_trusted :: "bool option"
  ps_min_valid_for :: string
  ps_timeout_dur :: duration
  ps_min_valid_dur :: duration

record onboarding_settings =
  ob_require_clb_rule :: "bool option"
  ob_max_names :: int
  ob_profile :: string
  ob_key_type :: string
  ob_deploy :: "bool option"
  ob_grace_period :: string
  ob_budget :: int
  ob_budget_window :: string
  ob_drop_threshold :: "rat option"
  ob_grace_dur :: duration
  ob_budget_dur :: duration

record config =
  cf_state_path :: string
  cf_key_file :: string
  cf_key :: string
  cf_acme :: acme_settings
  cf_dns :: dns_settings
  cf_tencent :: tencent_settings
  cf_deploy_target :: string
  cf_nginx :: nginx_settings
  cf_metrics_listen :: string
  cf_webhook :: webhook_settings
  cf_desired :: desired_settings
  cf_onboarding :: onboarding_settings
  cf_probe :: probe_settings
  cf_backup :: backup_settings
  cf_fallback :: fallback_settings
  cf_certs :: "certificate list"

section \<open>The root and the ACME directories\<close>

definition validate_acme_directory :: "netlib \<Rightarrow> string \<Rightarrow> config_error option" where
  "validate_acme_directory N d =
     (case nl_url N d of
        None \<Rightarrow> Some (Malformed ''acme.directory'' d)
      | Some u \<Rightarrow>
          if u_host u = [] \<or> u_scheme u \<noteq> ''https'' \<and> u_scheme u \<noteq> ''http'' then Some (Malformed ''acme.directory'' d)
          else refuse (u_scheme u = ''http'' \<and> \<not> is_loopback_host N (u_hostname u)) (Malformed ''acme.directory'' d))"

fun normalize_directories :: "netlib \<Rightarrow> string list \<Rightarrow> string list \<Rightarrow> config_error + string list" where
  "normalize_directories N seen [] = Inr []"
| "normalize_directories N seen (raw # rest) =
     (let d = trim_space raw; field = ''acme.fallbackDirectories''
      in if d = [] then Inl (EmptyEntry field)
         else if (case nl_url N d of None \<Rightarrow> True | Some u \<Rightarrow> u_scheme u \<noteq> ''https'' \<or> u_host u = []) then
           Inl (Malformed field d)
         else if d \<in> set seen then Inl (DuplicateEntry field d)
         else and_then (normalize_directories N (d # seen) rest) (\<lambda>out. Inr (d # out)))"

definition normalize_root :: "netlib \<Rightarrow> config \<Rightarrow> config_error + config" where
  "normalize_root N c =
     (let a = cf_acme c
      in and_then (checked [refuse (cf_state_path c = []) (Missing ''statePath''),
           refuse (as_directory a = []) (Missing ''acme.directory''),
           validate_acme_directory N (as_directory a)] ()) (\<lambda>_.
         and_then (normalize_directories N [as_directory a] (as_fallback_directories a)) (\<lambda>ds.
         checked [refuse (as_email a = []) (Missing ''acme.email''),
           refuse ((as_eab_kid a = []) \<noteq> (as_eab_hmac a = [])) (Conflict ''acme.eab.kid'' ''acme.eab.hmac''),
           validate_contact_email (as_email a)] (c\<lparr>cf_acme := a\<lparr>as_fallback_directories := ds\<rparr>\<rparr>))))"

section \<open>DNS\<close>

definition cloudflare_configured :: "dns_settings \<Rightarrow> bool" where
  "cloudflare_configured d \<longleftrightarrow> ds_cf_token d \<noteq> [] \<or> ds_cf_token_file d \<noteq> []"

definition route53_configured :: "dns_settings \<Rightarrow> bool" where
  "route53_configured d \<longleftrightarrow> ds_r53_region d \<noteq> [] \<or> ds_r53_hosted_zone d \<noteq> [] \<or> ds_r53_access_key d \<noteq> [] \<or>
     ds_r53_secret_key d \<noteq> [] \<or> ds_r53_secret_key_file d \<noteq> [] \<or> ds_r53_session_token d \<noteq> [] \<or>
     ds_r53_session_token_file d \<noteq> []"

definition cloudflare_min_ttl :: int where "cloudflare_min_ttl = 120"

text \<open>\<open>lego\<close> says whether the binary was built with the registry of providers.\<close>

definition check_dns_provider :: "bool \<Rightarrow> dns_settings \<Rightarrow> config_error option list" where
  "check_dns_provider lego d =
     (let p = ds_provider d in
      [refuse (p \<notin> {''dnspod'', ''tencentcloud'', ''cloudflare'', ''route53'', ''lego''}) (Unknown ''dns.provider'' p),
       refuse (p = ''lego'' \<and> ds_lego_provider d = []) (Missing ''dns.legoProvider''),
       refuse (p = ''lego'' \<and> \<not> lego) (Unknown ''dns.provider'' p),
       refuse (p \<noteq> ''lego'' \<and> ds_lego_provider d \<noteq> []) (Conflict ''dns.legoProvider'' p),
       refuse (p \<noteq> ''cloudflare'' \<and> cloudflare_configured d) (Conflict ''dns.cloudflare'' p),
       refuse (p \<noteq> ''route53'' \<and> route53_configured d) (Conflict ''dns.route53'' p),
       refuse (p = ''dnspod'' \<and> ds_login_token d = []) (Missing ''dns.loginToken''),
       refuse (p = ''cloudflare'' \<and> ds_cf_token d = []) (Missing ''dns.cloudflare.apiToken''),
       refuse (p = ''route53'' \<and> ds_r53_region d = []) (Missing ''dns.route53.region''),
       refuse (p = ''route53'' \<and> ds_r53_access_key d \<noteq> [] \<and> ds_r53_secret_key d = [])
         (Missing ''dns.route53.secretAccessKey''),
       refuse (p = ''route53'' \<and> ds_r53_access_key d = [] \<and> ds_r53_secret_key d \<noteq> [])
         (Missing ''dns.route53.accessKeyId''),
       refuse (p = ''route53'' \<and> ds_r53_session_token d \<noteq> [] \<and> ds_r53_access_key d = [])
         (Missing ''dns.route53.accessKeyId'')])"

definition normalize_dns ::
  "netlib \<Rightarrow> (rat \<Rightarrow> rat) \<Rightarrow> bool \<Rightarrow> dns_settings \<Rightarrow> config_error + dns_settings" where
  "normalize_dns N fl lego d0 =
     (let d = d0\<lparr>ds_provider := or_default ''dnspod'' (ds_provider d0)\<rparr>
      in and_then (checked (check_dns_provider lego d) ()) (\<lambda>_.
         and_then (parse_duration fl (ds_propagation_timeout d) (5 * ns_minute) ''dns.propagationTimeout'') (\<lambda>pr.
         and_then (parse_duration fl (ds_polling_interval d) (5 * ns_second) ''dns.pollingInterval'') (\<lambda>po.
           let ttl = (if ds_ttl d = 0 then 600 else ds_ttl d)
           in and_then (checked [refuse (po < ns_second) (BelowMinimum ''dns.pollingInterval''),
                refuse (pr < 30 * ns_second) (BelowMinimum ''dns.propagationTimeout''),
                refuse (po \<ge> pr) (Conflict ''dns.pollingInterval'' ''dns.propagationTimeout''),
                refuse (ttl < 0) (Negative ''dns.ttl''),
                refuse (ds_provider d = ''cloudflare'' \<and> ttl < cloudflare_min_ttl) (BelowMinimum ''dns.ttl'')] ()) (\<lambda>_.
              and_then (normalize_nameservers N [] (ds_nameservers d)) (\<lambda>ns.
              Inr (d\<lparr>ds_propagation := pr, ds_polling := po, ds_ttl := ttl, ds_nameservers := ns\<rparr>)))))))"

section \<open>Tencent Cloud\<close>

definition normalize_tencent :: "tencent_settings \<Rightarrow> config_error + tencent_settings" where
  "normalize_tencent t0 =
     (let t = t0\<lparr>tn_credential_mode := or_default ''cvm-role'' (tn_credential_mode t0),
        tn_resource_types := (if tn_resource_types t0 = [] then [''clb''] else tn_resource_types t0)\<rparr>
      in and_then (checked
           [refuse (tn_credential_mode t \<notin> {''static'', ''cvm-role''}) (Unknown ''tencent.credentialMode'' (tn_credential_mode t)),
            refuse (tn_credential_mode t = ''cvm-role'' \<and> tn_role_name t = []) (Missing ''tencent.roleName''),
            refuse (tn_regions t = []) (Missing ''tencent.regions'')] ()) (\<lambda>_.
         and_then (normalize_list ''tencent.regions'' [] (tn_regions t)) (\<lambda>rs.
         and_then (normalize_list ''tencent.resourceTypes'' [] (tn_resource_types t)) (\<lambda>ts.
         Inr (t\<lparr>tn_regions := rs, tn_resource_types := ts\<rparr>)))))"
section \<open>The deploy target\<close>

definition nginx_mentioned :: "nginx_settings \<Rightarrow> bool" where
  "nginx_mentioned n \<longleftrightarrow> ng_dir_template n \<noteq> [] \<or> ng_cert_file n \<noteq> [] \<or> ng_key_file n \<noteq> [] \<or>
     (case ng_reload n of None \<Rightarrow> False | Some r \<Rightarrow> r \<noteq> [])"

definition normalize_nginx :: "nginx_settings \<Rightarrow> config_error + nginx_settings" where
  "normalize_nginx n0 =
     (let n = n0\<lparr>ng_dir_template := or_default ''/etc/nginx/ssl/%s'' (ng_dir_template n0),
        ng_cert_file := or_default ''fullchain.pem'' (ng_cert_file n0),
        ng_key_file := or_default ''privkey.pem'' (ng_key_file n0),
        ng_reload := Some (case ng_reload n0 of None \<Rightarrow> [''systemctl'', ''reload'', ''nginx''] | Some r \<Rightarrow> r)\<rparr>
      in checked [refuse (ng_cert_file n = ng_key_file n) (Conflict ''nginx.certFile'' ''nginx.keyFile''),
           refuse (\<not> contains (ng_dir_template n) ''%s'') (Malformed ''nginx.dirTemplate'' (ng_dir_template n)),
           refuse (list_ex (\<lambda>a. trim_space a = []) (the (ng_reload n))) (EmptyEntry ''nginx.reload'')] n)"

definition check_cert_target :: "string \<Rightarrow> certificate \<Rightarrow> config_error option" where
  "check_cert_target target c =
     (let t = do_target (ct_deploy c)
      in if t = [] then None
         else if t \<notin> {''tencent'', ''nginx''} then Some (InCertificate (ct_name c) (Unknown ''deploy.target'' t))
         else if t \<noteq> target then Some (InCertificate (ct_name c) (Conflict ''deploy.target'' target))
         else refuse (do_nginx_dir (ct_deploy c) \<notin> {None, Some []} \<and> t \<noteq> ''nginx'')
           (InCertificate (ct_name c) (Conflict ''deploy.nginx.dir'' t)))"

definition normalize_deploy_target :: "config \<Rightarrow> config_error + config" where
  "normalize_deploy_target c =
     (let target = or_default ''tencent'' (cf_deploy_target c)
      in if target \<notin> {''tencent'', ''nginx''} then Inl (Unknown ''deploy.target'' target)
         else and_then (if target = ''nginx'' \<or> nginx_mentioned (cf_nginx c) then normalize_nginx (cf_nginx c)
             else Inr (cf_nginx c)) (\<lambda>n.
           checked (map (check_cert_target target) (cf_certs c) @
               [refuse (target \<noteq> ''nginx'' \<and> nginx_mentioned n) (Conflict ''nginx'' target)])
             (c\<lparr>cf_deploy_target := target, cf_nginx := n\<rparr>)))"

section \<open>The webhook server\<close>

definition notify_formats :: "string list" where
  "notify_formats = [''generic'', ''pagerduty'', ''feishu'', ''wecom'', ''dingtalk'', ''slack'', ''jira'']"

definition http_url :: "netlib \<Rightarrow> string \<Rightarrow> bool" where
  "http_url N s = (case nl_url N s of None \<Rightarrow> False
     | Some u \<Rightarrow> (u_scheme u = ''http'' \<or> u_scheme u = ''https'') \<and> u_host u \<noteq> [])"

definition check_jira :: "netlib \<Rightarrow> webhook_settings \<Rightarrow> config_error option list" where
  "check_jira N w =
     [refuse (wh_jira_url w = []) (Missing ''webhook.jira.baseURL''),
      refuse (wh_jira_project w = [] \<or> wh_jira_issue_type w = []) (Missing ''webhook.jira.projectKey''),
      refuse (wh_jira_auth w \<notin> {[], ''basic'', ''bearer''}) (Unknown ''webhook.jira.auth'' (wh_jira_auth w)),
      refuse (wh_jira_auth w \<noteq> ''bearer'' \<and>
        (wh_jira_email w = [] \<or> wh_jira_token w = [] \<and> wh_jira_token_file w = [])) (Missing ''webhook.jira.email''),
      refuse (wh_jira_auth w = ''bearer'' \<and> wh_jira_token w = [] \<and> wh_jira_token_file w = [])
        (Missing ''webhook.jira.apiToken''),
      refuse (\<not> http_url N (wh_jira_url w)) (Malformed ''webhook.jira.baseURL'' (wh_jira_url w))]"

text \<open>What is checked of the outgoing events, with or without a listen address.\<close>

definition check_notify :: "netlib \<Rightarrow> webhook_settings \<Rightarrow> config_error option list" where
  "check_notify N w =
     [refuse (wh_notify_url w \<noteq> [] \<and> \<not> http_url N (wh_notify_url w)) (Malformed ''webhook.notifyURL'' (wh_notify_url w)),
      refuse (wh_notify_secret w \<noteq> [] \<and> wh_notify_url w = []) (Missing ''webhook.notifyURL''),
      refuse (wh_notify_secret w \<noteq> [] \<and> length (wh_notify_secret w) < 32) (BelowMinimum ''webhook.notifySecret'')]"

definition normalize_webhook :: "netlib \<Rightarrow> webhook_settings \<Rightarrow> config_error + webhook_settings" where
  "normalize_webhook N w0 =
     and_then (checked (check_notify N w0) ()) (\<lambda>_.
       if wh_listen w0 = [] then checked [refuse (wh_token w0 \<noteq> []) (Conflict ''webhook.token'' ''webhook.listen'')] w0
       else
         (let w = w0\<lparr>wh_notify_format := or_default ''generic'' (wh_notify_format w0)\<rparr>;
              jira = wh_notify_format w = ''jira''
          in and_then (checked
               [refuse (split_host_port (wh_listen w) = None) (Malformed ''webhook.listen'' (wh_listen w)),
                refuse (wh_token w = []) (Missing ''webhook.token''),
                refuse (length (wh_token w) < 16) (BelowMinimum ''webhook.token''),
                refuse (wh_notify_format w \<notin> set notify_formats) (Unknown ''webhook.notifyFormat'' (wh_notify_format w)),
                refuse (wh_notify_format w = ''pagerduty'' \<and> wh_pd_key w = [] \<and> wh_pd_key_file w = [])
                  (Missing ''webhook.pagerduty.routingKey'')] ()) (\<lambda>_.
             and_then (checked (if jira then check_jira N w else []) ()) (\<lambda>_.
             checked
               [refuse (wh_admin_token w \<noteq> [] \<and> length (wh_admin_token w) < 32) (BelowMinimum ''webhook.adminToken''),
                refuse (wh_admin_token w \<noteq> [] \<and> wh_admin_token w = wh_token w) (Conflict ''webhook.adminToken'' ''webhook.token'')]
               (if jira \<and> wh_jira_reuse w = None then w\<lparr>wh_jira_reuse := Some True\<rparr> else w)))))"

definition normalize_listeners :: "netlib \<Rightarrow> config \<Rightarrow> config_error + config" where
  "normalize_listeners N c =
     (let m = or_default ''127.0.0.1:9800'' (cf_metrics_listen c)
      in if split_host_port m = None then Inl (Malformed ''metrics.listen'' m)
         else and_then (normalize_webhook N (cf_webhook c)) (\<lambda>w. Inr (c\<lparr>cf_metrics_listen := m, cf_webhook := w\<rparr>)))"

section \<open>Backups, desired state, onboarding, probing\<close>

fun normalize_local_dirs :: "netlib \<Rightarrow> string list \<Rightarrow> string list \<Rightarrow> config_error + string list" where
  "normalize_local_dirs N seen [] = Inr []"
| "normalize_local_dirs N seen (raw # rest) =
     (let d = trim_space raw
      in if d = [] then Inl (EmptyEntry ''stateBackup.localDirs'')
         else if nl_clean N d \<in> set seen then Inl (DuplicateEntry ''stateBackup.localDirs'' (nl_clean N d))
         else and_then (normalize_local_dirs N (nl_clean N d # seen) rest) (\<lambda>out. Inr (nl_clean N d # out)))"

definition normalize_backup :: "netlib \<Rightarrow> (rat \<Rightarrow> rat) \<Rightarrow> backup_settings \<Rightarrow> config_error + backup_settings" where
  "normalize_backup N fl b =
     and_then (parse_duration fl (bk_interval b) (24 * ns_hour) ''stateBackup.interval'') (\<lambda>i.
       let keep = (if bk_keep b = 0 then default_backup_keep else bk_keep b)
       in and_then (checked [refuse (i < ns_minute) (BelowMinimum ''stateBackup.interval''),
            refuse (keep < 1) (BelowMinimum ''stateBackup.keep''),
            refuse (keep > 365) (AboveMaximum ''stateBackup.keep'')] ()) (\<lambda>_.
          and_then (normalize_local_dirs N (if bk_dir b = [] then [] else [nl_clean N (bk_dir b)]) (bk_local_dirs b)) (\<lambda>ds.
          and_then (normalize_targets fl 0 (bk_targets b)) (\<lambda>ts.
          Inr (b\<lparr>bk_interval_dur := i, bk_keep := keep, bk_local_dirs := ds, bk_targets := ts\<rparr>)))))"

definition normalize_desired ::
  "(rat \<Rightarrow> rat) \<Rightarrow> bool \<Rightarrow> desired_settings \<Rightarrow> config_error + desired_settings" where
  "normalize_desired fl has_certs d =
     (let mode = or_default ''static'' (dz_mode d)
      in and_then (parse_duration fl (dz_max_staleness d) (48 * ns_hour) ''desiredState.maxStaleness'') (\<lambda>s.
         checked
           [refuse (mode \<notin> {''static'', ''observe'', ''enforce''}) (Unknown ''desiredState.mode'' mode),
            refuse (mode = ''static'' \<and> dz_path d \<noteq> []) (Conflict ''desiredState.path'' mode),
            refuse (mode \<in> {''observe'', ''enforce''} \<and> dz_path d = []) (Missing ''desiredState.path''),
            refuse (mode = ''enforce'' \<and> has_certs) (Conflict ''certificates'' mode)]
           (d\<lparr>dz_mode := mode, dz_max_staleness_dur := s\<rparr>)))"

definition normalize_onboarding :: "(rat \<Rightarrow> rat) \<Rightarrow> onboarding_settings \<Rightarrow> config_error + onboarding_settings" where
  "normalize_onboarding fl s =
     and_then (parse_duration fl (ob_grace_period s) (24 * ns_hour) ''onboarding.gracePeriod'') (\<lambda>g.
     and_then (parse_duration fl (ob_budget_window s) (7 * 24 * ns_hour) ''onboarding.budgetWindow'') (\<lambda>b.
     checked
       [refuse (case ob_drop_threshold s of None \<Rightarrow> True | Some t \<Rightarrow> t < 0 \<or> t \<ge> 1) (AboveMaximum ''onboarding.dropThreshold''),
        refuse (ob_budget s < 0) (Negative ''onboarding.budget''),
        refuse (ob_max_names s < 0) (Negative ''onboarding.maxNames''),
        refuse (ob_profile s \<noteq> [] \<and> \<not> valid_profile (ob_profile s)) (Unknown ''onboarding.profile'' (ob_profile s)),
        refuse (ob_key_type s \<noteq> [] \<and> \<not> valid_key_type (ob_key_type s)) (Unknown ''onboarding.keyType'' (ob_key_type s))]
       (s\<lparr>ob_grace_dur := g, ob_budget_dur := b\<rparr>)))"

definition min_valid_duration :: "(rat \<Rightarrow> rat) \<Rightarrow> string \<Rightarrow> duration \<Rightarrow> config_error + duration" where
  "min_valid_duration fl s old =
     (if s = [] then Inr old
      else case parse_go_duration fl s of
          None \<Rightarrow> Inl (BadDuration ''probe.minValidFor'' s)
        | Some d \<Rightarrow> if d \<le> 0 then Inl (NotPositive ''probe.minValidFor'' s) else Inr d)"

definition normalize_probe :: "(rat \<Rightarrow> rat) \<Rightarrow> probe_settings \<Rightarrow> config_error + probe_settings" where
  "normalize_probe fl p =
     and_then (parse_duration fl (ps_timeout p) (10 * ns_second) ''probe.timeout'') (\<lambda>t.
     if t < ns_second then Inl (BelowMinimum ''probe.timeout'')
     else and_then (min_valid_duration fl (ps_min_valid_for p) (ps_min_valid_dur p)) (\<lambda>m.
       let port = (if ps_port p = 0 then 443 else ps_port p)
       in checked
         [refuse (port < 1 \<or> port > 65535) (AboveMaximum ''probe.port''),
          refuse (case ps_max_hosts p of None \<Rightarrow> False | Some n \<Rightarrow> n < 0) (Negative ''probe.maxHostsPerCert'')]
         (p\<lparr>ps_timeout_dur := t, ps_min_valid_dur := m, ps_port := port\<rparr>)))"

definition normalize_subsections :: "netlib \<Rightarrow> (rat \<Rightarrow> rat) \<Rightarrow> config \<Rightarrow> config_error + config" where
  "normalize_subsections N fl c =
     and_then (normalize_backup N fl (cf_backup c)) (\<lambda>b.
     and_then (normalize_desired fl (cf_certs c \<noteq> []) (cf_desired c)) (\<lambda>d.
     and_then (normalize_onboarding fl (cf_onboarding c)) (\<lambda>s.
     and_then (normalize_probe fl (cf_probe c)) (\<lambda>p.
     and_then (normalize_fallback fl (cf_fallback c)) (\<lambda>f.
     Inr (c\<lparr>cf_backup := b, cf_desired := d, cf_onboarding := s, cf_probe := p, cf_fallback := f\<rparr>))))))"

section \<open>The whole configuration\<close>

fun check_probe_floor :: "duration \<Rightarrow> certificate list \<Rightarrow> config_error option" where
  "check_probe_floor least [] = None"
| "check_probe_floor least (c # cs) =
     (if least \<le> 0 then None
      else case profile_validity (ct_profile c) of
          None \<Rightarrow> check_probe_floor least cs
        | Some v \<Rightarrow> if least \<ge> v then Some (InCertificate (ct_name c) (AboveMaximum ''probe.minValidFor''))
            else check_probe_floor least cs)"

definition normalize_certificates_block :: "golib \<Rightarrow> (rat \<Rightarrow> rat) \<Rightarrow> config \<Rightarrow> config_error + config" where
  "normalize_certificates_block L fl c =
     (if dz_mode (cf_desired c) = ''observe'' \<and> cf_certs c = [] then Inl (Missing ''certificates'')
      else and_then (normalize_certificates L fl (cf_certs c)) (\<lambda>cs.
        checked [check_probe_floor (ps_min_valid_dur (cf_probe c)) cs] (c\<lparr>cf_certs := cs\<rparr>)))"

definition normalize_config ::
  "netlib \<Rightarrow> golib \<Rightarrow> (rat \<Rightarrow> rat) \<Rightarrow> bool \<Rightarrow> config \<Rightarrow> config_error + config" where
  "normalize_config N L fl lego c =
     and_then (normalize_root N c) (\<lambda>c.
     and_then (normalize_dns N fl lego (cf_dns c)) (\<lambda>d.
     and_then (normalize_listeners N (c\<lparr>cf_dns := d\<rparr>)) (\<lambda>c.
     and_then (normalize_tencent (cf_tencent c)) (\<lambda>t.
     and_then (normalize_deploy_target (c\<lparr>cf_tencent := t\<rparr>)) (\<lambda>c.
     and_then (normalize_subsections N fl c) (normalize_certificates_block L fl))))))"

section \<open>What each section guarantees\<close>

lemma dns_ok:
  assumes "normalize_dns N fl lego d = Inr d'"
  shows "ns_second \<le> ds_polling d' \<and> ds_polling d' < ds_propagation d' \<and> 30 * ns_second \<le> ds_propagation d' \<and>
    0 < ds_ttl d' \<and> (ds_provider d' = ''cloudflare'' \<longrightarrow> cloudflare_min_ttl \<le> ds_ttl d' \<and> ds_cf_token d' \<noteq> []) \<and>
    (ds_provider d' = ''dnspod'' \<longrightarrow> ds_login_token d' \<noteq> []) \<and>
    (cloudflare_configured d' \<longrightarrow> ds_provider d' = ''cloudflare'') \<and> (route53_configured d' \<longrightarrow> ds_provider d' = ''route53'')"
proof -
  let ?d = "d\<lparr>ds_provider := or_default ''dnspod'' (ds_provider d)\<rparr>"
  let ?ttl = "if ds_ttl d = 0 then 600 else ds_ttl d"
  have e: "ds_ttl ?d = ds_ttl d" by simp
  obtain u1 u2 pr po ns where c: "checked (check_dns_provider lego ?d) () = Inr u1"
    "checked [refuse (po < ns_second) (BelowMinimum ''dns.pollingInterval''),
       refuse (pr < 30 * ns_second) (BelowMinimum ''dns.propagationTimeout''),
       refuse (po \<ge> pr) (Conflict ''dns.pollingInterval'' ''dns.propagationTimeout''),
       refuse (?ttl < 0) (Negative ''dns.ttl''),
       refuse (ds_provider ?d = ''cloudflare'' \<and> ?ttl < cloudflare_min_ttl) (BelowMinimum ''dns.ttl'')] () = Inr u2"
    "?d\<lparr>ds_propagation := pr, ds_polling := po, ds_ttl := ?ttl, ds_nameservers := ns\<rparr> = d'"
    using assms unfolding normalize_dns_def Let_def and_then_Inr sum.inject e by blast
  have a: "\<forall>e \<in> set (check_dns_provider lego ?d). e = None"
    "\<not> po < ns_second" "\<not> pr < 30 * ns_second" "\<not> po \<ge> pr" "\<not> ?ttl < 0"
    "\<not> (ds_provider ?d = ''cloudflare'' \<and> ?ttl < cloudflare_min_ttl)"
    using c(1,2) unfolding checked_Inr by auto
  have p: "ds_provider ?d = ''cloudflare'' \<longrightarrow> ds_cf_token ?d \<noteq> []" "ds_provider ?d = ''dnspod'' \<longrightarrow> ds_login_token ?d \<noteq> []"
    "cloudflare_configured ?d \<longrightarrow> ds_provider ?d = ''cloudflare''" "route53_configured ?d \<longrightarrow> ds_provider ?d = ''route53''"
    using a(1) unfolding check_dns_provider_def Let_def by auto
  show ?thesis using a(2-6) p unfolding c(3) [symmetric] by (auto simp: cloudflare_configured_def route53_configured_def)
qed

lemma tencent_ok:
  assumes "normalize_tencent t = Inr t'"
  shows "tn_regions t' \<noteq> [] \<and> tn_credential_mode t' \<in> {''static'', ''cvm-role''} \<and>
    (tn_credential_mode t' = ''cvm-role'' \<longrightarrow> tn_role_name t' \<noteq> [])"
proof -
  have n: "rs \<noteq> [] \<Longrightarrow> normalize_list f [] rs = Inr out \<Longrightarrow> out \<noteq> []" for f rs out
    by (cases rs) (auto simp: Let_def split: if_splits)
  show ?thesis using assms n by (fastforce simp: normalize_tencent_def Let_def)
qed

lemma webhook_ok:
  assumes "normalize_webhook N w = Inr w'"
  shows "(wh_listen w' \<noteq> [] \<longrightarrow> 16 \<le> length (wh_token w') \<and> wh_notify_format w' \<in> set notify_formats \<and>
      (wh_admin_token w' \<noteq> [] \<longrightarrow> 32 \<le> length (wh_admin_token w') \<and> wh_admin_token w' \<noteq> wh_token w')) \<and>
    (wh_listen w' = [] \<longrightarrow> wh_token w' = []) \<and>
    (wh_notify_url w' \<noteq> [] \<longrightarrow> http_url N (wh_notify_url w')) \<and>
    (wh_notify_secret w' \<noteq> [] \<longrightarrow> wh_notify_url w' \<noteq> [] \<and> 32 \<le> length (wh_notify_secret w'))"
proof (cases "wh_listen w = []")
  case True
  then show ?thesis using assms by (auto simp: normalize_webhook_def check_notify_def)
next
  case False
  let ?w = "w\<lparr>wh_notify_format := or_default ''generic'' (wh_notify_format w)\<rparr>"
  have a: "w' = ?w \<or> w' = ?w\<lparr>wh_jira_reuse := Some True\<rparr>" "\<forall>e \<in> set (check_notify N w). e = None"
    "\<not> length (wh_token w) < 16" "wh_notify_format ?w \<in> set notify_formats"
    "\<not> (wh_admin_token w \<noteq> [] \<and> length (wh_admin_token w) < 32)" "\<not> (wh_admin_token w \<noteq> [] \<and> wh_admin_token w = wh_token w)"
    using assms False by (auto simp: normalize_webhook_def Let_def)
  have f: "wh_listen w' = wh_listen w" "wh_token w' = wh_token w" "wh_notify_format w' = wh_notify_format ?w"
    "wh_admin_token w' = wh_admin_token w" "wh_notify_url w' = wh_notify_url w" "wh_notify_secret w' = wh_notify_secret w"
    using a(1) by auto
  show ?thesis using a(2-) False unfolding f by (auto simp: check_notify_def)
qed

lemma desired_ok:
  assumes "normalize_desired fl h d = Inr d'"
  shows "dz_mode d' \<in> {''static'', ''observe'', ''enforce''} \<and> (dz_mode d' = ''static'' \<longleftrightarrow> dz_path d' = []) \<and>
    (dz_mode d' = ''enforce'' \<longrightarrow> \<not> h) \<and> 0 < dz_max_staleness_dur d'"
proof -
  obtain s where "parse_duration fl (dz_max_staleness d) (48 * ns_hour) ''desiredState.maxStaleness'' = Inr s"
    "d' = d\<lparr>dz_mode := or_default ''static'' (dz_mode d), dz_max_staleness_dur := s\<rparr>"
    using assms by (auto simp: normalize_desired_def Let_def)
  moreover have "0 < s" using parse_duration_positive [OF calculation(1)] by (simp add: ns_hour_def)
  ultimately show ?thesis using assms by (auto simp: normalize_desired_def Let_def)
qed

lemma target_ok:
  assumes "normalize_deploy_target c = Inr c'"
  shows "cf_deploy_target c' \<in> {''tencent'', ''nginx''} \<and>
    (\<forall>x \<in> set (cf_certs c'). do_target (ct_deploy x) \<in> {[], cf_deploy_target c'}) \<and>
    (nginx_mentioned (cf_nginx c') \<longrightarrow> cf_deploy_target c' = ''nginx'') \<and> cf_certs c' = cf_certs c"
proof -
  define t where "t = or_default ''tencent'' (cf_deploy_target c)"
  have t: "t \<in> {''tencent'', ''nginx''}"
    using assms unfolding normalize_deploy_target_def Let_def t_def [symmetric] by (simp split: if_splits)
  then obtain n where n: "checked (map (check_cert_target t) (cf_certs c) @
      [refuse (t \<noteq> ''nginx'' \<and> nginx_mentioned n) (Conflict ''nginx'' t)]) (c\<lparr>cf_deploy_target := t, cf_nginx := n\<rparr>) = Inr c'"
    using assms unfolding normalize_deploy_target_def Let_def t_def [symmetric] by (simp only: if_not_P not_not and_then_Inr) blast
  have k: "check_cert_target t x = None \<Longrightarrow> do_target (ct_deploy x) \<in> {[], t}" for x
    using t by (auto simp: check_cert_target_def Let_def split: if_splits)
  have "\<forall>x \<in> set (cf_certs c). check_cert_target t x = None" "\<not> (t \<noteq> ''nginx'' \<and> nginx_mentioned n)"
    "c' = c\<lparr>cf_deploy_target := t, cf_nginx := n\<rparr>"
    using n unfolding checked_Inr by (simp_all only: set_append set_map) auto
  then show ?thesis using t k by auto
qed

lemma probe_floor_ok:
  "check_probe_floor least cs = None \<Longrightarrow> c \<in> set cs \<Longrightarrow> profile_validity (ct_profile c) = Some v \<Longrightarrow> 0 < v \<Longrightarrow> least < v"
  by (induction cs) (auto split: if_splits option.splits)

lemma fallback_ok:
  "normalize_fallback fl f = Inr f' \<Longrightarrow> 0 < fs_before_expiry_dur f' \<and> 0 < fs_failure_window_dur f' \<and>
     0 \<le> fs_after_failures f' \<and> 0 \<le> fs_min_identifier_failures f' \<and> 0 \<le> fs_min_names f'"
  using parse_duration_positive
  by (fastforce simp: normalize_fallback_def ns_hour_def split: sum.splits if_splits)

section \<open>An accepted configuration\<close>

lemma listeners_ok:
  assumes "normalize_listeners N c = Inr c'"
  shows "cf_dns c' = cf_dns c \<and> (\<exists>w. normalize_webhook N w = Inr (cf_webhook c')) \<and> cf_certs c' = cf_certs c"
proof -
  define m where "m = or_default ''127.0.0.1:9800'' (cf_metrics_listen c)"
  obtain w where w: "normalize_webhook N (cf_webhook c) = Inr w" "c\<lparr>cf_metrics_listen := m, cf_webhook := w\<rparr> = c'"
    using assms unfolding normalize_listeners_def Let_def m_def [symmetric]
    by (cases "split_host_port m = None") (simp, simp only: if_False and_then_Inr sum.inject, blast)
  show ?thesis using w(1) unfolding w(2) [symmetric] by auto
qed

lemma target_frame:
  assumes "normalize_deploy_target c = Inr c'"
  shows "cf_dns c' = cf_dns c \<and> cf_webhook c' = cf_webhook c \<and> cf_tencent c' = cf_tencent c \<and> cf_certs c' = cf_certs c"
proof -
  have "\<exists>t n. c' = c\<lparr>cf_deploy_target := t, cf_nginx := n\<rparr>"
    using assms unfolding normalize_deploy_target_def Let_def
    by (simp only: and_then_Inr checked_Inr sum.inject split: if_splits) blast+
  then show ?thesis by auto
qed

lemma subsections_ok:
  assumes "normalize_subsections N fl c = Inr c'"
  shows "(\<exists>d. normalize_desired fl (cf_certs c \<noteq> []) d = Inr (cf_desired c')) \<and>
    (\<exists>f. normalize_fallback fl f = Inr (cf_fallback c')) \<and>
    cf_dns c' = cf_dns c \<and> cf_webhook c' = cf_webhook c \<and> cf_tencent c' = cf_tencent c \<and>
    cf_certs c' = cf_certs c \<and> cf_deploy_target c' = cf_deploy_target c \<and> cf_nginx c' = cf_nginx c"
proof -
  obtain b d s p f where x: "normalize_desired fl (cf_certs c \<noteq> []) (cf_desired c) = Inr d"
    "normalize_fallback fl (cf_fallback c) = Inr f"
    "c\<lparr>cf_backup := b, cf_desired := d, cf_onboarding := s, cf_probe := p, cf_fallback := f\<rparr> = c'"
    using assms unfolding normalize_subsections_def and_then_Inr sum.inject by blast
  show ?thesis using x(1,2) unfolding x(3) [symmetric] by auto
qed

lemma certificates_keep_deploy:
  assumes "normalize_from_certs L fl seen sets cs = Inr cs'"
  shows "map ct_deploy cs' = map ct_deploy cs"
  using assms
proof (induction L fl seen sets cs arbitrary: cs' rule: normalize_from_certs.induct)
  case (2 L fl seen sets c0 cs)
  obtain c where c: "normalize_certificate L fl seen c0 = Inr c"
    using "2.prems" by (auto split: sum.splits)
  have r: "reject_redundant_wildcards (ct_domains c) (ct_domains c) = None" "map_of sets (identity_key c) = None"
    using "2.prems" by (auto simp: c split: option.splits)
  obtain ds where ds: "normalize_from_certs L fl (ct_name c # seen) ((identity_key c, ct_name c) # sets) cs = Inr ds"
    "cs' = c # ds" using "2.prems" by (auto simp: c r split: sum.splits)
  have "ct_deploy c = ct_deploy c0"
    using c by (auto simp: normalize_certificate_def Let_def split: if_splits sum.splits dest!: normalize_renewal_ok)
  then show ?case using "2.IH" [OF c r ds(1)] by (simp add: ds(2))
qed simp

lemma block_ok:
  assumes "normalize_certificates_block L fl c = Inr c'"
  shows "(dz_mode (cf_desired c') = ''observe'' \<longrightarrow> cf_certs c' \<noteq> []) \<and> (cf_certs c' = [] \<longleftrightarrow> cf_certs c = []) \<and>
    normalize_certificates L fl (cf_certs c) = Inr (cf_certs c') \<and>
    check_probe_floor (ps_min_valid_dur (cf_probe c')) (cf_certs c') = None \<and>
    cf_dns c' = cf_dns c \<and> cf_webhook c' = cf_webhook c \<and> cf_tencent c' = cf_tencent c \<and>
    cf_desired c' = cf_desired c \<and> cf_deploy_target c' = cf_deploy_target c \<and> cf_nginx c' = cf_nginx c \<and>
    cf_fallback c' = cf_fallback c"
proof -
  obtain cs where x: "normalize_certificates L fl (cf_certs c) = Inr cs"
    "checked [check_probe_floor (ps_min_valid_dur (cf_probe c)) cs] (c\<lparr>cf_certs := cs\<rparr>) = Inr c'"
    "\<not> (dz_mode (cf_desired c) = ''observe'' \<and> cf_certs c = [])"
    using assms unfolding normalize_certificates_block_def
    by (cases "dz_mode (cf_desired c) = ''observe'' \<and> cf_certs c = []") (simp, simp only: if_False and_then_Inr, blast)
  have c': "c' = c\<lparr>cf_certs := cs\<rparr>" "check_probe_floor (ps_min_valid_dur (cf_probe c)) cs = None"
    using x(2) unfolding checked_Inr by auto
  have "cs = [] \<longleftrightarrow> cf_certs c = []"
    using accepted_one_by_one [OF x(1) [unfolded normalize_certificates_def]] by (metis list.map_disc_iff)
  then show ?thesis using x(1,3) c'(2) unfolding c'(1) by auto
qed

text \<open>
  C35. What the daemon may rely on once it has started: certificates are declared in exactly one place (in
  enforce mode the configuration holds none and names a document, in observe mode it holds some and
  names one, in static mode it names none); every one of them is well-formed, can meet the probe's
  floor, and is deployed to the one backend of the process; the trigger and the admin console are
  guarded by tokens of the required length that differ, a notification secret never stands without a
  target; the propagation wait polls at least twice in its budget, and no block of an unselected DNS
  provider or backend is silently ignored.
\<close>

theorem accepted_configuration:
  assumes "normalize_config N L fl lego c = Inr c'"
  shows "(dz_mode (cf_desired c') = ''enforce'' \<longrightarrow> cf_certs c' = [] \<and> dz_path (cf_desired c') \<noteq> []) \<and>
    (dz_mode (cf_desired c') = ''observe'' \<longrightarrow> cf_certs c' \<noteq> [] \<and> dz_path (cf_desired c') \<noteq> []) \<and>
    (dz_mode (cf_desired c') = ''static'' \<longrightarrow> dz_path (cf_desired c') = []) \<and>
    dz_mode (cf_desired c') \<in> {''static'', ''observe'', ''enforce''} \<and>
    distinct (map ct_name (cf_certs c')) \<and>
    (\<forall>x \<in> set (cf_certs c'). certificate_ok L x \<and> do_target (ct_deploy x) \<in> {[], cf_deploy_target c'} \<and>
       ps_min_valid_dur (cf_probe c') < the (profile_validity (ct_profile x))) \<and>
    (wh_listen (cf_webhook c') \<noteq> [] \<longrightarrow> 16 \<le> length (wh_token (cf_webhook c')) \<and>
       (wh_admin_token (cf_webhook c') \<noteq> [] \<longrightarrow> 32 \<le> length (wh_admin_token (cf_webhook c')) \<and>
          wh_admin_token (cf_webhook c') \<noteq> wh_token (cf_webhook c'))) \<and>
    (wh_notify_secret (cf_webhook c') \<noteq> [] \<longrightarrow> wh_notify_url (cf_webhook c') \<noteq> []) \<and>
    ns_second \<le> ds_polling (cf_dns c') \<and> ds_polling (cf_dns c') < ds_propagation (cf_dns c') \<and>
    (cloudflare_configured (cf_dns c') \<longrightarrow> ds_provider (cf_dns c') = ''cloudflare'') \<and>
    (route53_configured (cf_dns c') \<longrightarrow> ds_provider (cf_dns c') = ''route53'') \<and>
    (nginx_mentioned (cf_nginx c') \<longrightarrow> cf_deploy_target c' = ''nginx'') \<and> tn_regions (cf_tencent c') \<noteq> []"
proof -
  obtain c1 d c2 t c3 c4 where s: "normalize_dns N fl lego (cf_dns c1) = Inr d"
    "normalize_listeners N (c1\<lparr>cf_dns := d\<rparr>) = Inr c2" "normalize_tencent (cf_tencent c2) = Inr t"
    "normalize_deploy_target (c2\<lparr>cf_tencent := t\<rparr>) = Inr c3" "normalize_subsections N fl c3 = Inr c4"
    "normalize_certificates_block L fl c4 = Inr c'"
    using assms unfolding normalize_config_def and_then_Inr by blast
  note l = listeners_ok [OF s(2)] and tf = target_frame [OF s(4)] and g = target_ok [OF s(4)]
    and u = subsections_ok [OF s(5)] and b = block_ok [OF s(6)]
  have cs: "normalize_certificates L fl (cf_certs c3) = Inr (cf_certs c')" using b u by simp
  note a = accepted_certificates [OF cs]
  have dns: "cf_dns c' = d" and tn: "cf_tencent c' = t" and wh: "cf_webhook c' = cf_webhook c2"
    using l tf u b by simp_all
  have w: "\<exists>w. normalize_webhook N w = Inr (cf_webhook c')" using l wh by metis
  then obtain w0 where "normalize_webhook N w0 = Inr (cf_webhook c')" by blast
  note W = webhook_ok [OF this]
  have "\<exists>d. normalize_desired fl (cf_certs c' \<noteq> []) d = Inr (cf_desired c')" using u b by auto
  then obtain d0 where "normalize_desired fl (cf_certs c' \<noteq> []) d0 = Inr (cf_desired c')" by blast
  note D = desired_ok [OF this]
  have dep: "\<forall>x \<in> set (cf_certs c'). do_target (ct_deploy x) \<in> {[], cf_deploy_target c'}"
  proof -
    have "ct_deploy ` set (cf_certs c') = ct_deploy ` set (cf_certs c3)"
      using certificates_keep_deploy [OF cs [unfolded normalize_certificates_def]] by (metis set_map)
    have t: "cf_deploy_target c' = cf_deploy_target c3" using u b by simp
    show ?thesis
    proof
      fix x assume "x \<in> set (cf_certs c')"
      then have "ct_deploy x \<in> ct_deploy ` set (cf_certs c3)"
        unfolding \<open>ct_deploy ` set (cf_certs c') = _\<close> [symmetric] by (rule imageI)
      then obtain y where y: "y \<in> set (cf_certs c3)" "ct_deploy x = ct_deploy y" by (rule imageE)
      have "do_target (ct_deploy y) \<in> {[], cf_deploy_target c3}" using g y(1) by blast
      then show "do_target (ct_deploy x) \<in> {[], cf_deploy_target c'}" unfolding y(2) t .
    qed
  qed
  have fl: "\<forall>x \<in> set (cf_certs c'). ps_min_valid_dur (cf_probe c') < the (profile_validity (ct_profile x))"
  proof
    fix x assume x: "x \<in> set (cf_certs c')"
    then have "certificate_ok L x" using a by blast
    then obtain v where "profile_validity (ct_profile x) = Some v" "0 < v"
      using profile_has_validity [of "ct_profile x"] by (auto simp: certificate_ok_def)
    then show "ps_min_valid_dur (cf_probe c') < the (profile_validity (ct_profile x))"
      using probe_floor_ok b x by fastforce
  qed
  have e1: "dz_mode (cf_desired c') = ''enforce'' \<Longrightarrow> cf_certs c' = [] \<and> dz_path (cf_desired c') \<noteq> []"
    and e2: "dz_mode (cf_desired c') = ''observe'' \<Longrightarrow> dz_path (cf_desired c') \<noteq> []"
    and e3: "dz_mode (cf_desired c') = ''static'' \<Longrightarrow> dz_path (cf_desired c') = []" using D by auto
  have e4: "dz_mode (cf_desired c') = ''observe'' \<Longrightarrow> cf_certs c' \<noteq> []" using b by blast
  have ok: "x \<in> set (cf_certs c') \<Longrightarrow> certificate_ok L x" and dist: "distinct (map ct_name (cf_certs c'))" for x
    using a by blast+
  have ng: "nginx_mentioned (cf_nginx c') \<Longrightarrow> cf_deploy_target c' = ''nginx''" using g u b by simp
  note dn = dns_ok [OF s(1)]
  show ?thesis
    unfolding dns tn
  proof (intro conjI ballI impI)
    show "dz_mode (cf_desired c') \<in> {''static'', ''observe'', ''enforce''}" using D by blast
    show "ns_second \<le> ds_polling d" "ds_polling d < ds_propagation d" using dn by blast+
    show "cloudflare_configured d \<Longrightarrow> ds_provider d = ''cloudflare''" "route53_configured d \<Longrightarrow> ds_provider d = ''route53''"
      using dn by blast+
    show "tn_regions t \<noteq> []" using tencent_ok [OF s(3)] by blast
    show "wh_listen (cf_webhook c') \<noteq> [] \<Longrightarrow> 16 \<le> length (wh_token (cf_webhook c'))"
      "wh_listen (cf_webhook c') \<noteq> [] \<Longrightarrow> wh_admin_token (cf_webhook c') \<noteq> [] \<Longrightarrow> 32 \<le> length (wh_admin_token (cf_webhook c'))"
      "wh_listen (cf_webhook c') \<noteq> [] \<Longrightarrow> wh_admin_token (cf_webhook c') \<noteq> [] \<Longrightarrow>
        wh_admin_token (cf_webhook c') \<noteq> wh_token (cf_webhook c')"
      "wh_notify_secret (cf_webhook c') \<noteq> [] \<Longrightarrow> wh_notify_url (cf_webhook c') \<noteq> []" using W by blast+
  qed (use e1 e2 e3 e4 ok dist ng dep fl in blast)+
qed

definition sample_net :: netlib where
  "sample_net = \<lparr>nl_url = \<lambda>s. Some \<lparr>u_scheme = ''https'', u_host = ''ca'', u_hostname = ''ca''\<rparr>, nl_is_ip = \<lambda>_. False,
     nl_is_loopback_ip = \<lambda>_. False, nl_clean = \<lambda>s. s\<rparr>"

definition sample_settings :: config where
  "sample_settings =
     \<lparr>cf_state_path = ''state.db'', cf_key_file = [], cf_key = [],
      cf_acme = \<lparr>as_directory = ''https://ca/dir'', as_fallback_directories = [], as_email = ''ops@corp.cn'',
        as_eab_kid = [], as_eab_hmac = [], as_eab_hmac_file = []\<rparr>,
      cf_dns = \<lparr>ds_provider = ''tencentcloud'', ds_lego_provider = [], ds_login_token = [], ds_login_token_file = [],
        ds_cf_token = [], ds_cf_token_file = [], ds_r53_region = [], ds_r53_hosted_zone = [], ds_r53_access_key = [],
        ds_r53_secret_key = [], ds_r53_secret_key_file = [], ds_r53_session_token = [], ds_r53_session_token_file = [],
        ds_ttl = 0, ds_propagation_timeout = [], ds_polling_interval = ''10s'', ds_nameservers = [],
        ds_propagation = 0, ds_polling = 0\<rparr>,
      cf_tencent = \<lparr>tn_credential_mode = ''static'', tn_secret_id = [], tn_secret_key = [], tn_secret_id_file = [],
        tn_secret_key_file = [], tn_role_name = [], tn_resource_types = [], tn_regions = ['' AP-guangzhou'']\<rparr>,
      cf_deploy_target = [],
      cf_nginx = \<lparr>ng_dir_template = [], ng_cert_file = [], ng_key_file = [], ng_reload = None\<rparr>,
      cf_metrics_listen = [],
      cf_webhook = \<lparr>wh_listen = ''127.0.0.1:9801'', wh_token = ''0123456789abcdef'', wh_token_file = [], wh_notify_url = [],
        wh_notify_secret = [], wh_notify_secret_file = [], wh_admin_token = [], wh_notify_format = [], wh_pd_key = [],
        wh_pd_key_file = [], wh_jira_url = [], wh_jira_project = [], wh_jira_issue_type = [], wh_jira_email = [],
        wh_jira_token = [], wh_jira_token_file = [], wh_jira_auth = [], wh_jira_reuse = None\<rparr>,
      cf_desired = \<lparr>dz_mode = [], dz_path = [], dz_max_staleness = [], dz_max_staleness_dur = 0\<rparr>,
      cf_onboarding = \<lparr>ob_require_clb_rule = None, ob_max_names = 0, ob_profile = [], ob_key_type = [], ob_deploy = None,
        ob_grace_period = [], ob_budget = 0, ob_budget_window = [], ob_drop_threshold = Some 0, ob_grace_dur = 0,
        ob_budget_dur = 0\<rparr>,
      cf_probe = \<lparr>ps_enabled = None, ps_port = 0, ps_timeout = [], ps_max_hosts = None, ps_require_trusted = None,
        ps_min_valid_for = ''24h'', ps_timeout_dur = 0, ps_min_valid_dur = 0\<rparr>,
      cf_backup = \<lparr>bk_enabled = None, bk_interval = [], bk_keep = 0, bk_dir = [], bk_local_dirs = [], bk_targets = [],
        bk_interval_dur = 0\<rparr>,
      cf_fallback = \<lparr>fs_enabled = None, fs_after_failures = 0, fs_before_expiry = [], fs_min_identifier_failures = 0,
        fs_failure_window = [], fs_min_names = 0, fs_before_expiry_dur = 0, fs_failure_window_dur = 0\<rparr>,
      cf_certs = [sample_certificate]\<rparr>"

lemma sample_settings_accepted: "isl (normalize_config sample_net acme_lib (\<lambda>x. x) False sample_settings) = False"
  by code_simp

theorem accepted_configuration_witness:
  "case normalize_config sample_net acme_lib (\<lambda>x. x) False sample_settings of
     Inl _ \<Rightarrow> False
   | Inr c \<Rightarrow> distinct (map ct_name (cf_certs c)) \<and> ds_polling (cf_dns c) < ds_propagation (cf_dns c)"
proof (cases "normalize_config sample_net acme_lib (\<lambda>x. x) False sample_settings")
  case (Inl e)
  then show ?thesis using sample_settings_accepted by simp
next
  case (Inr c)
  show ?thesis unfolding Inr sum.case using accepted_configuration [OF Inr] by blast
qed

section \<open>Two blocks that are not looked at\<close>

text \<open>
  A directory for nginx under a certificate that inherits the process-wide target is not compared
  with that target, and the format of a notification is not looked at without a listen address.
\<close>

lemma inherited_nginx_dir_unchecked:
  "do_target (ct_deploy c) = [] \<Longrightarrow> do_nginx_dir (ct_deploy c) = Some dir \<Longrightarrow> check_cert_target ''tencent'' c = None"
  by (simp add: check_cert_target_def)

lemma notify_only_format_unchecked:
  "http_url N (wh_notify_url w) \<Longrightarrow> wh_notify_secret w = [] \<Longrightarrow> wh_listen w = [] \<Longrightarrow> wh_token w = [] \<Longrightarrow>
   normalize_webhook N (w\<lparr>wh_notify_format := f\<rparr>) = Inr (w\<lparr>wh_notify_format := f\<rparr>)"
  by (simp add: normalize_webhook_def check_notify_def checked_def and_then_def refuse_def)

end
