(* ===== verification/Secrets.thy ===== *)
theory Secrets
  imports Settings
begin

unbundle bit_operations_syntax

text \<open>
  Where the credentials of the configuration come from (\<open>internal/config/secrets.go\<close>) and what loading
  it warns about (\<open>load.go\<close>). The environment and the file system are fields of \<open>oslib\<close>; a warning is
  a constructor with what its text names. The YAML decoder's answer is an argument of \<open>load_config\<close>.
\<close>

record oslib =
  os_getenv :: "string \<Rightarrow> string"
  os_expand :: "string \<Rightarrow> string"
  os_read_file :: "string \<Rightarrow> string + string"
  os_perm :: "string \<Rightarrow> nat option"

datatype warning =
    EnvIgnored string string string
  | WideSecretFile string string nat
  | PlaintextNotify
  | UnparsableNotify
  | UnparsableListen string
  | OpenListener string string
  | WideConfig nat "string list"

section \<open>One secret\<close>

definition env_value :: "oslib \<Rightarrow> string \<Rightarrow> string" where
  "env_value S e = trim_space (os_getenv S e)"

definition secret_file_perm_warnings :: "oslib \<Rightarrow> string \<Rightarrow> string \<Rightarrow> warning list" where
  "secret_file_perm_warnings S field path =
     (case os_perm S path of
        None \<Rightarrow> []
      | Some perm \<Rightarrow> if perm AND 63 = 0 then [] else [WideSecretFile field path perm])"

definition read_secret_file :: "oslib \<Rightarrow> string \<Rightarrow> string \<Rightarrow> config_error + warning list \<times> string" where
  "read_secret_file S field path =
     (case os_read_file S path of
        Inl e \<Rightarrow> Inl (Malformed field path)
      | Inr raw \<Rightarrow>
          (let secret = trim_space raw
           in if secret = [] then Inl (EmptyEntry field)
              else Inr (secret_file_perm_warnings S field path, secret)))"

text \<open>\<open>resolve\<close>: the value as written, else the file, else the first variable that is set.\<close>

definition resolve_secret ::
  "oslib \<Rightarrow> string \<Rightarrow> string list \<Rightarrow> string \<Rightarrow> string \<Rightarrow> config_error + warning list \<times> string" where
  "resolve_secret S field envs value file =
     (let value = (if value = [] then [] else os_expand S value)
      in if value \<noteq> [] \<and> file \<noteq> [] then Inl (Conflict field file)
         else if value \<noteq> [] then Inr ([], value)
         else if file \<noteq> [] then
           map_sum id (\<lambda>(ws, s). (map (EnvIgnored field file) (filter (\<lambda>e. env_value S e \<noteq> []) envs) @ ws, s))
             (read_secret_file S field (os_expand S file))
         else case find (\<lambda>e. env_value S e \<noteq> []) envs of
             Some e \<Rightarrow> Inr ([], env_value S e)
           | None \<Rightarrow> Inr ([], []))"

text \<open>
  A credential has one source: what is in force afterwards is the value written in the configuration
  and then no file is named, or else the content of the named file, or else a variable of the
  environment; a value and a file together are refused, and a file never yields an empty credential.
\<close>

theorem secret_has_one_source:
  assumes "resolve_secret S field envs value file = Inr (ws, s)"
  shows "value \<noteq> [] \<and> os_expand S value = s \<and> s \<noteq> [] \<and> file = [] \<or>
    (value = [] \<or> os_expand S value = []) \<and> file \<noteq> [] \<and> s \<noteq> [] \<and>
      (\<exists>raw. os_read_file S (os_expand S file) = Inr raw \<and> s = trim_space raw) \<or>
    (value = [] \<or> os_expand S value = []) \<and> file = [] \<and>
      (s = [] \<and> (\<forall>e \<in> set envs. env_value S e = []) \<or> (\<exists>e \<in> set envs. s = env_value S e \<and> s \<noteq> []))"
proof -
  define v where "v = (if value = [] then [] else os_expand S value)"
  have v: "v \<noteq> [] \<longleftrightarrow> value \<noteq> [] \<and> os_expand S value \<noteq> []" by (simp add: v_def)
  consider "v \<noteq> []" | "v = []" "file \<noteq> []" | "v = []" "file = []" by blast
  then show ?thesis
  proof cases
    case 1
    then show ?thesis using assms v unfolding resolve_secret_def v_def [symmetric] Let_def
      by (auto simp: v_def split: if_splits)
  next
    case 2
    then obtain ws' where "read_secret_file S field (os_expand S file) = Inr (ws', s)"
      using assms unfolding resolve_secret_def v_def [symmetric] Let_def
      by (cases "read_secret_file S field (os_expand S file)") auto
    then show ?thesis using 2 v by (auto simp: read_secret_file_def Let_def split: sum.splits if_splits)
  next
    case 3
    then have r: "(case find (\<lambda>e. env_value S e \<noteq> []) envs of Some e \<Rightarrow> Inr ([], env_value S e) | None \<Rightarrow> Inr ([], []))
      = (Inr (ws, s) :: config_error + warning list \<times> string)"
      using assms unfolding resolve_secret_def v_def [symmetric] Let_def by simp
    show ?thesis
    proof (cases "find (\<lambda>e. env_value S e \<noteq> []) envs")
      case None
      then have "s = []" using r by simp
      moreover have "\<forall>e \<in> set envs. env_value S e = []" using None by (auto simp: find_None_iff)
      ultimately show ?thesis using 3 v by blast
    next
      case (Some e)
      then have "e \<in> set envs" "env_value S e \<noteq> []" by (auto simp: find_Some_iff)
      then show ?thesis using 3 v r Some by auto
    qed
  qed
qed

theorem secret_has_one_source_witness:
  "resolve_secret \<lparr>os_getenv = \<lambda>_. '' tok '', os_expand = \<lambda>s. s, os_read_file = \<lambda>_. Inl [], os_perm = \<lambda>_. None\<rparr>
     ''dns.loginToken'' [''DNSPOD_LOGIN_TOKEN''] [] [] = Inr ([], ''tok'')"
proof -
  let ?S = "\<lparr>os_getenv = \<lambda>_. '' tok '', os_expand = \<lambda>s. s, os_read_file = \<lambda>_. Inl [], os_perm = \<lambda>_. None\<rparr>"
  have e: "env_value ?S ''DNSPOD_LOGIN_TOKEN'' = ''tok''"
    by (simp add: env_value_def trim_space_def is_space_def)
  obtain ws s where r: "resolve_secret ?S ''dns.loginToken'' [''DNSPOD_LOGIN_TOKEN''] [] [] = Inr (ws, s)"
    by (simp add: resolve_secret_def e)
  have "s = ''tok''" using secret_has_one_source [OF r] by (simp add: e)
  then show ?thesis using r by (simp add: resolve_secret_def e)
qed

section \<open>All the secrets\<close>

text \<open>Adding the warnings of one resolution to those before it.\<close>

definition with_secret ::
  "warning list \<Rightarrow> config_error + warning list \<times> string \<Rightarrow> (warning list \<Rightarrow> string \<Rightarrow> config_error + 'b) \<Rightarrow> config_error + 'b" where
  "with_secret ws r f = and_then r (\<lambda>(ws', s). f (ws @ ws') s)"

definition resolve_cloudflare :: "oslib \<Rightarrow> warning list \<Rightarrow> dns_settings \<Rightarrow> config_error + warning list \<times> dns_settings" where
  "resolve_cloudflare S ws d =
     (if ds_provider d \<noteq> ''cloudflare'' then Inr (ws, d)
      else with_secret ws (resolve_secret S ''dns.cloudflare.apiToken''
          [''CLOUDFLARE_DNS_API_TOKEN'', ''CF_DNS_API_TOKEN''] (ds_cf_token d) (ds_cf_token_file d))
        (\<lambda>ws s. Inr (ws, d\<lparr>ds_cf_token := s\<rparr>)))"

definition resolve_route53 :: "oslib \<Rightarrow> warning list \<Rightarrow> dns_settings \<Rightarrow> config_error + warning list \<times> dns_settings" where
  "resolve_route53 S ws d =
     (if ds_provider d \<noteq> ''route53'' then Inr (ws, d)
      else
        (let region = (if ds_r53_region d \<noteq> [] then ds_r53_region d
           else case find (\<lambda>e. env_value S e \<noteq> []) [''AWS_REGION'', ''AWS_DEFAULT_REGION''] of
               Some e \<Rightarrow> env_value S e
             | None \<Rightarrow> [])
         in with_secret ws (resolve_secret S ''dns.route53.secretAccessKey'' []
              (ds_r53_secret_key d) (ds_r53_secret_key_file d)) (\<lambda>ws k.
            with_secret ws (resolve_secret S ''dns.route53.sessionToken'' []
              (ds_r53_session_token d) (ds_r53_session_token_file d)) (\<lambda>ws t.
            Inr (ws, d\<lparr>ds_r53_region := region, ds_r53_secret_key := k, ds_r53_session_token := t\<rparr>)))))"

definition resolve_notifier :: "oslib \<Rightarrow> warning list \<Rightarrow> webhook_settings \<Rightarrow> config_error + warning list \<times> webhook_settings" where
  "resolve_notifier S ws w =
     (if wh_notify_format w = ''jira'' then
        with_secret ws (resolve_secret S ''webhook.jira.apiToken'' [] (wh_jira_token w) (wh_jira_token_file w))
          (\<lambda>ws s. Inr (ws, w\<lparr>wh_jira_token := s\<rparr>))
      else if wh_notify_format w = ''pagerduty'' then
        with_secret ws (resolve_secret S ''webhook.pagerduty.routingKey'' [] (wh_pd_key w) (wh_pd_key_file w))
          (\<lambda>ws s. Inr (ws, w\<lparr>wh_pd_key := s\<rparr>))
      else Inr (ws, w))"

definition resolve_state_key :: "oslib \<Rightarrow> config \<Rightarrow> config_error + string" where
  "resolve_state_key S c =
     (if cf_key_file c = [] then Inr (cf_key c)
      else case os_read_file S (os_expand S (cf_key_file c)) of
          Inl e \<Rightarrow> Inl (Malformed ''stateEncryption.keyFile'' e)
        | Inr raw \<Rightarrow> checked [refuse (trim_space raw = []) (EmptyEntry ''stateEncryption.keyFile'')] (trim_space raw))"

definition resolve_secret_files :: "oslib \<Rightarrow> config \<Rightarrow> config_error + warning list \<times> config" where
  "resolve_secret_files S c =
     (let d = cf_dns c; a = cf_acme c; t = cf_tencent c
      in with_secret [] (resolve_secret S ''dns.loginToken'' [''DNSPOD_LOGIN_TOKEN'']
           (ds_login_token d) (ds_login_token_file d)) (\<lambda>ws login.
         with_secret ws (resolve_secret S ''acme.eab.hmac'' [''WECERT_ACME_EAB_HMAC'']
           (as_eab_hmac a) (as_eab_hmac_file a)) (\<lambda>ws hmac.
         and_then (resolve_state_key S c) (\<lambda>key.
         and_then (resolve_cloudflare S ws (d\<lparr>ds_login_token := login\<rparr>)) (\<lambda>(ws, d).
         and_then (resolve_route53 S ws d) (\<lambda>(ws, d).
         and_then (resolve_notifier S ws (cf_webhook c)) (\<lambda>(ws, w).
         with_secret ws (resolve_secret S ''tencent.secretId'' [''TENCENTCLOUD_SECRET_ID'']
           (tn_secret_id t) (tn_secret_id_file t)) (\<lambda>ws sid.
         with_secret ws (resolve_secret S ''tencent.secretKey'' [''TENCENTCLOUD_SECRET_KEY'']
           (tn_secret_key t) (tn_secret_key_file t)) (\<lambda>ws skey.
         with_secret ws (resolve_secret S ''webhook.token'' [] (wh_token w) (wh_token_file w)) (\<lambda>ws token.
         with_secret ws (resolve_secret S ''webhook.notifySecret'' [] (wh_notify_secret w) (wh_notify_secret_file w)) (\<lambda>ws nsec.
         Inr (ws, c\<lparr>cf_key := key, cf_dns := d, cf_acme := a\<lparr>as_eab_hmac := hmac\<rparr>,
           cf_tencent := t\<lparr>tn_secret_id := sid, tn_secret_key := skey\<rparr>,
           cf_webhook := w\<lparr>wh_token := token, wh_notify_secret := nsec\<rparr>\<rparr>))))))))))))"

section \<open>Loading\<close>

definition inline_secret_fields :: "config \<Rightarrow> string list" where
  "inline_secret_fields c =
     map fst (filter (\<lambda>(f, v). v \<noteq> [])
       [(''acme.eab.hmac'', as_eab_hmac (cf_acme c)), (''dns.loginToken'', ds_login_token (cf_dns c)),
        (''dns.cloudflare.apiToken'', ds_cf_token (cf_dns c)),
        (''dns.route53.secretAccessKey'', ds_r53_secret_key (cf_dns c)),
        (''tencent.secretId'', tn_secret_id (cf_tencent c)), (''tencent.secretKey'', tn_secret_key (cf_tencent c)),
        (''webhook.token'', wh_token (cf_webhook c)), (''webhook.adminToken'', wh_admin_token (cf_webhook c)),
        (''webhook.jira.apiToken'', wh_jira_token (cf_webhook c)),
        (''webhook.pagerduty.routingKey'', wh_pd_key (cf_webhook c)),
        (''webhook.notifySecret'', wh_notify_secret (cf_webhook c))])"

definition config_perm_warnings :: "nat \<Rightarrow> string list \<Rightarrow> warning list" where
  "config_perm_warnings perm secrets = (if secrets = [] \<or> perm AND 63 = 0 then [] else [WideConfig perm secrets])"

definition notify_url_warnings :: "netlib \<Rightarrow> string \<Rightarrow> warning list" where
  "notify_url_warnings N s =
     (if s = [] then []
      else case nl_url N s of
          None \<Rightarrow> [UnparsableNotify]
        | Some u \<Rightarrow> if u_scheme u = ''http'' \<and> \<not> is_loopback_host N (u_hostname u) then [PlaintextNotify] else [])"

definition listen_warnings :: "netlib \<Rightarrow> string \<Rightarrow> string \<Rightarrow> warning list" where
  "listen_warnings N field listen =
     (if listen = [] then []
      else case split_host_port listen of
          None \<Rightarrow> [UnparsableListen field]
        | Some (host, port) \<Rightarrow> if is_loopback_host N host then [] else [OpenListener field listen])"

text \<open>
  \<open>Load\<close>: \<open>decode\<close> is the decoder's first document and what it answers afterwards (\<open>Inr True\<close> an
  empty document); \<open>perm\<close> are the mode bits of the file, if they could be read.
\<close>

datatype config_load_error =
    ReadFailed string
  | FileTooLarge
  | DecodeFailed string
  | ExtraDocument
  | Refused config_error

fun reject_extra :: "(string + bool) list \<Rightarrow> config_load_error option" where
  "reject_extra [] = None"
| "reject_extra (x # xs) =
     (case x of
        Inl e \<Rightarrow> Some (DecodeFailed e)
      | Inr blank \<Rightarrow> if blank then reject_extra xs else Some ExtraDocument)"

definition max_config_bytes :: nat where "max_config_bytes = 16 * 1048576"

definition load_config ::
  "oslib \<Rightarrow> netlib \<Rightarrow> golib \<Rightarrow> (rat \<Rightarrow> rat) \<Rightarrow> bool \<Rightarrow> string + string \<Rightarrow>
   string + config \<times> (string + bool) list \<Rightarrow> nat option \<Rightarrow> config_load_error + config \<times> warning list" where
  "load_config S N L fl lego bytes decode perm =
     (case bytes of
        Inl e \<Rightarrow> Inl (ReadFailed e)
      | Inr data \<Rightarrow>
          if length data > max_config_bytes then Inl FileTooLarge
          else case decode of
              Inl e \<Rightarrow> Inl (DecodeFailed e)
            | Inr (c0, rest) \<Rightarrow>
                (case reject_extra rest of
                   Some e \<Rightarrow> Inl e
                 | None \<Rightarrow>
                     map_sum Refused id (and_then (resolve_secret_files S c0) (\<lambda>(ws, c).
                       and_then (normalize_config N L fl lego c) (\<lambda>c.
                       Inr (c, ws @ notify_url_warnings N (wh_notify_url (cf_webhook c)) @
                         listen_warnings N ''metrics.listen'' (cf_metrics_listen c) @
                         listen_warnings N ''webhook.listen'' (wh_listen (cf_webhook c)) @
                         (let inline = inline_secret_fields c0
                          in if inline = [] then []
                             else case perm of None \<Rightarrow> [] | Some p \<Rightarrow> config_perm_warnings p inline)))))))"

end
