(* ===== verification/Sched.thy ===== *)
theory Sched
  imports Prelude "HOL-Library.Multiset"
begin

text \<open>
  Who runs when: the admission of background passes, the claim of a certificate's name, the start
  slots, the drain at shutdown and the one publication of the quota gauges per trigger
  (\<open>internal/reconcile/start.go\<close>, \<open>acquire\<close> and \<open>release\<close> of \<open>reconcile.go\<close>). The goroutines are the
  elements of a multiset, each standing at one point of its code; a step moves one of them past one
  access to what they share. An access under \<open>mu\<close> or \<open>bgMu\<close> is one step; \<open>quotaMu\<close> is held over two
  loads, so it is a flag of the state and its holder a point of the code.
\<close>

section \<open>State\<close>

datatype start_error = ErrAlreadyRunning | ErrDesiredStateUnavailable | ErrUnknownCert | ErrShuttingDown

text \<open>\<open>StartCert\<close>, \<open>StartNamed\<close> and \<open>StartAll\<close> under one record: what was asked, what is left to do and
  the three lists of the answer.\<close>

datatype trigger_kind = Single | Named | All

record trigger =
  tg_kind :: trigger_kind
  tg_names :: "string list"
  tg_known :: "string list"
  tg_todo :: "string list"
  tg_seen :: "string list"
  tg_started :: "string list"
  tg_running :: "string list"
  tg_unknown :: "string list"
  tg_error :: "start_error option"

definition new_trigger :: "trigger_kind \<Rightarrow> string list \<Rightarrow> trigger" where
  "new_trigger k names = \<lparr>tg_kind = k, tg_names = names, tg_known = [], tg_todo = [], tg_seen = [],
     tg_started = [], tg_running = [], tg_unknown = [], tg_error = None\<rparr>"

text \<open>What a goroutine does after the check for a quiet period: a trigger answers, a pass releases.\<close>

datatype after = Answer trigger | Release string

datatype thread =
    Guarding trigger
  | Resolving trigger
  | Opening trigger
  | Opened trigger
  | Walking trigger
  | Begun string trigger
  | Refused string trigger
  | Claimed string trigger
  | Counted string trigger
  | Closing trigger
  | Asking after
  | Asked after
  | Publishing after
  | Queued string
  | Working string
  | Leaving string
  | Releasing string
  | Finishing
  | Foreground string

record sched =
  sc_running :: "string set"
  sc_bg :: int
  sc_draining :: bool
  sc_drained :: bool
  sc_cancelled :: bool
  sc_slots :: nat
  sc_passes :: int
  sc_starting :: int
  sc_locked :: bool
  sc_published :: bool
  sc_publications :: nat
  sc_triggered :: bool
  sc_answers :: "trigger list"
  sc_threads :: "thread multiset"

definition new_sched :: sched where
  "new_sched = \<lparr>sc_running = {}, sc_bg = 0, sc_draining = False, sc_drained = False, sc_cancelled = False,
     sc_slots = 0, sc_passes = 0, sc_starting = 0, sc_locked = False, sc_published = False,
     sc_publications = 0, sc_triggered = False, sc_answers = [], sc_threads = {#}\<rparr>"

definition max_concurrent_starts :: nat where
  "max_concurrent_starts = 8"

section \<open>What one goroutine does next\<close>

text \<open>
  \<open>acquire\<close> and \<open>release\<close>; \<open>begin_pass\<close> registers a pass in the wait group unless the shutdown has
  begun.
\<close>

definition acquire :: "string \<Rightarrow> sched \<Rightarrow> (bool \<times> sched)" where
  "acquire name s = (if name \<in> sc_running s then (False, s) else (True, s\<lparr>sc_running := insert name (sc_running s)\<rparr>))"

definition release :: "string \<Rightarrow> sched \<Rightarrow> sched" where
  "release name s = s\<lparr>sc_running := sc_running s - {name}\<rparr>"

definition begin_pass :: "sched \<Rightarrow> bool \<times> sched" where
  "begin_pass s = (if sc_draining s then (False, s) else (True, s\<lparr>sc_bg := sc_bg s + 1\<rparr>))"

text \<open>
  The loop of \<open>StartNamed\<close> and \<open>StartAll\<close> up to \<open>startCert\<close>: a duplicate is skipped and a name that is
  not wanted is unknown, in a named trigger only (the others walk the desired state itself).
\<close>

definition skips :: "trigger \<Rightarrow> string \<Rightarrow> bool" where
  "skips tg n \<longleftrightarrow> tg_kind tg = Named \<and> n \<in> set (tg_seen tg)"

definition unknowns :: "trigger \<Rightarrow> string \<Rightarrow> bool" where
  "unknowns tg n \<longleftrightarrow> tg_kind tg = Named \<and> n \<notin> set (tg_known tg)"

definition resolved :: "trigger \<Rightarrow> string list \<Rightarrow> trigger" where
  "resolved tg known = tg\<lparr>tg_known := known, tg_todo := (if tg_kind tg = All then known else tg_names tg)\<rparr>"

definition took :: "string \<Rightarrow> trigger \<Rightarrow> trigger" where
  "took n tg = tg\<lparr>tg_todo := tl (tg_todo tg), tg_seen := n # tg_seen tg\<rparr>"

definition finish :: "after \<Rightarrow> sched \<Rightarrow> thread multiset \<times> sched" where
  "finish a s = (case a of Answer tg \<Rightarrow> ({#}, s\<lparr>sc_answers := sc_answers s @ [tg]\<rparr>) | Release n \<Rightarrow> ({#Releasing n#}, s))"

text \<open>
  The two counters of the gauges and the flag under \<open>quotaMu\<close>. The check holds the lock over its two
  loads: \<open>publish_if_quiet\<close> is the first, \<open>decide_quiet\<close> the second with the claim.
\<close>

definition begin_quota_trigger :: "sched \<Rightarrow> sched" where
  "begin_quota_trigger s = s\<lparr>sc_starting := sc_starting s + 1, sc_triggered := True\<rparr>"

definition start_quota_pass :: "sched \<Rightarrow> sched" where
  "start_quota_pass s = s\<lparr>sc_passes := sc_passes s + 1\<rparr>"

definition unpublish :: "thread multiset \<Rightarrow> sched \<Rightarrow> (thread multiset \<times> sched) option" where
  "unpublish ts s = (if sc_locked s then None else Some (ts, s\<lparr>sc_published := False\<rparr>))"

definition end_quota_trigger :: "trigger \<Rightarrow> sched \<Rightarrow> thread multiset \<times> sched" where
  "end_quota_trigger tg s =
     (let s' = s\<lparr>sc_starting := sc_starting s - 1\<rparr>
      in if sc_starting s' = 0 then ({#Asking (Answer tg)#}, s') else finish (Answer tg) s')"

definition end_quota_pass :: "string \<Rightarrow> sched \<Rightarrow> thread multiset \<times> sched" where
  "end_quota_pass n s =
     (let s' = s\<lparr>sc_passes := sc_passes s - 1\<rparr>
      in if sc_passes s' = 0 then ({#Asking (Release n)#}, s') else ({#Releasing n#}, s'))"

definition publish_if_quiet :: "after \<Rightarrow> sched \<Rightarrow> (thread multiset \<times> sched) option" where
  "publish_if_quiet a s =
     (if sc_locked s then None
      else if sc_published s \<or> sc_passes s \<noteq> 0 then Some (finish a s)
      else Some ({#Asked a#}, s\<lparr>sc_locked := True\<rparr>))"

definition decide_quiet :: "after \<Rightarrow> sched \<Rightarrow> thread multiset \<times> sched" where
  "decide_quiet a s =
     (if sc_starting s \<noteq> 0 then finish a (s\<lparr>sc_locked := False\<rparr>)
      else ({#Publishing a#}, s\<lparr>sc_locked := False, sc_published := True\<rparr>))"

text \<open>One turn of the loop over the names, and the wait for a start slot.\<close>

definition walk :: "trigger \<Rightarrow> sched \<Rightarrow> thread multiset \<times> sched" where
  "walk tg s =
     (case tg_todo tg of
       [] \<Rightarrow> ({#Closing tg#}, s)
     | n # _ \<Rightarrow>
         (if skips tg n then ({#Walking (tg\<lparr>tg_todo := tl (tg_todo tg)\<rparr>)#}, s)
          else if unknowns tg n then ({#Walking ((took n tg)\<lparr>tg_unknown := tg_unknown tg @ [n]\<rparr>)#}, s)
          else (case begin_pass s of
            (False, s') \<Rightarrow> ({#Closing (tg\<lparr>tg_error := Some ErrShuttingDown\<rparr>)#}, s')
          | (True, s') \<Rightarrow> ({#Begun n (took n tg)#}, s'))))"

definition wait_slot :: "bool \<Rightarrow> string \<Rightarrow> sched \<Rightarrow> (thread multiset \<times> sched) option" where
  "wait_slot gives_up n s =
     (if gives_up then (if sc_cancelled s then Some ({#Leaving n#}, s) else None)
      else if sc_slots s < max_concurrent_starts then Some ({#Working n#}, s\<lparr>sc_slots := sc_slots s + 1\<rparr>)
      else None)"

text \<open>
  The next access of a goroutine: \<open>None\<close> when it has to wait, else the goroutines it becomes (itself at
  its next point, nothing when it returns, and the pass that a trigger spawns) and the state after it.
  What the resolution answers and whether the select takes the slot or the cancellation are the
  argument \<open>ch\<close>.
\<close>

record choice =
  ch_resolved :: "string list option"
  ch_gives_up :: bool

fun move :: "choice \<Rightarrow> thread \<Rightarrow> sched \<Rightarrow> (thread multiset \<times> sched) option" where
  "move ch (Guarding tg) s = Some
     (if tg_kind tg \<noteq> Single \<and> sc_draining s then finish (Answer (tg\<lparr>tg_error := Some ErrShuttingDown\<rparr>)) s
      else ({#Resolving tg#}, s))"
| "move ch (Resolving tg) s = Some (case ch_resolved ch of
     None \<Rightarrow> finish (Answer (tg\<lparr>tg_error := Some ErrDesiredStateUnavailable\<rparr>)) s
   | Some known \<Rightarrow>
       (if tg_kind tg = Single \<and> \<not> set (tg_names tg) \<subseteq> set known
        then finish (Answer (tg\<lparr>tg_error := Some ErrUnknownCert\<rparr>)) s
        else ({#Opening (resolved tg known)#}, s)))"
| "move ch (Opening tg) s = Some ({#Opened tg#}, begin_quota_trigger s)"
| "move ch (Opened tg) s = unpublish {#Walking tg#} s"
| "move ch (Walking tg) s = Some (walk tg s)"
| "move ch (Begun n tg) s = Some (case acquire n s of
     (False, s') \<Rightarrow> ({#Refused n tg#}, s')
   | (True, s') \<Rightarrow> ({#Claimed n tg#}, s'))"
| "move ch (Refused n tg) s = Some
     ({#Walking (tg\<lparr>tg_running := tg_running tg @ [n]\<rparr>)#}, s\<lparr>sc_bg := sc_bg s - 1\<rparr>)"
| "move ch (Claimed n tg) s = Some ({#Counted n tg#}, start_quota_pass s)"
| "move ch (Counted n tg) s = unpublish {#Walking (tg\<lparr>tg_started := tg_started tg @ [n]\<rparr>), Queued n#} s"
| "move ch (Closing tg) s = Some (end_quota_trigger tg s)"
| "move ch (Asking a) s = publish_if_quiet a s"
| "move ch (Asked a) s = Some (decide_quiet a s)"
| "move ch (Publishing a) s = Some (finish a (s\<lparr>sc_publications := sc_publications s + 1\<rparr>))"
| "move ch (Queued n) s = wait_slot (ch_gives_up ch) n s"
| "move ch (Working n) s = Some ({#Leaving n#}, s\<lparr>sc_slots := sc_slots s - 1\<rparr>)"
| "move ch (Leaving n) s = Some (end_quota_pass n s)"
| "move ch (Releasing n) s = Some ({#Finishing#}, release n s)"
| "move ch Finishing s = Some ({#}, s\<lparr>sc_bg := sc_bg s - 1\<rparr>)"
| "move ch (Foreground n) s = Some ({#}, release n s)"

lemmas moving = finish_def acquire_def release_def begin_pass_def begin_quota_trigger_def start_quota_pass_def
  unpublish_def end_quota_trigger_def end_quota_pass_def publish_if_quiet_def decide_quiet_def walk_def
  wait_slot_def Let_def

section \<open>Steps\<close>

text \<open>
  What comes from outside: a trigger over HTTP, a pass of the timer loop, of a \<open>RunCert\<close> or of an
  orphan's teardown (which claims the name and holds it to its end), the cancelled process context,
  a \<open>Drain\<close> that begins and one that returns because the wait group is at zero.
\<close>

inductive advance :: "sched \<Rightarrow> sched \<Rightarrow> bool" where
  moves: "sc_threads s = add_mset t M \<Longrightarrow> move ch t s = Some (ts, s') \<Longrightarrow>
    advance s (s'\<lparr>sc_threads := M + ts\<rparr>)"

inductive step :: "sched \<Rightarrow> sched \<Rightarrow> bool" where
  goes: "advance s s' \<Longrightarrow> step s s'"
| trigger: "k = Single \<longrightarrow> length names = 1 \<Longrightarrow>
    step s (s\<lparr>sc_threads := add_mset (Guarding (new_trigger k names)) (sc_threads s)\<rparr>)"
| foreground: "acquire n s = (True, s') \<Longrightarrow> step s (s'\<lparr>sc_threads := add_mset (Foreground n) (sc_threads s)\<rparr>)"
| cancel: "step s (s\<lparr>sc_cancelled := True\<rparr>)"
| drain: "step s (s\<lparr>sc_draining := True\<rparr>)"
| drained: "sc_draining s \<Longrightarrow> sc_bg s = 0 \<Longrightarrow> step s (s\<lparr>sc_drained := True\<rparr>)"

inductive reaches :: "sched \<Rightarrow> bool" where
  fresh: "reaches new_sched"
| later: "reaches s \<Longrightarrow> step s s' \<Longrightarrow> reaches s'"

inductive_cases advanceE: "advance s s'"

section \<open>What is counted\<close>

fun held :: "after \<Rightarrow> string multiset" where
  "held (Release n) = {#n#}"
| "held (Answer _) = {#}"

fun registered :: "after \<Rightarrow> int" where
  "registered (Release _) = 1"
| "registered (Answer _) = 0"

fun name_of :: "thread \<Rightarrow> string multiset" where
  "name_of (Claimed n _) = {#n#}"
| "name_of (Counted n _) = {#n#}"
| "name_of (Asking a) = held a"
| "name_of (Asked a) = held a"
| "name_of (Publishing a) = held a"
| "name_of (Queued n) = {#n#}"
| "name_of (Working n) = {#n#}"
| "name_of (Leaving n) = {#n#}"
| "name_of (Releasing n) = {#n#}"
| "name_of (Foreground n) = {#n#}"
| "name_of _ = {#}"

fun in_bg :: "thread \<Rightarrow> int" where
  "in_bg (Begun _ _) = 1"
| "in_bg (Refused _ _) = 1"
| "in_bg (Claimed _ _) = 1"
| "in_bg (Counted _ _) = 1"
| "in_bg (Asking a) = registered a"
| "in_bg (Asked a) = registered a"
| "in_bg (Publishing a) = registered a"
| "in_bg (Queued _) = 1"
| "in_bg (Working _) = 1"
| "in_bg (Leaving _) = 1"
| "in_bg (Releasing _) = 1"
| "in_bg Finishing = 1"
| "in_bg _ = 0"

fun in_pass :: "thread \<Rightarrow> int" where
  "in_pass (Counted _ _) = 1"
| "in_pass (Queued _) = 1"
| "in_pass (Working _) = 1"
| "in_pass (Leaving _) = 1"
| "in_pass _ = 0"

fun in_start :: "thread \<Rightarrow> int" where
  "in_start (Opened _) = 1"
| "in_start (Walking _) = 1"
| "in_start (Begun _ _) = 1"
| "in_start (Refused _ _) = 1"
| "in_start (Claimed _ _) = 1"
| "in_start (Counted _ _) = 1"
| "in_start (Closing _) = 1"
| "in_start _ = 0"

fun is_counted :: "thread \<Rightarrow> int" where
  "is_counted (Counted _ _) = 1"
| "is_counted _ = 0"

fun in_slot :: "thread \<Rightarrow> int" where
  "in_slot (Working _) = 1"
| "in_slot _ = 0"

fun has_lock :: "thread \<Rightarrow> int" where
  "has_lock (Asked _) = 1"
| "has_lock _ = 0"

fun checks :: "thread \<Rightarrow> int" where
  "checks (Asking _) = 1"
| "checks (Asked _) = 1"
| "checks _ = 0"

definition total :: "(thread \<Rightarrow> 'a::comm_monoid_add) \<Rightarrow> sched \<Rightarrow> 'a" where
  "total f s = sum_mset (image_mset f (sc_threads s))"

lemma sum_weight_nonneg:
  fixes f :: "thread \<Rightarrow> int"
  assumes "\<And>t. 0 \<le> f t" shows "0 \<le> sum_mset (image_mset f M)"
  by (induction M) (simp_all add: assms)

lemma sum_weight_mono:
  fixes f g :: "thread \<Rightarrow> int"
  assumes "\<And>t. f t \<le> g t" shows "sum_mset (image_mset f M) \<le> sum_mset (image_mset g M)"
  by (induction M) (simp_all add: assms add_mono)

lemma weights:
  "0 \<le> in_bg t \<and> 0 \<le> in_pass t \<and> 0 \<le> in_start t \<and> 0 \<le> in_slot t \<and> 0 \<le> has_lock t \<and> 0 \<le> checks t \<and>
   0 \<le> is_counted t \<and> is_counted t \<le> in_pass t \<and> is_counted t \<le> in_start t \<and> in_pass t \<le> in_bg t \<and> has_lock t \<le> checks t"
proof -
  have "0 \<le> registered a" for a by (cases a) simp_all
  then show ?thesis by (cases t) simp_all
qed

lemmas sums_nonneg = sum_weight_nonneg [of in_bg] sum_weight_nonneg [of in_pass] sum_weight_nonneg [of in_start]
  sum_weight_nonneg [of in_slot] sum_weight_nonneg [of has_lock] sum_weight_nonneg [of checks]
  sum_weight_nonneg [of is_counted]

lemmas sums_mono = sum_weight_mono [of is_counted in_pass] sum_weight_mono [of is_counted in_start]
  sum_weight_mono [of in_pass in_bg] sum_weight_mono [of has_lock checks]

section \<open>The invariant\<close>

text \<open>The names in \<open>running\<close> are those the goroutines hold, each held once.\<close>

definition names_ok :: "sched \<Rightarrow> bool" where
  "names_ok s \<longleftrightarrow> finite (sc_running s) \<and> total name_of s = mset_set (sc_running s)"

definition counts_ok :: "sched \<Rightarrow> bool" where
  "counts_ok s \<longleftrightarrow> sc_bg s = total in_bg s \<and> sc_passes s = total in_pass s \<and> sc_starting s = total in_start s \<and>
     int (sc_slots s) = total in_slot s \<and> of_bool (sc_locked s) = total has_lock s"

definition slots_ok :: "sched \<Rightarrow> bool" where
  "slots_ok s \<longleftrightarrow> sc_slots s \<le> max_concurrent_starts"

definition drain_ok :: "sched \<Rightarrow> bool" where
  "drain_ok s \<longleftrightarrow> (sc_drained s \<longrightarrow> sc_draining s \<and> sc_bg s = 0)"

text \<open>
  While \<open>quotaMu\<close> is held for the decision, a pass counted since can only wait for it, inside its trigger.
\<close>

definition lock_ok :: "sched \<Rightarrow> bool" where
  "lock_ok s \<longleftrightarrow> (sc_locked s \<longrightarrow> sc_passes s = total is_counted s)"

definition quiet_ok :: "sched \<Rightarrow> bool" where
  "quiet_ok s \<longleftrightarrow> (sc_triggered s \<and> \<not> sc_published s \<and> sc_passes s = 0 \<and> sc_starting s = 0 \<longrightarrow> 0 < total checks s)"

definition sched_ok :: "sched \<Rightarrow> bool" where
  "sched_ok s \<longleftrightarrow> names_ok s \<and> counts_ok s \<and> slots_ok s \<and> drain_ok s \<and> lock_ok s \<and> quiet_ok s"

lemmas sched_parts = names_ok_def counts_ok_def slots_ok_def drain_ok_def lock_ok_def quiet_ok_def

lemma counts_advance:
  assumes "advance s s'" "counts_ok s"
  shows "counts_ok s'"
  using assms
proof cases
  case (moves t M ch ts s1)
  note c = assms(2) [unfolded counts_ok_def total_def moves(2) image_mset_add_mset sum_mset.add_mset]
  have p: "0 \<le> sum_mset (image_mset in_slot M)" "0 \<le> sum_mset (image_mset has_lock M)"
    using sums_nonneg weights by blast+
  show ?thesis unfolding moves(1) counts_ok_def total_def
    using moves(3) c p
    by (cases t) (auto simp: moving of_bool_def split: if_splits option.splits list.splits after.splits prod.splits)
qed

lemma names_advance:
  assumes "advance s s'" "names_ok s"
  shows "names_ok s'"
  using assms
proof cases
  case (moves t M ch ts s1)
  note c = assms(2) [unfolded names_ok_def total_def moves(2) image_mset_add_mset sum_mset.add_mset]
  have r: "mset_set (R - {n}) = N" if "finite R" "add_mset n N = mset_set R" for R n and N :: "string multiset"
  proof -
    have "n \<in># mset_set R" using that(2) [symmetric] by simp
    then have "n \<in> R" using that(1) by simp
    then show ?thesis using that by (metis add_mset_diff_bothsides diff_empty mset_set.remove add_mset_remove_trivial)
  qed
  show ?thesis unfolding moves(1) names_ok_def total_def
    using moves(3) c 
    by (cases t) (auto simp: moving r add.commute split: if_splits option.splits list.splits after.splits prod.splits)
qed

lemma lock_advance:
  assumes "advance s s'" "lock_ok s" "counts_ok s"
  shows "lock_ok s'"
  using assms
proof cases
  case (moves t M ch ts s1)
  note c = assms(2,3) [unfolded lock_ok_def counts_ok_def total_def moves(2) image_mset_add_mset sum_mset.add_mset]
  have p: "0 \<le> sum_mset (image_mset is_counted M)" "0 \<le> sum_mset (image_mset has_lock M)"
     "sum_mset (image_mset is_counted M) \<le> sum_mset (image_mset in_pass M)"
    using sums_nonneg sums_mono weights by blast+
  show ?thesis unfolding moves(1) lock_ok_def total_def
    using moves(3) c p
    by (cases t) (auto simp: moving split: if_splits option.splits list.splits after.splits prod.splits)
qed

lemma quiet_advance:
  assumes "advance s s'" "quiet_ok s" "counts_ok s"
  shows "quiet_ok s'"
  using assms
proof cases
  case (moves t M ch ts s1)
  note c = assms(2,3) [unfolded quiet_ok_def counts_ok_def total_def moves(2) image_mset_add_mset sum_mset.add_mset]
  have p: "0 \<le> sum_mset (image_mset in_start M)" "0 \<le> sum_mset (image_mset checks M)" "0 \<le> sum_mset (image_mset in_pass M)"
    using sums_nonneg weights by blast+
  show ?thesis unfolding moves(1) quiet_ok_def total_def
    using moves(3) c p
    by (cases t) (auto simp: moving split: if_splits option.splits list.splits after.splits prod.splits)
qed

lemma slots_advance:
  assumes "advance s s'" "slots_ok s"
  shows "slots_ok s'"
  using assms
proof cases
  case (moves t M ch ts s1)
  show ?thesis unfolding moves(1) slots_ok_def
    using moves(3) assms(2) [unfolded slots_ok_def]
    by (cases t) (auto simp: moving split: if_splits option.splits list.splits after.splits prod.splits)
qed

lemma drain_advance:
  assumes "advance s s'" "drain_ok s" "counts_ok s"
  shows "drain_ok s'"
  using assms
proof cases
  case (moves t M ch ts s1)
  note c = assms(2,3) [unfolded drain_ok_def counts_ok_def total_def moves(2) image_mset_add_mset sum_mset.add_mset]
  have p: "0 \<le> sum_mset (image_mset in_bg M)" "0 \<le> in_bg t"
    using sums_nonneg weights by blast+
  show ?thesis unfolding moves(1) drain_ok_def
    using moves(3) c p
    by (cases t) (auto simp: moving split: if_splits option.splits list.splits after.splits prod.splits)
qed

lemma sched_ok_step:
  assumes "step s s'" "sched_ok s"
  shows "sched_ok s'"
  using assms
proof cases
  case goes
  then show ?thesis using assms(2) counts_advance names_advance lock_advance quiet_advance slots_advance drain_advance
    unfolding sched_ok_def by blast
qed (auto simp: sched_ok_def sched_parts total_def acquire_def split: if_splits)

lemma sched_ok_reaches: "reaches s \<Longrightarrow> sched_ok s"
proof (induction rule: reaches.induct)
  case fresh
  show ?case by (simp add: sched_ok_def sched_parts total_def new_sched_def)
next
  case (later s s')
  then show ?case using sched_ok_step by blast
qed

lemma total_zero:
  fixes f :: "thread \<Rightarrow> int"
  assumes "\<And>t. 0 \<le> f t" "total f s = 0" "t \<in># sc_threads s"
  shows "f t = 0"
proof -
  obtain M where m: "sc_threads s = add_mset t M" using assms(3) by (meson mset_add)
  have "0 \<le> sum_mset (image_mset f M)" using sum_weight_nonneg assms(1) by blast
  then show ?thesis using assms(1) [of t] assms(2) m by (simp add: total_def)
qed

section \<open>Schedules\<close>

text \<open>A run of given goroutines in a given order, to reach concrete states.\<close>

fun play :: "choice \<Rightarrow> thread list \<Rightarrow> sched \<Rightarrow> sched option" where
  "play ch [] s = Some s"
| "play ch (t # ts) s =
     (if t \<in># sc_threads s then
        (case move ch t s of None \<Rightarrow> None | Some (us, s') \<Rightarrow> play ch ts (s'\<lparr>sc_threads := sc_threads s - {#t#} + us\<rparr>))
      else None)"

lemma play_advances: "play ch ts s = Some s' \<Longrightarrow> advance\<^sup>*\<^sup>* s s'"
proof (induction ts arbitrary: s)
  case (Cons t ts)
  then obtain us s1 where m: "t \<in># sc_threads s" "move ch t s = Some (us, s1)"
    "play ch ts (s1\<lparr>sc_threads := sc_threads s - {#t#} + us\<rparr>) = Some s'"
    by (auto split: if_splits option.splits)
  have "advance s (s1\<lparr>sc_threads := sc_threads s - {#t#} + us\<rparr>)"
    using advance.moves [OF _ m(2), of "sc_threads s - {#t#}"] m(1) by simp
  then show ?case using Cons.IH [OF m(3)] by (meson converse_rtranclp_into_rtranclp)
qed simp

lemma advance_reaches: "advance\<^sup>*\<^sup>* s s' \<Longrightarrow> reaches s \<Longrightarrow> reaches s'"
  by (induction rule: rtranclp_induct) (auto intro: reaches.later step.goes)

text \<open>A trigger for one name, played to the end of its registration, with the timer at another name.\<close>

definition two_names :: choice where
  "two_names = \<lparr>ch_resolved = Some [''a'', ''b''], ch_gives_up = False\<rparr>"

definition walk_a :: trigger where
  "walk_a = resolved (new_trigger Single [''a'']) [''a'', ''b'']"

definition told_a :: trigger where
  "told_a = (took ''a'' walk_a)\<lparr>tg_started := [''a'']\<rparr>"

definition arrived_a :: sched where
  "arrived_a = new_sched\<lparr>sc_running := {''b''},
     sc_threads := {#Guarding (new_trigger Single [''a'']), Foreground ''b''#}\<rparr>"

definition schedule_a :: "thread list" where
  "schedule_a = [Guarding (new_trigger Single [''a'']), Resolving (new_trigger Single [''a'']),
    Opening walk_a, Opened walk_a, Walking walk_a, Begun ''a'' (took ''a'' walk_a), Claimed ''a'' (took ''a'' walk_a),
    Counted ''a'' (took ''a'' walk_a), Queued ''a'']"

definition working_a :: sched where
  "working_a = \<lparr>sc_running = {''a'', ''b''}, sc_bg = 1, sc_draining = False, sc_drained = False, sc_cancelled = False,
     sc_slots = 1, sc_passes = 1, sc_starting = 1, sc_locked = False, sc_published = False,
     sc_publications = 0, sc_triggered = True, sc_answers = [],
     sc_threads = {#Walking told_a, Working ''a'', Foreground ''b''#}\<rparr>"

lemma arrived_reaches: "reaches arrived_a"
proof -
  have "reaches (new_sched\<lparr>sc_running := {''b''}, sc_threads := {#Foreground ''b''#}\<rparr>)"
    using reaches.later [OF reaches.fresh step.foreground [of "''b''" new_sched]] by (simp add: acquire_def new_sched_def)
  from reaches.later [OF this step.trigger [of Single "[''a'']"]] show ?thesis by (simp add: arrived_a_def)
qed

lemma working_a_plays: "play two_names schedule_a arrived_a = Some working_a"
  by (simp add: schedule_a_def arrived_a_def new_sched_def two_names_def new_trigger_def walk_a_def resolved_def
      took_def moving skips_def unknowns_def working_a_def told_a_def max_concurrent_starts_def insert_commute)

lemma working_a_reaches: "reaches working_a"
  using working_a_plays play_advances advance_reaches arrived_reaches by blast

section \<open>Claims of names\<close>

text \<open>
  C10. At most one pass per certificate, and at most eight of the background ones at work: in every
  reachable state two goroutines never hold the same name, whoever holds one has it in \<open>running\<close>, and
  no more than \<open>maxConcurrentStarts\<close> passes hold a start slot.
\<close>

theorem one_pass_per_certificate:
  assumes "reaches s"
  shows "(\<forall>t u N. sc_threads s = add_mset t (add_mset u N) \<longrightarrow> set_mset (name_of t) \<inter> set_mset (name_of u) = {})
    \<and> (\<forall>t. t \<in># sc_threads s \<longrightarrow> set_mset (name_of t) \<subseteq> sc_running s)
    \<and> size {#t \<in># sc_threads s. \<exists>n. t = Working n#} \<le> max_concurrent_starts"
proof -
  have ok: "names_ok s" "counts_ok s" "slots_ok s" using sched_ok_reaches [OF assms] by (simp_all add: sched_ok_def)
  have f: "finite (sc_running s)" and n: "total name_of s = mset_set (sc_running s)"
    using ok(1) by (simp_all add: names_ok_def)
  have one: "set_mset (name_of t) \<inter> set_mset (name_of u) = {}" if "sc_threads s = add_mset t (add_mset u N)" for t u N
  proof (rule ccontr)
    assume "set_mset (name_of t) \<inter> set_mset (name_of u) \<noteq> {}"
    then obtain x where "x \<in># name_of t" "x \<in># name_of u" by auto
    then have "2 \<le> count (total name_of s) x" using that by (simp add: total_def Suc_le_eq flip: count_greater_zero_iff)
    then show False using f by (cases "x \<in> sc_running s") (simp_all add: n)
  qed
  have held: "set_mset (name_of t) \<subseteq> sc_running s" if h: "t \<in># sc_threads s" for t
  proof -
    obtain M where "sc_threads s = add_mset t M" using multi_member_split [OF h] by blast
    then have "set_mset (name_of t) \<subseteq> set_mset (total name_of s)" by (auto simp: total_def)
    then show ?thesis using f by (simp add: n)
  qed
  have "int (size {#t \<in># M. \<exists>n. t = Working n#}) = sum_mset (image_mset in_slot M)" for M
  proof (induction M)
    case (add t M)
    then show ?case by (cases t) simp_all
  qed simp
  then have "size {#t \<in># sc_threads s. \<exists>n. t = Working n#} = sc_slots s"
    using ok(2) by (simp add: counts_ok_def total_def flip: of_nat_eq_iff [where 'a = int])
  then show ?thesis using one held ok(3) by (simp add: slots_ok_def)
qed

theorem one_pass_per_certificate_witness:
  "set_mset (name_of (Working ''a'')) \<inter> set_mset (name_of (Foreground ''b'')) = {} \<and>
   set_mset (name_of (Working ''a'')) \<subseteq> sc_running working_a"
proof -
  have t: "sc_threads working_a = add_mset (Working ''a'') (add_mset (Foreground ''b'') {#Walking told_a#})"
    by (simp add: working_a_def)
  then have "Working ''a'' \<in># sc_threads working_a" by simp
  then show ?thesis
    using one_pass_per_certificate [OF working_a_reaches, THEN conjunct1, rule_format, OF t]
      one_pass_per_certificate [OF working_a_reaches, THEN conjunct2, THEN conjunct1, rule_format] by blast
qed

section \<open>Shutdown\<close>

lemma reaches_steps: "step\<^sup>*\<^sup>* s s' \<Longrightarrow> reaches s \<Longrightarrow> reaches s'"
  by (induction rule: rtranclp_induct) (auto intro: reaches.later)

lemma drained_stays: "step s s' \<Longrightarrow> sc_drained s \<Longrightarrow> sc_drained s'"
proof (induction rule: step.induct)
  case (goes s s')
  from goes(1) show ?case
  proof cases
    case (moves t M ch ts s1)
    show ?thesis unfolding moves(1) using moves(3) goes(2)
      by (cases t) (auto simp: moving split: if_splits option.splits list.splits after.splits prod.splits)
  qed
qed (auto simp: acquire_def split: if_splits)



section \<open>The gauges\<close>



section \<open>The end of the work\<close>

text \<open>Every move brings its goroutine closer to its return; what a resolution will answer is not known before.\<close>

fun unresolved :: "thread \<Rightarrow> nat" where
  "unresolved (Guarding _) = 1"
| "unresolved (Resolving _) = 1"
| "unresolved _ = 0"

fun after_left :: "after \<Rightarrow> nat" where
  "after_left (Release _) = 2"
| "after_left (Answer _) = 0"

definition walk_left :: "trigger \<Rightarrow> nat" where
  "walk_left tg = 5 + 12 * length (tg_todo tg)"

fun left :: "thread \<Rightarrow> nat" where
  "left (Guarding _) = 2"
| "left (Resolving _) = 1"
| "left (Opening tg) = walk_left tg + 2"
| "left (Opened tg) = walk_left tg + 1"
| "left (Walking tg) = walk_left tg"
| "left (Begun _ tg) = walk_left tg + 11"
| "left (Refused _ tg) = walk_left tg + 1"
| "left (Claimed _ tg) = walk_left tg + 10"
| "left (Counted _ tg) = walk_left tg + 9"
| "left (Closing _) = 4"
| "left (Asking a) = after_left a + 3"
| "left (Asked a) = after_left a + 2"
| "left (Publishing a) = after_left a + 1"
| "left (Queued _) = 8"
| "left (Working _) = 7"
| "left (Leaving _) = 6"
| "left (Releasing _) = 2"
| "left Finishing = 1"
| "left (Foreground _) = 1"

lemma move_progress:
  assumes "move ch t s = Some (ts, s')"
  shows "sum_mset (image_mset unresolved ts) < unresolved t \<or>
    (sum_mset (image_mset unresolved ts) = unresolved t \<and> sum_mset (image_mset left ts) < left t)"
  using assms
  by (cases t) (auto simp: moving walk_left_def took_def split: if_splits option.splits list.splits after.splits prod.splits)

lemma advance_wf: "wf {(s', s). advance s s'}"
proof (rule wf_subset)
  let ?m = "\<lambda>s. (total unresolved s, total left s)"
  show "wf (inv_image (less_than <*lex*> less_than) ?m)" by auto
  show "{(s', s). advance s s'} \<subseteq> inv_image (less_than <*lex*> less_than) ?m"
  proof (clarsimp, goal_cases)
    case (1 s' s)
    from 1(1) show ?case
    proof cases
      case (moves t M ch ts s1)
      have d: "total f s' = sum_mset (image_mset f M) + sum_mset (image_mset f ts)"
        "total f s = sum_mset (image_mset f M) + f t" for f :: "thread \<Rightarrow> nat"
        by (simp_all add: moves(1,2) total_def)
      show ?thesis using move_progress [OF moves(3)] 1(2) unfolding d by auto
    qed
  qed
qed

lemma never_stuck:
  assumes "sched_ok s" "sc_threads s \<noteq> {#}"
  shows "\<exists>s'. advance s s'"
proof -
  have go: "\<exists>s'. advance s s'" if "t \<in># sc_threads s" "move ch t s = Some (ts, s1)" for t ch ts s1
    using advance.moves [OF _ that(2)] multi_member_split [OF that(1)] by blast
  have ok: "counts_ok s" using assms(1) by (simp add: sched_ok_def)
  have some: "\<exists>t \<in># sc_threads s. f t \<noteq> 0" if "total f s \<noteq> 0" for f :: "thread \<Rightarrow> int"
  proof (rule ccontr)
    assume "\<not> (\<exists>t \<in># sc_threads s. f t \<noteq> 0)"
    moreover have "sum_mset (image_mset f M) = 0" if "\<forall>t \<in># M. f t = 0" for M using that by (induction M) simp_all
    ultimately show False using that by (simp add: total_def)
  qed
  obtain t where t: "t \<in># sc_threads s" using assms(2) by (meson multiset_nonemptyE)
  show ?thesis
  proof (cases "sc_locked s")
    case True
    then obtain u where u: "u \<in># sc_threads s" "has_lock u \<noteq> 0" using some [of has_lock] ok by (auto simp: counts_ok_def)
    then obtain a where "u = Asked a" by (cases u) auto
    then show ?thesis using go [OF u(1)] by fastforce
  next
    case free: False
    show ?thesis
    proof (cases "\<exists>n. t = Queued n \<and> \<not> sc_slots s < max_concurrent_starts")
      case True
      then have "total in_slot s \<noteq> 0" using ok by (auto simp: counts_ok_def max_concurrent_starts_def)
      then obtain u where u: "u \<in># sc_threads s" "in_slot u \<noteq> 0" using some [of in_slot] by blast
      then obtain n where "u = Working n" by (cases u) auto
      then show ?thesis using go [OF u(1)] by fastforce
    next
      case False
      then have "\<exists>ts s1. move \<lparr>ch_resolved = None, ch_gives_up = False\<rparr> t s = Some (ts, s1)"
        using free by (cases t) (auto simp: unpublish_def publish_if_quiet_def wait_slot_def)
      then show ?thesis using go [OF t] by blast
    qed
  qed
qed

text \<open>
  C13. Nothing hangs: when nothing more arrives, every run of the goroutines ends, whatever is
  resolved, and it can only end with all of them returned: no name claimed, no slot taken, the wait
  group at zero, and the gauges published if there ever was a trigger.
\<close>

theorem work_comes_to_rest:
  assumes "reaches s"
  shows "(\<nexists>f. f 0 = s \<and> (\<forall>i. advance (f i) (f (Suc i))))
    \<and> (\<forall>s'. advance\<^sup>*\<^sup>* s s' \<and> (\<nexists>s''. advance s' s'') \<longrightarrow>
          sc_threads s' = {#} \<and> sc_running s' = {} \<and> sc_slots s' = 0 \<and> sc_bg s' = 0 \<and> (sc_triggered s' \<longrightarrow> sc_published s'))"
proof -
  have "sc_threads s' = {#} \<and> sc_running s' = {} \<and> sc_slots s' = 0 \<and> sc_bg s' = 0 \<and> (sc_triggered s' \<longrightarrow> sc_published s')"
    if r: "advance\<^sup>*\<^sup>* s s'" "\<nexists>s''. advance s' s''" for s'
  proof -
    have ok: "sched_ok s'" using advance_reaches [OF r(1) assms] by (rule sched_ok_reaches)
    then have e: "sc_threads s' = {#}" using never_stuck r(2) by blast
    have "mset_set (sc_running s') = {#}" "finite (sc_running s')" using ok e by (simp_all add: sched_ok_def names_ok_def total_def)
    then have "sc_running s' = {}" by (simp add: mset_set_empty_iff)
    then show ?thesis using ok e by (auto simp: sched_ok_def counts_ok_def quiet_ok_def total_def)
  qed
  moreover have "\<nexists>f. f 0 = s \<and> (\<forall>i. advance (f i) (f (Suc i)))"
    using advance_wf unfolding wf_iff_no_infinite_down_chain by blast
  ultimately show ?thesis by blast
qed

text \<open>The rest of the run of the example: the pass ends before its trigger, which then publishes.\<close>

definition rested_a :: sched where
  "rested_a = new_sched\<lparr>sc_published := True, sc_publications := 1, sc_triggered := True, sc_answers := [told_a]\<rparr>"

definition quiet_a :: "thread list" where
  "quiet_a = [Working ''a'', Leaving ''a'', Walking told_a, Closing told_a, Asking (Release ''a''), Asked (Release ''a''),
     Asking (Answer told_a), Publishing (Release ''a''), Releasing ''a'', Finishing, Foreground ''b'']"

lemma rest_plays: "play two_names quiet_a working_a = Some rested_a"
  by (simp add: quiet_a_def working_a_def rested_a_def new_sched_def two_names_def told_a_def walk_a_def
      took_def new_trigger_def resolved_def moving)

lemma rested_advances: "advance\<^sup>*\<^sup>* working_a rested_a" and rested_reaches: "reaches rested_a"
  using rest_plays play_advances advance_reaches working_a_reaches by blast+

theorem work_comes_to_rest_witness:
  "sc_threads rested_a = {#} \<and> sc_published rested_a \<and> sc_publications rested_a = 1"
proof -
  have "\<nexists>s''. advance rested_a s''" by (auto elim!: advanceE simp: rested_a_def new_sched_def)
  then have "sc_threads rested_a = {#} \<and> sc_published rested_a"
    using work_comes_to_rest [OF working_a_reaches] rested_advances by (auto simp: rested_a_def)
  then show ?thesis by (simp add: rested_a_def)
qed

section \<open>What the caller is told\<close>

definition asked :: "trigger \<Rightarrow> string list" where
  "asked tg = (if tg_kind tg = All then tg_known tg else tg_names tg)"

definition bucketed :: "trigger \<Rightarrow> string list" where
  "bucketed tg = tg_started tg @ tg_running tg @ tg_unknown tg"

definition untouched :: "trigger \<Rightarrow> bool" where
  "untouched tg \<longleftrightarrow> bucketed tg = [] \<and> tg_seen tg = []"

text \<open>The walk, with the names \<open>ns\<close> under way (one between its turn and its bucket).\<close>

definition walk_ok :: "string list \<Rightarrow> trigger \<Rightarrow> bool" where
  "walk_ok ns tg \<longleftrightarrow>
     set (asked tg) = set (bucketed tg @ ns @ tg_todo tg) \<union> set (tg_seen tg) \<and>
     set (tg_seen tg) = set (bucketed tg @ ns) \<and>
     (tg_kind tg = Named \<longrightarrow> distinct (bucketed tg @ ns)) \<and>
     (tg_kind tg \<noteq> Named \<longrightarrow> set (tg_todo tg) \<subseteq> set (tg_known tg)) \<and>
     set (tg_started tg @ tg_running tg @ ns) \<subseteq> set (tg_known tg) \<and>
     set (tg_unknown tg) \<inter> set (tg_known tg) = {} \<and> tg_error tg = None"

text \<open>What a finished trigger tells.\<close>

definition told :: "trigger \<Rightarrow> bool" where
  "told tg \<longleftrightarrow>
     (case tg_error tg of
        None \<Rightarrow> set (asked tg) = set (bucketed tg)
      | Some ErrShuttingDown \<Rightarrow> set (bucketed tg) \<subseteq> set (asked tg)
      | Some e \<Rightarrow> bucketed tg = [] \<and> e \<noteq> ErrAlreadyRunning) \<and>
     (tg_kind tg = Named \<longrightarrow> distinct (bucketed tg)) \<and>
     set (tg_started tg @ tg_running tg) \<subseteq> set (tg_known tg) \<and> set (tg_unknown tg) \<inter> set (tg_known tg) = {}"

fun after_ok :: "after \<Rightarrow> bool" where
  "after_ok (Answer tg) = told tg"
| "after_ok (Release _) = True"

fun thread_ok :: "thread \<Rightarrow> bool" where
  "thread_ok (Guarding tg) = (untouched tg \<and> tg_error tg = None)"
| "thread_ok (Resolving tg) = (untouched tg \<and> tg_error tg = None)"
| "thread_ok (Opening tg) = walk_ok [] tg"
| "thread_ok (Opened tg) = walk_ok [] tg"
| "thread_ok (Walking tg) = walk_ok [] tg"
| "thread_ok (Begun n tg) = walk_ok [n] tg"
| "thread_ok (Refused n tg) = walk_ok [n] tg"
| "thread_ok (Claimed n tg) = walk_ok [n] tg"
| "thread_ok (Counted n tg) = walk_ok [n] tg"
| "thread_ok (Closing tg) = told tg"
| "thread_ok (Asking a) = after_ok a"
| "thread_ok (Asked a) = after_ok a"
| "thread_ok (Publishing a) = after_ok a"
| "thread_ok _ = True"

definition answers_ok :: "sched \<Rightarrow> bool" where
  "answers_ok s \<longleftrightarrow> (\<forall>t \<in># sc_threads s. thread_ok t) \<and> (\<forall>tg \<in> set (sc_answers s). told tg)"

lemma walk_begins: "untouched tg \<Longrightarrow> tg_error tg = None \<Longrightarrow> tg_kind tg = Single \<longrightarrow> set (tg_names tg) \<subseteq> set known \<Longrightarrow>
  walk_ok [] (resolved tg known)"
  by (cases "tg_kind tg") (auto simp: untouched_def walk_ok_def resolved_def asked_def bucketed_def)

lemma walk_takes: "walk_ok [] tg \<Longrightarrow> tg_todo tg = n # ns \<Longrightarrow> \<not> skips tg n \<Longrightarrow> \<not> unknowns tg n \<Longrightarrow> walk_ok [n] (took n tg)"
  by (cases "tg_kind tg") (auto simp: walk_ok_def took_def asked_def bucketed_def skips_def unknowns_def)

lemma walk_unknown: "walk_ok [] tg \<Longrightarrow> tg_todo tg = n # ns \<Longrightarrow> \<not> skips tg n \<Longrightarrow> unknowns tg n \<Longrightarrow>
  walk_ok [] ((took n tg)\<lparr>tg_unknown := tg_unknown tg @ [n]\<rparr>)"
  by (auto simp: walk_ok_def took_def asked_def bucketed_def skips_def unknowns_def)

lemma walk_skips: "walk_ok [] tg \<Longrightarrow> tg_todo tg = n # ns \<Longrightarrow> skips tg n \<Longrightarrow> walk_ok [] (tg\<lparr>tg_todo := ns\<rparr>)"
  by (auto simp: walk_ok_def asked_def bucketed_def skips_def)

lemma walk_refused: "walk_ok [n] tg \<Longrightarrow> walk_ok [] (tg\<lparr>tg_running := tg_running tg @ [n]\<rparr>)"
  by (auto simp: walk_ok_def asked_def bucketed_def)

lemma walk_counted: "walk_ok [n] tg \<Longrightarrow> walk_ok [] (tg\<lparr>tg_started := tg_started tg @ [n]\<rparr>)"
  by (auto simp: walk_ok_def asked_def bucketed_def)

lemma walk_told: "walk_ok [] tg \<Longrightarrow> tg_todo tg = [] \<Longrightarrow> told tg"
  by (auto simp: walk_ok_def told_def)

lemma walk_shut: "walk_ok [] tg \<Longrightarrow> told (tg\<lparr>tg_error := Some ErrShuttingDown\<rparr>)"
  by (auto simp: walk_ok_def told_def asked_def bucketed_def)

lemma untouched_told: "untouched tg \<Longrightarrow> e \<noteq> ErrAlreadyRunning \<Longrightarrow> told (tg\<lparr>tg_error := Some e\<rparr>)"
  by (cases e) (auto simp: untouched_def told_def asked_def bucketed_def)

lemmas walk_rules = walk_begins walk_takes walk_unknown walk_skips walk_refused walk_counted walk_told walk_shut untouched_told

lemma answers_advance:
  assumes "advance s s'" "answers_ok s"
  shows "answers_ok s'"
  using assms
proof cases
  case (moves t M ch ts s1)
  have "thread_ok t" and o: "\<forall>t \<in># M. thread_ok t" "\<forall>tg \<in> set (sc_answers s). told tg"
    using assms(2) moves(2) by (simp_all add: answers_ok_def)
  with moves(3) have "(\<forall>t \<in># ts. thread_ok t) \<and> (\<forall>tg \<in> set (sc_answers s1). told tg)"
    by (cases t) (auto simp: moving walk_rules split: if_splits option.splits list.splits after.splits prod.splits)
  then show ?thesis unfolding moves(1) answers_ok_def using o by auto
qed

lemma answers_reaches: "reaches s \<Longrightarrow> answers_ok s"
proof (induction rule: reaches.induct)
  case fresh
  show ?case by (simp add: answers_ok_def new_sched_def)
next
  case (later s s')
  from later.hyps(2) show ?case
    using later.IH answers_advance
    by cases (auto simp: answers_ok_def new_trigger_def untouched_def bucketed_def acquire_def split: if_splits)
qed

text \<open>
  C14. The answer to a trigger accounts for what was asked: without an error every requested name is in
  one of started, already running and unknown (in exactly one of them and once, for a list of names);
  with a shutdown in between the buckets are the part that was reached; any other error comes with
  empty buckets. A name is unknown exactly when it is not in the resolved desired state.
\<close>

theorem answers_account_for_names:
  assumes "reaches s" "tg \<in> set (sc_answers s)"
  shows "told tg"
  using answers_reaches [OF assms(1)] assms(2) by (simp add: answers_ok_def)

theorem answers_account_for_names_witness:
  "tg_started told_a = [''a''] \<and> told told_a"
proof -
  have "told_a \<in> set (sc_answers rested_a)" by (simp add: rested_a_def)
  from answers_account_for_names [OF rested_reaches this] show ?thesis by (simp add: told_a_def)
qed

end
