(* ===== verification/Loop.thy ===== *)
theory Loop
  imports Lifecycle Revoke Desired
begin

text \<open>
  One round of the daemon (\<open>internal/reconcile/report.go\<close>, \<open>orphan.go\<close>, \<open>pass.go\<close>, \<open>publish.go\<close>): the
  teardown of certificates that left the desired state, a pass over every wanted certificate with its
  report, and the epilogue of reaping, revocation retries and the sweep of stuck records. A round is a
  computation over the manager's \<open>world\<close>; the names other goroutines hold, the prober's answers and
  the cancelled context come from outside. What only feeds metrics or logs is left out; a panic has
  no counterpart.
\<close>

section \<open>What a round is given\<close>

record probe_answer =
  pa_host :: string
  pa_match :: bool
  pa_trusted :: bool
  pa_not_after :: instant
  pa_problem_kind :: string

text \<open>
  \<open>le_free\<close>: what \<open>acquire\<close> answers, that is whether no other goroutine holds the name; \<open>le_probe\<close> the
  prober's answer for a host, \<open>None\<close> for one without an answer.
\<close>

record loop_env =
  le_free :: "nat \<Rightarrow> bool"
  le_core :: bool
  le_prober :: bool
  le_max_hosts :: int
  le_probe :: "nat \<Rightarrow> probe_answer option"

text \<open>What the manager reads of a certificate of the desired state.\<close>

definition config_of :: "certificate \<Rightarrow> cert_config" where
  "config_of c = \<lparr>cc_name = ct_name c, cc_domains = ct_domains c, cc_profile = ct_profile c,
     cc_key_type = ct_key_type c, cc_renew_before = ct_renew_before_dur c, cc_deploy = do_enabled (ct_deploy c),
     cc_export = (ct_export c \<noteq> None), cc_fallback = map_option policy_of (ct_fallback c)\<rparr>"

section \<open>After a pass\<close>

definition publish :: "env \<Rightarrow> certificate \<Rightarrow> unit pass" where
  "publish E c = do {
     st \<leftarrow> store_read E (get_cert (ct_name c));
     case st of
       Inl e \<Rightarrow> ret ()
     | Inr None \<Rightarrow> ret ()
     | Inr (Some st) \<Rightarrow>
         if c_orphan_cleaned_at st = zero_time then ret ()
         else do { store_write E (\<lambda>_. clear_orphan_cleaned (ct_name c)); ret () } }"

definition probe_hosts :: "string list \<Rightarrow> int \<Rightarrow> string list" where
  "probe_hosts domains cap = (if cap \<le> 0 then [] else take (nat cap) (filter (\<lambda>d. \<not> is_wildcard d) domains))"

definition issued_sans :: "env \<Rightarrow> cert_state \<Rightarrow> string list" where
  "issued_sans E st =
     (if c_cert_pem st = [] then []
      else case e_parse_leaf E (c_cert_pem st) of None \<Rightarrow> [] | Some l \<Rightarrow> lf_dns_names l)"

definition probe_host :: "env \<Rightarrow> loop_env \<Rightarrow> string \<Rightarrow> string \<Rightarrow> unit pass" where
  "probe_host E L name host = do {
     a \<leftarrow> ask (le_probe L);
     case a of
       None \<Rightarrow> ret ()
     | Some a \<Rightarrow> do {
         now \<leftarrow> clock E;
         store_try E (\<lambda>_. put_probe_sample \<lparr>ps_cert_name = name, ps_host = pa_host a, ps_match = pa_match a,
           ps_trusted = pa_trusted a, ps_not_after = pa_not_after a, ps_problem_kind = pa_problem_kind a,
           ps_observed_at = now\<rparr>);
         ret () } }"

definition probed_domains :: "env \<Rightarrow> certificate \<Rightarrow> cert_state \<Rightarrow> string list" where
  "probed_domains E c st = (let ds = issued_sans E st in if ds = [] then ct_domains c else ds)"

definition probe_cert :: "env \<Rightarrow> loop_env \<Rightarrow> certificate \<Rightarrow> unit pass" where
  "probe_cert E L c =
     (if \<not> le_prober L then ret ()
      else do {
        st \<leftarrow> store_read E (get_cert (ct_name c));
        case st of
          Inl e \<Rightarrow> ret ()
        | Inr None \<Rightarrow> ret ()
        | Inr (Some st) \<Rightarrow>
            if \<not> do_enabled (ct_deploy c) \<or> \<not> c_deploy_confirmed st then ret ()
            else (let hosts = probe_hosts (probed_domains E c st) (le_max_hosts L)
              in if hosts = [] then ret ()
                 else do {
                   stopped \<leftarrow> cancelled E;
                   if stopped then ret () else for_each hosts (probe_host E L (ct_name c)) }) })"

definition reconcile_one :: "env \<Rightarrow> loop_env \<Rightarrow> nat \<Rightarrow> certificate \<Rightarrow> outcome pass" where
  "reconcile_one E L n c = do {
     r \<leftarrow> reconcile E n (config_of c);
     publish E c;
     probe_cert E L c;
     ret r }"

section \<open>Certificates that left the desired state\<close>

definition tear_down_orphan :: "env \<Rightarrow> string \<Rightarrow> unit pass" where
  "tear_down_orphan E name = do {
     st \<leftarrow> store_read E (get_cert name);
     cleanup_err \<leftarrow> cleanup_orphan E name;
     probe_err \<leftarrow> store_try E (\<lambda>_ d. map_option snd (delete_probe_samples name d));
     if isl st \<or> cleanup_err \<noteq> None \<or> probe_err \<noteq> None then ret ()
     else do { store_write E (\<lambda>now d. snd (mark_orphan_cleaned now name d)); ret () } }"

definition orphan_row :: "env \<Rightarrow> loop_env \<Rightarrow> string list \<Rightarrow> string \<times> instant \<times> instant \<Rightarrow> unit pass" where
  "orphan_row E L wanted row =
     (case row of (name, not_after, cleaned) \<Rightarrow>
        if name \<in> set wanted then
          (if cleaned = zero_time then ret ()
           else do { store_write E (\<lambda>_. clear_orphan_cleaned name); ret () })
        else if cleaned \<noteq> zero_time then ret ()
        else do {
          free \<leftarrow> ask (le_free L);
          if free then tear_down_orphan E name else ret () })"

text \<open>The answer is the gauge: the orphans found, torn down or not; \<open>None\<close> leaves it as it was.\<close>

definition publish_orphans :: "env \<Rightarrow> loop_env \<Rightarrow> string list \<Rightarrow> nat option pass" where
  "publish_orphans E L wanted = do {
     rows \<leftarrow> store_read E list_orphan_rows;
     case rows of
       Inl e \<Rightarrow> ret None
     | Inr rows \<Rightarrow> do {
         for_each rows (orphan_row E L wanted);
         ret (Some (length (filter (\<lambda>r. fst r \<notin> set wanted) rows))) } }"

section \<open>The report\<close>

record run_report =
  rp_attempted :: nat
  rp_succeeded :: nat
  rp_backoff :: nat
  rp_failed :: nat
  rp_skipped :: "string list"
  rp_unreadable :: bool

definition empty_report :: run_report where
  "empty_report = \<lparr>rp_attempted = 0, rp_succeeded = 0, rp_backoff = 0, rp_failed = 0, rp_skipped = [], rp_unreadable = False\<rparr>"

definition trouble :: "run_report \<Rightarrow> bool" where
  "trouble r \<longleftrightarrow> rp_failed r > 0 \<or> rp_unreadable r \<or> (rp_attempted r = 0 \<and> (rp_backoff r > 0 \<or> rp_skipped r \<noteq> []))"

definition book_outcome :: "outcome \<Rightarrow> run_report \<Rightarrow> run_report" where
  "book_outcome r rep =
     (case r of
        InBackoff \<Rightarrow> rep\<lparr>rp_backoff := rp_backoff rep + 1\<rparr>
      | Done \<Rightarrow> rep\<lparr>rp_attempted := rp_attempted rep + 1, rp_succeeded := rp_succeeded rep + 1\<rparr>
      | _ \<Rightarrow> rep\<lparr>rp_attempted := rp_attempted rep + 1, rp_failed := rp_failed rep + 1\<rparr>)"

text \<open>The walk; the answer says whether it was cancelled.\<close>

fun run_certs :: "env \<Rightarrow> loop_env \<Rightarrow> nat \<Rightarrow> certificate list \<Rightarrow> run_report \<Rightarrow> (run_report \<times> bool) pass" where
  "run_certs E L n [] rep = ret (rep, False)"
| "run_certs E L n (c # cs) rep = do {
     stopped \<leftarrow> cancelled E;
     if stopped then ret (rep, True)
     else do {
       free \<leftarrow> ask (le_free L);
       if \<not> free then run_certs E L n cs (rep\<lparr>rp_skipped := rp_skipped rep @ [ct_name c]\<rparr>)
       else do {
         r \<leftarrow> reconcile_one E L n c;
         run_certs E L n cs (book_outcome r rep) } } }"

section \<open>A round\<close>

definition retry_revocations :: "env \<Rightarrow> bool \<Rightarrow> unit pass" where
  "retry_revocations E core = do {
     p \<leftarrow> pending_revocations E;
     case p of
       Inl e \<Rightarrow> ret ()
     | Inr k \<Rightarrow> if k = 0 then ret () else retry_pending_revocations E core }"

definition sweep_stuck :: "env \<Rightarrow> unit pass" where
  "sweep_stuck E = do {
     sweep_stuck_txt E;
     store_read E list_stuck_txt_reclaims;
     ret () }"

definition run_detailed :: "env \<Rightarrow> loop_env \<Rightarrow> nat \<Rightarrow> certificate list option \<Rightarrow> run_report pass" where
  "run_detailed E L n res =
     (case res of
        None \<Rightarrow> do {
          reap_retired E;
          retry_revocations E (le_core L);
          ret (empty_report\<lparr>rp_unreadable := True\<rparr>) }
      | Some cs \<Rightarrow> do {
          publish_orphans E L (map ct_name cs);
          (rep, stopped) \<leftarrow> run_certs E L n cs empty_report;
          if stopped then ret rep
          else do {
            reap_retired E;
            retry_revocations E (le_core L);
            sweep_stuck E;
            ret rep } })"

text \<open>\<open>RunCert\<close>: one certificate on the caller's own goroutine.\<close>

datatype run_error = Unavailable | UnknownCert | AlreadyRunning | PassResult outcome

definition run_cert :: "env \<Rightarrow> loop_env \<Rightarrow> nat \<Rightarrow> certificate list option \<Rightarrow> string \<Rightarrow> run_error pass" where
  "run_cert E L n res name =
     (case res of
        None \<Rightarrow> ret Unavailable
      | Some cs \<Rightarrow>
          (case find_cert name cs of
             None \<Rightarrow> ret UnknownCert
           | Some c \<Rightarrow> do {
               free \<leftarrow> ask (le_free L);
               if \<not> free then ret AlreadyRunning
               else do { r \<leftarrow> reconcile_one E L n c; ret (PassResult r) } }))"

section \<open>The scopes of the quota gauges\<close>

definition quota_scopes :: "golib \<Rightarrow> certificate list \<Rightarrow> string \<Rightarrow> string list" where
  "quota_scopes lib cs fam =
     (if fam = ''registered-domain'' then
        sort (dedup (filter (\<lambda>r. r \<noteq> []) (concat (map (\<lambda>c. map (registered_domain lib) (ct_domains c)) cs))))
      else if fam = ''exact-identifier-set'' then
        sort (dedup (filter (\<lambda>k. k \<noteq> []) (map (\<lambda>c. domain_key (ct_domains c)) cs)))
      else if fam = ''identifier'' then sort (dedup (concat (map (\<lambda>c. map to_lower (ct_domains c)) cs)))
      else [])"

section \<open>Probe series of hosts that are no longer probed\<close>

text \<open>
  The first certificate that lists a host decides. \<open>in_flight\<close> are the names held, \<open>confirmed\<close> what the
  store says of a name (\<open>False\<close> when the row is missing or cannot be read).
\<close>

definition host_owner :: "certificate list \<Rightarrow> string \<Rightarrow> string option" where
  "host_owner cs h = map_option ct_name (find (\<lambda>c. h \<in> set (probe_hosts (ct_domains c) (int (length (ct_domains c))))) cs)"

definition series_stale :: "certificate list \<Rightarrow> string list \<Rightarrow> (string \<Rightarrow> bool) \<Rightarrow> string list \<Rightarrow> string \<Rightarrow> bool" where
  "series_stale cs in_flight confirmed current h \<longleftrightarrow>
     h \<notin> set current \<and>
     (case host_owner cs h of
        Some name \<Rightarrow> name \<notin> set in_flight \<and> confirmed name
      | None \<Rightarrow> \<not> (\<exists>n \<in> set in_flight. n \<notin> set (map ct_name cs)))"

definition reclaim_stale_series ::
  "certificate list option \<Rightarrow> string list \<Rightarrow> (string \<Rightarrow> bool) \<Rightarrow> string list \<Rightarrow> string list \<Rightarrow> string list" where
  "reclaim_stale_series res in_flight confirmed current probed =
     (case res of None \<Rightarrow> [] | Some cs \<Rightarrow> filter (series_stale cs in_flight confirmed current) probed)"

definition stuck_txt_lag_seconds :: "authorization list \<Rightarrow> instant \<Rightarrow> rat" where
  "stuck_txt_lag_seconds rows now =
     foldl (\<lambda>oldest a. if a_stuck_since a = zero_time then oldest
       else (let age = of_int (time_sub now (a_stuck_since a)) / of_int ns_second
         in if oldest < age then age else oldest)) 0 rows"

section \<open>What a round does to the database\<close>

fun loop_op :: "store_op \<Rightarrow> bool" where
  "loop_op (MarkOrphan n) = True"
| "loop_op (ClearOrphan n) = True"
| "loop_op (PutProbe p) = True"
| "loop_op (DeleteProbes n) = True"
| "loop_op (RevokeAttempt n e u) = True"
| "loop_op (ClearRevoke n) = True"
| "loop_op x = pass_op x"

lemma pass_loop: "pass_op x \<Longrightarrow> loop_op x"
  by (cases x) simp_all

text \<open>The contract of \<open>pass_db\<close> with the writes of the loop; the passes themselves are left to the client.\<close>

locale loop_db = pass_db D W for D :: "db \<Rightarrow> bool" and W :: "cert_state \<Rightarrow> bool" +
  assumes loop_step: "loop_op x \<Longrightarrow> D d \<Longrightarrow> D (store_step t x d)"
begin

lemmas loop_writes = loop_step [of "MarkOrphan n" for n, simplified] loop_step [of "ClearOrphan n" for n, simplified]
  loop_step [of "ClearRevoke n" for n, simplified]

lemma loop_store [inv]:
  "inv I (store_write E (\<lambda>now d. snd (mark_orphan_cleaned now n d)))"
  "inv I (store_write E (\<lambda>_. clear_orphan_cleaned n))"
  "inv I (store_write E (\<lambda>_. clear_revoke_request n))"
  by (rule store_write_db; erule loop_writes)+

lemma loop_tries [inv]:
  "inv I (store_try E (\<lambda>_. put_probe_sample p))"
  "inv I (store_try E (\<lambda>_ d. map_option snd (delete_probe_samples n d)))"
  "inv I (store_try E (\<lambda>_. record_revoke_attempt n e u))"
proof -
  show "inv I (store_try E (\<lambda>_. put_probe_sample p))"
    by (rule store_try_db) (use loop_step [of "PutProbe p"] in fastforce)
  show "inv I (store_try E (\<lambda>_ d. map_option snd (delete_probe_samples n d)))"
    by (rule store_try_db) (use loop_step [of "DeleteProbes n"] in \<open>fastforce split: option.splits prod.splits\<close>)
  show "inv I (store_try E (\<lambda>_. record_revoke_attempt n e u))"
    by (rule store_try_db) (use loop_step [of "RevokeAttempt n e u"] in fastforce)
qed

lemma revocations_keep [inv]: "inv I (retry_revocations E core)"
  unfolding retry_revocations_def pending_revocations_def retry_pending_revocations_def process_revocation_def
    revocation_material_def archived_der_def book_attempt_def Let_def
  by (intro inv)

lemma publish_keeps [inv]: "inv I (publish E c)"
  unfolding publish_def by (intro inv)

lemma probe_keeps [inv]: "inv I (probe_cert E L c)"
  unfolding probe_cert_def probe_host_def Let_def by (intro inv)

lemma tear_down_keeps [inv]: "inv I (tear_down_orphan E name)"
  unfolding tear_down_orphan_def cleanup_orphan_def by (intro inv)

lemma orphans_keep [inv]: "inv I (publish_orphans E L wanted)"
  unfolding publish_orphans_def orphan_row_def by (intro inv)

lemma sweep_stuck_keeps [inv]: "inv I (sweep_stuck E)"
  unfolding sweep_stuck_def by (intro inv)

lemma one_keeps:
  assumes "inv I (reconcile E n (config_of c))"
  shows "inv I (reconcile_one E L n c)"
  unfolding reconcile_one_def by (intro inv assms)

lemma certs_keep:
  assumes "\<And>c. c \<in> set cs \<Longrightarrow> inv I (reconcile E n (config_of c))"
  shows "inv I (run_certs E L n cs rep)"
  using assms by (induction cs arbitrary: rep) (auto intro!: inv one_keeps)

lemma round_keeps:
  assumes "\<And>cs c. res = Some cs \<Longrightarrow> c \<in> set cs \<Longrightarrow> inv I (reconcile E n (config_of c))"
  shows "inv I (run_detailed E L n res)"
  unfolding run_detailed_def by (intro inv certs_keep assms)

end

interpretation round: loop_db "\<lambda>d. keys_ok d \<and> rows_ok d" "\<lambda>_. True"
  by unfold_locales (rule TrueI db_ok_steps; assumption?)+

lemma material_loop: "loop_op x \<Longrightarrow> material (row_or_new n (store_step t x d)) = material (row_or_new n d)"
proof (cases "pass_op x")
  case True
  then show ?thesis by (rule material_step)
next
  case False
  assume "loop_op x"
  then show ?thesis using False
    by (cases x) (auto simp: row_or_new_def mark_orphan_cleaned_def clear_orphan_cleaned_def get_cert_def row_get_map
      material_def put_probe_sample_def delete_probe_samples_def record_revoke_attempt_def clear_revoke_request_def
      split: option.split)
qed

interpretation kept: loop_db "\<lambda>d. material (row_or_new nm d) = M" "keeps_row nm M" for nm M
  by unfold_locales (simp add: material_loop)

section \<open>The daemon refines the life cycle\<close>

lemma one_cycle:
  assumes "same_keys E E0" "run_state (reconcile_one E L n c) w = (r, w')"
  shows "cycle E0 (abs_certs w) (abs_certs w')"
proof -
  obtain r1 w1 where p: "run_state (reconcile E n (config_of c)) w = (r1, w1)" by fastforce
  let ?after = "do { publish E c; probe_cert E L c; ret r1 }"
  have a: "run_state ?after w1 = (r, w')" using assms(2) p by (simp add: reconcile_one_def)
  have "inv (mat.I nm M) ?after" for nm M by (intro inv)
  from abs_keep [OF this a] show ?thesis using abs_pass [OF assms(1) p] by simp
qed

lemma certs_cycle:
  assumes "same_keys E E0" "run_state (run_certs E L n cs rep) w = (x, w')"
  shows "(cycle E0)\<^sup>*\<^sup>* (abs_certs w) (abs_certs w')"
  using assms(2)
proof (induction cs arbitrary: rep w)
  case Nil
  then show ?case by simp
next
  case (Cons c cs)
  let ?w1 = "w\<lparr>w_tick := Suc (w_tick w)\<rparr>" and ?w2 = "w\<lparr>w_tick := Suc (Suc (w_tick w))\<rparr>"
  have t: "abs_certs ?w1 = abs_certs w" "abs_certs ?w2 = abs_certs w" by (simp_all add: abs_certs_def fun_eq_iff)
  obtain r w3 where p: "run_state (reconcile_one E L n c) ?w2 = (r, w3)" by fastforce
  consider "w' = ?w1" | rep' where "run_state (run_certs E L n cs rep') ?w2 = (x, w')"
    | rep' where "run_state (run_certs E L n cs rep') w3 = (x, w')"
    using Cons.prems p by (auto split: if_splits)
  then show ?case
  proof cases
    case 1
    then show ?thesis using t by simp
  next
    case 2
    from Cons.IH [OF 2] show ?thesis by (simp add: t)
  next
    case 3
    from Cons.IH [OF 3] show ?thesis using one_cycle [OF assms(1) p] by (simp add: t converse_rtranclp_into_rtranclp)
  qed
qed

lemma round_cycle:
  assumes "same_keys E E0" "run_state (run_detailed E L n res) w = (rep, w')"
  shows "(cycle E0)\<^sup>*\<^sup>* (abs_certs w) (abs_certs w')"
proof (cases res)
  case None
  have "inv (mat.I nm M) (run_detailed E L n None)" for nm M by (rule kept.round_keeps) simp
  from abs_keep [OF this assms(2) [unfolded None]] show ?thesis by simp
next
  case (Some cs)
  obtain g w1 where o: "run_state (publish_orphans E L (map ct_name cs)) w = (g, w1)" by fastforce
  obtain x w2 where c: "run_state (run_certs E L n cs empty_report) w1 = (x, w2)" by fastforce
  let ?rest = "case x of (rep, stopped) \<Rightarrow> if stopped then ret rep
     else do { reap_retired E; retry_revocations E (le_core L); sweep_stuck E; ret rep }"
  have r: "run_state ?rest w2 = (rep, w')" using assms(2) Some o c by (simp add: run_detailed_def)
  have "abs_certs w1 = abs_certs w" by (rule abs_keep [OF kept.orphans_keep o])
  moreover have "inv (mat.I nm M) ?rest" for nm M by (intro inv)
  from abs_keep [OF this r] have "abs_certs w' = abs_certs w2" .
  ultimately show ?thesis using certs_cycle [OF assms(1) c] by simp
qed

text \<open>What moves the state of a daemon: rounds, single passes, a restart.\<close>

inductive daemon_step :: "env \<Rightarrow> world \<Rightarrow> world \<Rightarrow> bool" for E0 where
  d_round: "same_keys E E0 \<Longrightarrow> run_state (run_detailed E L n res) w = (rep, w') \<Longrightarrow> daemon_step E0 w w'"
| d_cert: "same_keys E E0 \<Longrightarrow> run_state (run_cert E L n res name) w = (e, w') \<Longrightarrow> daemon_step E0 w w'"
| d_restart: "daemon_step E0 w (restart w)"

lemma daemon_cycle:
  assumes "daemon_step E0 w w'"
  shows "(cycle E0)\<^sup>*\<^sup>* (abs_certs w) (abs_certs w')"
  using assms
proof cases
  case (d_round E L n res rep)
  then show ?thesis by (rule round_cycle)
next
  case (d_cert E L n res name e)
  show ?thesis
  proof (cases "\<exists>cs c. res = Some cs \<and> find_cert name cs = Some c \<and> le_free L (w_tick w)")
    case True
    then obtain cs c where c: "res = Some cs" "find_cert name cs = Some c" "le_free L (w_tick w)" by blast
    let ?w = "w\<lparr>w_tick := Suc (w_tick w)\<rparr>"
    obtain r where "run_state (reconcile_one E L n c) ?w = (r, w')"
      using d_cert(2) c by (auto simp: run_cert_def split: prod.splits)
    from one_cycle [OF d_cert(1) this] have "cycle E0 (abs_certs ?w) (abs_certs w')" .
    moreover have "abs_certs ?w = abs_certs w" by (simp add: abs_certs_def fun_eq_iff)
    ultimately show ?thesis by simp
  next
    case False
    then have "w_db w' = w_db w" using d_cert(2) by (auto simp: run_cert_def split: option.splits if_splits)
    then have "abs_certs w' = abs_certs w" by (simp add: abs_certs_def fun_eq_iff)
    then show ?thesis by simp
  qed
next
  case d_restart
  then have "abs_certs w' = abs_certs w" by (simp add: abs_certs_def restart_def empty_world_def fun_eq_iff)
  then show ?thesis by simp
qed

text \<open>
  C3. The daemon refines the life cycle: a round over any desired state, readable or not, with its
  teardowns, passes, reaping, revocations and sweeps, a single pass on request, and a restart are
  seen from outside as a sequence of renewals, each of one certificate by a chain and key that
  belong together.
\<close>

theorem daemon_refines_cycle:
  assumes "daemon_step E0 w w'"
  shows "(cycle E0)\<^sup>*\<^sup>* (abs_certs w) (abs_certs w')"
  using assms by (rule daemon_cycle)

definition sample_loop :: loop_env where
  "sample_loop = \<lparr>le_free = (\<lambda>_. True), le_core = True, le_prober = False, le_max_hosts = 3, le_probe = (\<lambda>_. None)\<rparr>"

definition loop_cert :: certificate where
  "loop_cert = \<lparr>ct_name = ''c'', ct_domains = [''a.example.com'', ''b.example.com''], ct_profile = ''classic'',
     ct_key_type = ''ec256'', ct_renew_before = [], ct_deploy = \<lparr>do_enabled = True, do_target = [], do_nginx_dir = None\<rparr>,
     ct_fallback = None, ct_export = None, ct_uin = [], ct_renew_before_dur = 30 * 24 * ns_hour\<rparr>"

theorem daemon_refines_cycle_witness:
  "(cycle signed_env)\<^sup>*\<^sup>* (abs_certs (empty_world signed_db))
     (abs_certs (snd (run_state (run_detailed signed_env sample_loop 9 (Some [loop_cert])) (empty_world signed_db))))"
proof -
  obtain rep w' where r: "run_state (run_detailed signed_env sample_loop 9 (Some [loop_cert])) (empty_world signed_db) = (rep, w')"
    by fastforce
  have "same_keys signed_env signed_env" by (simp add: same_keys_def)
  from daemon_refines_cycle [OF daemon_step.d_round [OF this r]] show ?thesis by (simp add: r)
qed

section \<open>An unreadable desired state\<close>

fun epilogue_call :: "call \<Rightarrow> bool" where
  "epilogue_call (DeleteCloud _) = True"
| "epilogue_call (RevokeCertificate _ _) = True"
| "epilogue_call _ = False"

definition only_epilogue :: "call list \<Rightarrow> call list \<Rightarrow> bool" where
  "only_epilogue cs0 cs \<longleftrightarrow> (\<exists>pre. cs = pre @ cs0 \<and> list_all epilogue_call pre)"

interpretation epi: quiet "only_epilogue cs0" "\<lambda>c. \<not> epilogue_call c" for cs0
proof (unfold_locales)
  fix c cs assume "\<not> \<not> epilogue_call c" "only_epilogue cs0 cs"
  then obtain pre where "cs = pre @ cs0" "list_all epilogue_call (c # pre)" by (auto simp: only_epilogue_def)
  then show "only_epilogue cs0 (c # cs)" unfolding only_epilogue_def by (intro exI [of _ "c # pre"]) simp
qed

definition issuance_tables :: "db \<Rightarrow> cert_state list \<times> acme_order list \<times> authorization list" where
  "issuance_tables d = (d_certs d, d_orders d, d_authzs d)"

interpretation tables: db_inv "\<lambda>d. issuance_tables d = x" for x .

lemma tables_writes [inv]:
  "inv (tables.I x) (store_write E (\<lambda>_. delete_retired_cert i))"
  "inv (tables.I x) (store_write E (\<lambda>_. clear_revoke_request n))"
  "inv (tables.I x) (store_try E (\<lambda>_. record_revoke_attempt n e u))"
  by ((rule tables.store_write_db tables.store_try_db);
      auto simp: issuance_tables_def delete_retired_cert_def clear_revoke_request_def record_revoke_attempt_def split: if_splits)+

lemma tables_epilogue: "inv (tables.I x) (reap_retired E)" "inv (tables.I x) (retry_revocations E core)"
  unfolding reap_retired_def reap_one_def retry_revocations_def pending_revocations_def retry_pending_revocations_def
    process_revocation_def revocation_material_def archived_der_def book_attempt_def Let_def
  by (intro inv)+

lemma calls_epilogue: "inv (epi.K cs) (reap_retired E)" "inv (epi.K cs) (retry_revocations E core)"
  unfolding reap_retired_def reap_one_def retry_revocations_def pending_revocations_def retry_pending_revocations_def
    process_revocation_def revocation_material_def archived_der_def book_attempt_def Let_def
  by (intro inv; simp)+

text \<open>
  C4. An unreadable desired state is never an empty one: a round without it touches no certificate,
  order or authorization row, makes no calls but to delete retired certificates and to revoke, and
  reports itself as troubled.
\<close>

theorem unreadable_round_touches_nothing:
  assumes "run_state (run_detailed E L n None) w = (rep, w')"
  shows "d_certs (w_db w') = d_certs (w_db w) \<and> d_orders (w_db w') = d_orders (w_db w) \<and>
    d_authzs (w_db w') = d_authzs (w_db w) \<and>
    (\<exists>pre. w_calls w' = pre @ w_calls w \<and> list_all epilogue_call pre) \<and> trouble rep"
proof -
  have "inv (tables.I (issuance_tables (w_db w))) (run_detailed E L n None)"
    unfolding run_detailed_def option.case by (intro inv tables_epilogue)
  from inv_run [OF this refl assms] have t: "issuance_tables (w_db w') = issuance_tables (w_db w)" .
  have "inv (epi.K (w_calls w)) (run_detailed E L n None)"
    unfolding run_detailed_def option.case by (intro inv calls_epilogue)
  from inv_run [OF this _ assms] have c: "only_epilogue (w_calls w) (w_calls w')" by (simp add: only_epilogue_def)
  have "rep = empty_report\<lparr>rp_unreadable := True\<rparr>" using assms by (auto simp: run_detailed_def split: prod.splits)
  then have "trouble rep" by (simp add: trouble_def)
  then show ?thesis using t c by (simp add: issuance_tables_def only_epilogue_def)
qed

theorem unreadable_round_touches_nothing_witness:
  "trouble (fst (run_state (run_detailed sample_env sample_loop 9 None) (empty_world sample_db)))"
proof -
  obtain rep w' where r: "run_state (run_detailed sample_env sample_loop 9 None) (empty_world sample_db) = (rep, w')"
    by fastforce
  from unreadable_round_touches_nothing [OF this] show ?thesis by (simp add: r)
qed

section \<open>The report accounts for every certificate\<close>

definition accounts :: "string list \<Rightarrow> run_report \<Rightarrow> bool" where
  "accounts names rep \<longleftrightarrow> rp_attempted rep = rp_succeeded rep + rp_failed rep \<and> \<not> rp_unreadable rep \<and>
     rp_attempted rep + rp_backoff rep + length (rp_skipped rep) = length names \<and> subseq (rp_skipped rep) names"

lemma accounts_book: "accounts names rep \<Longrightarrow> accounts (names @ [n]) (book_outcome r rep)"
  by (cases r) (auto simp: accounts_def book_outcome_def intro: list_emb_append2)

lemma accounts_skip: "accounts names rep \<Longrightarrow> accounts (names @ [n]) (rep\<lparr>rp_skipped := rp_skipped rep @ [n]\<rparr>)"
  by (auto simp: accounts_def)

lemma certs_account:
  assumes "accounts done_names rep"
  shows "answers (run_certs E L n cs rep)
    (\<lambda>(rep', stopped). \<exists>k. k \<le> length cs \<and> (\<not> stopped \<longrightarrow> k = length cs) \<and>
       accounts (done_names @ map ct_name (take k cs)) rep')"
  using assms
proof (induction cs arbitrary: rep done_names)
  case Nil
  then show ?case by (simp add: answers_ret)
next
  case (Cons c cs)
  have step: "answers (run_certs E L n cs rep') (\<lambda>(rep', stopped). \<exists>k. k \<le> length (c # cs) \<and>
      (\<not> stopped \<longrightarrow> k = length (c # cs)) \<and> accounts (done_names @ map ct_name (take k (c # cs))) rep')"
    if "accounts (done_names @ [ct_name c]) rep'" for rep'
  proof (rule answers_mono [OF Cons.IH [OF that]], clarify)
    fix rep'' stopped k
    assume "k \<le> length cs" "\<not> stopped \<longrightarrow> k = length cs" "accounts ((done_names @ [ct_name c]) @ map ct_name (take k cs)) rep''"
    then show "\<exists>k. k \<le> length (c # cs) \<and> (\<not> stopped \<longrightarrow> k = length (c # cs)) \<and>
        accounts (done_names @ map ct_name (take k (c # cs))) rep''"
      by (intro exI [of _ "Suc k"]) simp
  qed
  show ?case unfolding run_certs.simps
    by (intro answers_bind_any answers_if step accounts_book accounts_skip Cons.prems answers_ret)
      (use Cons.prems in \<open>auto intro: exI [of _ 0]\<close>)
qed

text \<open>
  C5. The report of a round adds up: its passes succeeded or failed, every certificate the round
  reached was attempted, in its backoff window or skipped, and those are all of them unless the
  context was cancelled, in which case they are the first ones of the list. A round without trouble
  had no failed pass, and where there was anything to do it did some of it.
\<close>

theorem round_report_adds_up:
  assumes "run_state (run_detailed E L n (Some cs)) w = (rep, w')"
  shows "(\<exists>k \<le> length cs. ((\<forall>t. \<not> e_cancelled E t) \<longrightarrow> k = length cs) \<and> accounts (map ct_name (take k cs)) rep)
    \<and> (\<not> trouble rep \<longrightarrow> rp_failed rep = 0 \<and> (rp_attempted rep = 0 \<longrightarrow> rp_backoff rep = 0 \<and> rp_skipped rep = []))"
proof -
  obtain g w1 where o: "run_state (publish_orphans E L (map ct_name cs)) w = (g, w1)" by fastforce
  obtain rep1 stopped w2 where c: "run_state (run_certs E L n cs empty_report) w1 = ((rep1, stopped), w2)"
    by (metis surj_pair)
  have rep: "rep = rep1"
    using assms o c by (auto simp: run_detailed_def split: if_splits prod.splits)
  have "accounts [] empty_report" by (simp add: accounts_def empty_report_def)
  from answers_run [OF certs_account [OF this] c]
  obtain k where k: "k \<le> length cs" "\<not> stopped \<longrightarrow> k = length cs" "accounts (map ct_name (take k cs)) rep1" by auto
  have "\<not> stopped" if "\<forall>t. \<not> e_cancelled E t"
  proof -
    have "answers (run_certs E L n cs r) (\<lambda>x. \<not> snd x)" for r
    proof (induction cs arbitrary: r)
      case (Cons c cs)
      have "run_state (cancelled E) v = (False, v\<lparr>w_tick := Suc (w_tick v)\<rparr>)" for v using that by simp
      then have e: "run_state (do { stopped \<leftarrow> cancelled E; if stopped then ret (r, True) else m }) v =
         run_state m (v\<lparr>w_tick := Suc (w_tick v)\<rparr>)" for v and m :: "(run_report \<times> bool) pass" by simp
      show ?case unfolding answers_def run_certs.simps e
        using Cons by (auto simp: answers_def split: prod.splits)
    qed (simp add: answers_ret)
    from answers_run [OF this c] show ?thesis by simp
  qed
  then show ?thesis using k rep by (auto simp: trouble_def)
qed

theorem round_report_adds_up_witness:
  "accounts [''c''] (fst (run_state (run_detailed sample_env sample_loop 9 (Some [loop_cert])) (empty_world sample_db)))"
proof -
  obtain rep w' where r: "run_state (run_detailed sample_env sample_loop 9 (Some [loop_cert])) (empty_world sample_db) = (rep, w')"
    by fastforce
  have c: "\<forall>t. \<not> e_cancelled sample_env t" by (simp add: sample_env_def)
  from round_report_adds_up [OF r, THEN conjunct1]
  obtain k where "k \<le> length [loop_cert]" "(\<forall>t. \<not> e_cancelled sample_env t) \<longrightarrow> k = length [loop_cert]"
    "accounts (map ct_name (take k [loop_cert])) rep" by blast
  moreover have "ct_name loop_cert = ''c''" by (simp add: loop_cert_def)
  ultimately show ?thesis using c by (simp add: r)
qed

section \<open>A teardown spares the wanted\<close>

text \<open>What a name holds: its authorizations, its order and its certificate but for the orphan mark.\<close>

definition holdings :: "string \<Rightarrow> db \<Rightarrow> authorization list \<times> acme_order option \<times> cert_state option" where
  "holdings m d = (filter (\<lambda>a. a_cert_name a = m) (d_authzs d), get_order m d,
     map_option (\<lambda>c. c\<lparr>c_orphan_cleaned_at := zero_time\<rparr>) (get_cert m d))"

interpretation spared: db_inv "\<lambda>d. holdings m d = x" for m x .

lemma wanted_leases [inv]:
  "inv (spared.I m x) (lease_add f v)" "inv (spared.I m x) (clean_up E d ka)"
  "inv (spared.I m x) (register_recovered_leases E)" "inv (spared.I m x) (release_stale_lease_except E f v y)"
proof -
  show a: "inv (spared.I m x) (lease_add f v)" for f v unfolding lease_add_def by (intro inv spared.modify_db; simp)
  have r: "inv (spared.I m x) (lease_remove f v)" for f v
    unfolding lease_remove_def by (intro inv spared.modify_db; simp)
  show "inv (spared.I m x) (clean_up E d ka)" "inv (spared.I m x) (register_recovered_leases E)"
    "inv (spared.I m x) (release_stale_lease_except E f v y)"
    unfolding clean_up_def register_recovered_leases_def release_stale_lease_except_def by (intro inv a r)+
qed

lemma wanted_reclaim [inv]: "inv (spared.I m x) (remove_authz_txt E a)" "inv (spared.I m x) (reclaim_unpresented_txt E a)"
  unfolding remove_authz_txt_def reclaim_unpresented_txt_def still_propagating_def lookup_txt_def
    release_row_stale_lease_def release_stale_lease_def by (intro inv)+

lemma filter_update_other:
  assumes "n \<noteq> m" and "\<And>a. a_cert_name (f a) = a_cert_name a"
  shows "filter (\<lambda>a. a_cert_name a = m) (map (\<lambda>a. if a_key a = (n, u) then f a else a) as) =
    filter (\<lambda>a. a_cert_name a = m) as"
  using assms by (induction as) (auto simp: a_key_def)

lemma filter_del_other:
  assumes "n \<noteq> m"
  shows "filter (\<lambda>a. a_cert_name a = m) (row_del (\<lambda>a. a_key a = (n, u)) as) = filter (\<lambda>a. a_cert_name a = m) as"
  using assms by (induction as) (auto simp: a_key_def row_del_def)

lemmas filter_other = filter_update_other filter_update_other [unfolded a_key_def prod.inject]
  filter_del_other filter_del_other [unfolded a_key_def prod.inject]

lemma wanted_writes:
  "n \<noteq> m \<Longrightarrow> inv (spared.I m x) (store_write E (\<lambda>_. delete_authorization n u))"
  "n \<noteq> m \<Longrightarrow> inv (spared.I m x) (store_write E (\<lambda>t. mark_txt_reclaim_stuck t n u e))"
  "n \<noteq> m \<Longrightarrow> inv (spared.I m x) (store_write E (\<lambda>_. clear_txt_reclaim_stuck n u))"
  "inv (spared.I m x) (store_try E (\<lambda>_ d. map_option snd (delete_probe_samples n d)))"
  by (rule spared.store_write_db spared.store_try_db;
      auto simp: holdings_def get_order_def get_cert_def delete_authorization_def mark_txt_reclaim_stuck_def
        clear_txt_reclaim_stuck_def update_authz_def delete_probe_samples_def filter_other split: if_splits)+

lemma wanted_marks:
  "inv (spared.I m x) (store_write E (\<lambda>now d. snd (mark_orphan_cleaned now n d)))"
  "inv (spared.I m x) (store_write E (\<lambda>_. clear_orphan_cleaned n))"
  by (rule spared.store_write_db;
      auto simp: holdings_def get_order_def get_cert_def mark_orphan_cleaned_def clear_orphan_cleaned_def row_get_map
        option.map_comp comp_def intro!: option.map_cong)+

lemma wanted_txt:
  assumes "name \<noteq> m"
  shows "inv (spared.I m x) (cleanup_orphan_txt E name)"
proof -
  have row: "inv (spared.I m x) (cleanup_orphan_row E name a)" if "a_cert_name a = name" for a
    unfolding cleanup_orphan_row_def drop_row_def mark_reclaim_stuck_def
    using assms that by (intro inv inv_txt_reclaim wanted_writes; simp)
  have l: "answers (store_read E (list_authorizations name)) (\<lambda>r. \<forall>rows. r = Inr rows \<longrightarrow> (\<forall>a \<in> set rows. a_cert_name a = name))"
    by (rule answers_store_read) (auto simp: list_authorizations_def)
  show ?thesis
    unfolding cleanup_orphan_txt_def
    by (intro inv_bind inv_bind_answers [OF spared.store_read_db l] wanted_leases inv_sum inv_ret inv_for_each) (use row in blast)+
qed

lemma wanted_discard:
  assumes "name \<noteq> m"
  shows "inv (spared.I m x) (discard_order E name)"
proof -
  have tx: "inv (spared.I m x) (store_tx E (orphan_ops name orphan @ [TxDeleteOrder name]))" for orphan
    by (rule spared.store_tx_db)
      (use assms in \<open>auto simp: orphan_ops_def holdings_def get_order_def get_cert_def delete_order_def add_retired_cert_def add_retired_exec_def Let_def rows split: if_splits\<close>)
  show ?thesis
    unfolding discard_order_def orphan_to_record_def clear_order_fetch_failures_def Let_def
    by (intro inv tx wanted_txt assms spared.modify_db; simp)
qed

lemma wanted_orphan_row:
  assumes "m \<in> set wanted"
  shows "inv (spared.I m x) (orphan_row E L wanted row)"
proof -
  have "inv (spared.I m x) (tear_down_orphan E name)" if "name \<noteq> m" for name
    unfolding tear_down_orphan_def cleanup_orphan_def using that by (intro inv wanted_discard wanted_writes wanted_marks)
  moreover have "name \<noteq> m" if "name \<notin> set wanted" for name using assms that by blast
  ultimately show ?thesis unfolding orphan_row_def by (intro inv wanted_marks) blast
qed

text \<open>
  C6. The orphan sweep spares the wanted: whatever else it tears down, with any answers of the DNS
  provider and any failures of the disk, a name of the desired state keeps its authorizations, its
  order and its certificate.
\<close>

theorem orphan_sweep_spares_wanted:
  assumes "m \<in> set wanted" and "run_state (publish_orphans E L wanted) w = (g, w')"
  shows "filter (\<lambda>a. a_cert_name a = m) (d_authzs (w_db w')) = filter (\<lambda>a. a_cert_name a = m) (d_authzs (w_db w))
    \<and> get_order m (w_db w') = get_order m (w_db w)
    \<and> map_option (\<lambda>c. c\<lparr>c_orphan_cleaned_at := zero_time\<rparr>) (get_cert m (w_db w'))
        = map_option (\<lambda>c. c\<lparr>c_orphan_cleaned_at := zero_time\<rparr>) (get_cert m (w_db w))"
proof -
  have "inv (spared.I m (holdings m (w_db w))) (publish_orphans E L wanted)"
    unfolding publish_orphans_def by (intro inv wanted_orphan_row assms(1))
  from inv_run [OF this refl assms(2)] show ?thesis by (simp add: holdings_def)
qed

theorem orphan_sweep_spares_wanted_witness:
  "let d = put_order (signed_order\<lparr>o_cert_name := ''b''\<rparr>) signed_db in
   get_order ''c'' (w_db (snd (run_state (publish_orphans sample_env sample_loop [''c'']) (empty_world d)))) = get_order ''c'' d"
proof -
  let ?d = "put_order (signed_order\<lparr>o_cert_name := ''b''\<rparr>) signed_db"
  obtain g w' where r: "run_state (publish_orphans sample_env sample_loop [''c'']) (empty_world ?d) = (g, w')" by fastforce
  have m: "''c'' \<in> set [''c'']" and d: "w_db (empty_world ?d) = ?d" by (simp_all add: empty_world_def)
  from orphan_sweep_spares_wanted [OF m r] show ?thesis by (simp add: Let_def r d)
qed

section \<open>The gauges cover what is spent\<close>

text \<open>
  Every scope a pass over the full set spends against is published. A reduced set spends against its
  own identifier set, which is not.
\<close>

lemma gauges_cover_spends:
  assumes "c \<in> set cs"
  shows "set (unique_registered_domains lib (ct_domains c)) \<subseteq> set (quota_scopes lib cs ''registered-domain'')"
    and "domain_key (ct_domains c) \<noteq> [] \<Longrightarrow> domain_key (ct_domains c) \<in> set (quota_scopes lib cs ''exact-identifier-set'')"
  using assms by (auto simp: quota_scopes_def unique_registered_domains_def)

lemma reduced_scope_unpublished:
  "domain_key [''a.example.com''] \<notin> set (quota_scopes acme_lib [loop_cert] ''exact-identifier-set'')"
  by code_simp

text \<open>
  A series is never dropped for a host probed in this round, nor for one whose certificate is being
  worked on or is not confirmed as deployed, nor without a desired state.
\<close>

lemma live_series_kept:
  assumes "h \<in> set (reclaim_stale_series res in_flight confirmed current probed)"
  shows "h \<notin> set current \<and> (\<exists>cs. res = Some cs \<and>
    (\<forall>name. host_owner cs h = Some name \<longrightarrow> name \<notin> set in_flight \<and> confirmed name) \<and>
    (host_owner cs h = None \<longrightarrow> set in_flight \<subseteq> set (map ct_name cs)))"
  using assms by (cases res) (auto simp: reclaim_stale_series_def series_stale_def split: option.splits)

end
