(* ===== verification/Declare.thy ===== *)
theory Declare
  imports Group Certs
begin

text \<open>
  A declaration: the TXT record \<open>_wecert.<host>\<close> by which a name asks for a certificate
  (\<open>internal/onboarding/declaration.go\<close>), and what it means.
\<close>

section \<open>Fields\<close>

record dns_declaration =
  dl_hostname :: string
  dl_wildcard :: bool
  dl_profile :: string
  dl_key_type :: string
  dl_deploy :: "bool option"
  dl_zone :: string
  dl_record :: string

datatype declaration_error =
    NoPrefix
  | BadHost name_error
  | WildcardHost
  | BareField string
  | GivenTwice string string string
  | BadVersion string
  | BadBool string string
  | BadProfile string
  | BadKeyType string
  | UnknownKey string

definition declaration_prefix :: string where "declaration_prefix = ''_wecert.''"
definition declaration_version :: string where "declaration_version = ''wecert1''"

definition dl_names :: "dns_declaration \<Rightarrow> string list" where
  "dl_names d = dl_hostname d # (if dl_wildcard d then [''*.'' @ dl_hostname d] else [])"

definition parse_bool :: "string \<Rightarrow> bool option" where
  "parse_bool v =
     (let l = to_lower v in
      if l \<in> {''1'', ''true'', ''yes'', ''on''} then Some True
      else if l \<in> {''0'', ''false'', ''no'', ''off''} then Some False
      else None)"

text \<open>\<open>strings.FieldsFunc\<close>, and the separators and quotes \<open>splitFields\<close> removes.\<close>

fun fields_by :: "(char \<Rightarrow> bool) \<Rightarrow> string \<Rightarrow> string list" where
  "fields_by p [] = [[]]"
| "fields_by p (c # cs) =
     (if p c then [] # fields_by p cs
      else case fields_by p cs of [] \<Rightarrow> [[c]] | f # fs \<Rightarrow> (c # f) # fs)"

definition field_separator :: "char \<Rightarrow> bool" where
  "field_separator c \<longleftrightarrow> c \<in> {CHR '','', CHR '';'', CHR '' ''} \<or> of_char c \<in> {9 :: nat, 10, 13}"

definition trim_quotes :: "string \<Rightarrow> string" where
  "trim_quotes s = (let q = (\<lambda>c. of_char c = (34 :: nat)) in rev (dropWhile q (rev (dropWhile q s))))"

definition split_fields :: "string \<Rightarrow> string list" where
  "split_fields v = filter (\<lambda>f. f \<noteq> []) (fields_by field_separator (trim_quotes (trim_space v)))"

text \<open>\<open>strings.Cut\<close> at the first \<open>=\<close>: key, value, and whether there was one.\<close>

definition cut_field :: "string \<Rightarrow> string \<times> string \<times> bool" where
  "cut_field f =
     (let k = takeWhile (\<lambda>c. c \<noteq> CHR ''='') f
      in (to_lower (trim_space k), trim_space (drop (Suc (length k)) f), CHR ''='' \<in> set f))"

section \<open>Parsing\<close>

definition set_key :: "string \<Rightarrow> string \<Rightarrow> dns_declaration \<Rightarrow> declaration_error + dns_declaration" where
  "set_key key val d =
     (if key = ''v'' then (if val = declaration_version then Inr d else Inl (BadVersion val))
      else if key = ''wildcard'' then
        (case parse_bool val of None \<Rightarrow> Inl (BadBool key val) | Some b \<Rightarrow> Inr (d\<lparr>dl_wildcard := b\<rparr>))
      else if key = ''profile'' then
        (if valid_profile val then Inr (d\<lparr>dl_profile := val\<rparr>) else Inl (BadProfile val))
      else if key = ''keytype'' then
        (if valid_key_type val then Inr (d\<lparr>dl_key_type := val\<rparr>) else Inl (BadKeyType val))
      else if key = ''deploy'' then
        (case parse_bool val of None \<Rightarrow> Inl (BadBool key val) | Some b \<Rightarrow> Inr (d\<lparr>dl_deploy := Some b\<rparr>))
      else Inl (UnknownKey key))"

type_synonym parsing = "dns_declaration \<times> (string \<times> string) list"

definition apply_field :: "string \<Rightarrow> parsing \<Rightarrow> declaration_error + parsing" where
  "apply_field f s =
     (case s of (d, given) \<Rightarrow> case cut_field f of (key, val, has_value) \<Rightarrow>
        if key = [] then Inr s
        else if \<not> has_value then (if key \<noteq> declaration_version then Inl (BareField f) else Inr s)
        else case map_of given key of
            Some prev \<Rightarrow> if prev \<noteq> val then Inl (GivenTwice key prev val)
              else map_sum id (\<lambda>d'. (d', (key, val) # given)) (set_key key val d)
          | None \<Rightarrow> map_sum id (\<lambda>d'. (d', (key, val) # given)) (set_key key val d))"

fun apply_fields :: "string list \<Rightarrow> parsing \<Rightarrow> declaration_error + parsing" where
  "apply_fields [] s = Inr s"
| "apply_fields (f # fs) s = (case apply_field f s of Inl e \<Rightarrow> Inl e | Inr s' \<Rightarrow> apply_fields fs s')"

definition full_record :: "string \<Rightarrow> string" where
  "full_record r = trim_suffix ''.'' (to_lower (trim_space r))"

definition declared_fields :: "string list \<Rightarrow> string list" where
  "declared_fields values = concat (map split_fields values)"

definition parse_declaration ::
  "golib \<Rightarrow> string \<Rightarrow> string \<Rightarrow> string list \<Rightarrow> declaration_error + dns_declaration" where
  "parse_declaration L zone rec values =
     (let full = full_record rec in
      if \<not> prefix declaration_prefix full then Inl NoPrefix
      else case normalize_name L (trim_prefix declaration_prefix full) of
          Inl e \<Rightarrow> Inl (BadHost e)
        | Inr host \<Rightarrow>
            if is_wildcard host then Inl WildcardHost
            else map_sum id fst (apply_fields (declared_fields values)
              (\<lparr>dl_hostname = host, dl_wildcard = False, dl_profile = [], dl_key_type = [], dl_deploy = None,
                dl_zone = zone, dl_record = full\<rparr>, [])))"

section \<open>A declaration is the set of its fields\<close>

text \<open>
  When a field is acceptable: it has no key (and is skipped), is the bare version, or gives a known key
  a value of its kind; and when pairs do not contradict each other.
\<close>

definition value_ok :: "string \<Rightarrow> string \<Rightarrow> bool" where
  "value_ok key val \<longleftrightarrow> key = ''v'' \<and> val = declaration_version \<or>
     (key = ''wildcard'' \<or> key = ''deploy'') \<and> parse_bool val \<noteq> None \<or>
     key = ''profile'' \<and> valid_profile val \<or> key = ''keytype'' \<and> valid_key_type val"

definition field_ok :: "string \<Rightarrow> bool" where
  "field_ok f = (case cut_field f of (key, val, has_value) \<Rightarrow>
     key = [] \<or> (if has_value then value_ok key val else key = declaration_version))"

definition functional :: "('a \<times> 'b) set \<Rightarrow> bool" where
  "functional R \<longleftrightarrow> (\<forall>k v w. (k, v) \<in> R \<longrightarrow> (k, w) \<in> R \<longrightarrow> v = w)"

text \<open>What the pairs make of a declaration, read by key and not in order.\<close>

definition assigned :: "(string \<rightharpoonup> string) \<Rightarrow> dns_declaration \<Rightarrow> dns_declaration" where
  "assigned m d = d\<lparr>
     dl_wildcard := (case m ''wildcard'' of None \<Rightarrow> dl_wildcard d | Some v \<Rightarrow> parse_bool v = Some True),
     dl_profile := (case m ''profile'' of None \<Rightarrow> dl_profile d | Some v \<Rightarrow> v),
     dl_key_type := (case m ''keytype'' of None \<Rightarrow> dl_key_type d | Some v \<Rightarrow> v),
     dl_deploy := (case m ''deploy'' of None \<Rightarrow> dl_deploy d | Some v \<Rightarrow> Some (parse_bool v = Some True))\<rparr>"

lemma set_key_ok: "isl (set_key k v d) \<longleftrightarrow> \<not> value_ok k v"
  by (auto simp: set_key_def value_ok_def split: option.split)

lemma set_key_assigned:
  "set_key k v (assigned m d) = Inr d' \<Longrightarrow> d' = assigned (m(k \<mapsto> v)) d"
  by (cases d) (auto simp: set_key_def assigned_def split: if_splits option.splits)

text \<open>The pairs taken so far, without contradiction, and the declaration they make.\<close>

definition taken :: "dns_declaration \<Rightarrow> (string \<times> string) set \<Rightarrow> parsing \<Rightarrow> bool" where
  "taken d0 R s \<longleftrightarrow> (\<forall>k v. map_of (snd s) k = Some v \<longleftrightarrow> (k, v) \<in> R) \<and> fst s = assigned (map_of (snd s)) d0"

definition field_pairs :: "string \<Rightarrow> (string \<times> string) set" where
  "field_pairs f = (case cut_field f of (k, v, b) \<Rightarrow> if k \<noteq> [] \<and> b then {(k, v)} else {})"

lemma apply_field_taken:
  assumes "taken d0 R s"
  shows "(case apply_field f s of
      Inl e \<Rightarrow> \<not> (field_ok f \<and> functional (R \<union> field_pairs f))
    | Inr s' \<Rightarrow> field_ok f \<and> functional (R \<union> field_pairs f) \<and> taken d0 (R \<union> field_pairs f) s')"
proof -
  obtain d g where s: "s = (d, g)" by (cases s)
  obtain k v b where c: "cut_field f = (k, v, b)" by (cases "cut_field f") auto
  have m: "map_of g k' = Some v' \<longleftrightarrow> (k', v') \<in> R" for k' v' using assms by (simp add: taken_def s)
  have d: "d = assigned (map_of g) d0" using assms by (simp add: taken_def s)
  have fR: "functional R" unfolding functional_def using m by (metis option.inject)
  show ?thesis
  proof (cases "k = [] \<or> \<not> b")
    case True
    then show ?thesis using fR assms by (auto simp: apply_field_def s c field_ok_def field_pairs_def)
  next
    case False
    then have p: "field_pairs f = {(k, v)}" by (simp add: field_pairs_def c)
    have ok: "field_ok f \<longleftrightarrow> \<not> isl (set_key k v d)"
      using False set_key_ok [of k v d] by (simp add: field_ok_def c)
    show ?thesis
    proof (cases "\<exists>w. (k, w) \<in> R \<and> w \<noteq> v")
      case True
      then have "\<not> functional (R \<union> {(k, v)})" by (auto simp: functional_def)
      moreover from True obtain w where "map_of g k = Some w" "w \<noteq> v" using m by blast
      ultimately show ?thesis using False by (simp add: apply_field_def s c p)
    next
      case same: False
      then have fn: "functional (R \<union> {(k, v)})" using fR by (auto simp: functional_def)
      have a: "apply_field f s = map_sum id (\<lambda>d'. (d', (k, v) # g)) (set_key k v d)"
        using False same m by (auto simp: apply_field_def s c split: option.split)
      show ?thesis
      proof (cases "set_key k v d")
        case (Inl e)
        then show ?thesis using ok by (simp add: a)
      next
        case (Inr d')
        have e: "map_of ((k, v) # g) k' = Some v' \<longleftrightarrow> (k', v') \<in> R \<union> {(k, v)}" for k' v'
          using m same by auto
        have "d' = assigned (map_of ((k, v) # g)) d0" using set_key_assigned Inr d by simp
        then have "taken d0 (R \<union> {(k, v)}) (d', (k, v) # g)" unfolding taken_def using e by simp
        then show ?thesis using ok fn Inr by (simp add: a p)
      qed
    qed
  qed
qed

lemma apply_fields_taken:
  assumes "taken d0 R s"
  shows "(case apply_fields fs s of
      Inl e \<Rightarrow> \<not> ((\<forall>f \<in> set fs. field_ok f) \<and> functional (R \<union> \<Union> (field_pairs ` set fs)))
    | Inr s' \<Rightarrow> (\<forall>f \<in> set fs. field_ok f) \<and> functional (R \<union> \<Union> (field_pairs ` set fs)) \<and>
        taken d0 (R \<union> \<Union> (field_pairs ` set fs)) s')"
  using assms
proof (induction fs arbitrary: R s)
  case Nil
  then have "functional R" unfolding functional_def taken_def by (metis option.inject)
  then show ?case using Nil by simp
next
  case (Cons f fs)
  have sub: "functional S" if "functional T" "S \<subseteq> T" for S T :: "(string \<times> string) set"
    using that unfolding functional_def by blast
  show ?case
  proof (cases "apply_field f s")
    case (Inl e)
    then have "\<not> (field_ok f \<and> functional (R \<union> field_pairs f))" using apply_field_taken [OF Cons.prems, of f] by simp
    moreover have "R \<union> field_pairs f \<subseteq> R \<union> \<Union> (field_pairs ` set (f # fs))" by auto
    ultimately show ?thesis using Inl sub by auto
  next
    case (Inr s')
    then have h: "field_ok f" "taken d0 (R \<union> field_pairs f) s'" using apply_field_taken [OF Cons.prems, of f] by simp_all
    have u: "R \<union> field_pairs f \<union> \<Union> (field_pairs ` set fs) = R \<union> \<Union> (field_pairs ` set (f # fs))" by auto
    show ?thesis using Cons.IH [OF h(2), unfolded u] h(1) Inr by (auto split: sum.splits)
  qed
qed

lemma taken_unique: "taken d0 R s \<Longrightarrow> taken d0 R s' \<Longrightarrow> fst s = fst s'"
proof -
  assume a: "taken d0 R s" "taken d0 R s'"
  then have "map_of (snd s) k = map_of (snd s') k" for k
    unfolding taken_def by (metis not_None_eq)
  then have "map_of (snd s) = map_of (snd s')" by blast
  then show ?thesis using a by (simp add: taken_def)
qed

lemma fields_Inr:
  assumes "taken d0 {} s"
  shows "map_sum id fst (apply_fields fs s) = Inr d \<longleftrightarrow>
    (\<forall>f \<in> set fs. field_ok f) \<and> functional (\<Union> (field_pairs ` set fs)) \<and>
    (\<exists>s'. taken d0 (\<Union> (field_pairs ` set fs)) s' \<and> d = fst s')"
proof (cases "apply_fields fs s")
  case (Inl e)
  then have "\<not> ((\<forall>f \<in> set fs. field_ok f) \<and> functional (\<Union> (field_pairs ` set fs)))"
    using apply_fields_taken [OF assms, of fs] by simp
  then show ?thesis unfolding Inl by (simp only: map_sum.simps sum.distinct) blast
next
  case (Inr s')
  then have h: "\<forall>f \<in> set fs. field_ok f" "functional (\<Union> (field_pairs ` set fs))" "taken d0 (\<Union> (field_pairs ` set fs)) s'"
    using apply_fields_taken [OF assms, of fs] by simp_all
  have "(\<exists>s''. taken d0 (\<Union> (field_pairs ` set fs)) s'' \<and> d = fst s'') \<longleftrightarrow> fst s' = d"
    using h(3) taken_unique by metis
  then show ?thesis using h(1,2) Inr by simp
qed

lemma parsed_fields:
  "parse_declaration L zone rec vs = Inr d \<longleftrightarrow>
     (\<exists>host d0. prefix declaration_prefix (full_record rec) \<and>
        normalize_name L (trim_prefix declaration_prefix (full_record rec)) = Inr host \<and> \<not> is_wildcard host \<and>
        d0 = \<lparr>dl_hostname = host, dl_wildcard = False, dl_profile = [], dl_key_type = [], dl_deploy = None,
          dl_zone = zone, dl_record = full_record rec\<rparr> \<and>
        map_sum id fst (apply_fields (declared_fields vs) (d0, [])) = Inr d)"
  by (simp add: parse_declaration_def Let_def split: sum.split)

lemma nothing_taken: "dl_wildcard d = False \<Longrightarrow> taken d {} (d, [])"
  by (cases d) (simp add: taken_def assigned_def)

text \<open>
  C23. A declaration means the set of its fields: however they are spread over TXT values, ordered,
  repeated and separated, the same fields are accepted or refused together and, accepted, declare the
  same; no field with a key is ignored, for a declaration is only accepted when every such field is a
  known key with a value of its own kind, or the bare version, and no key is given two values.
\<close>

theorem declaration_is_its_fields:
  assumes "set (declared_fields vs) = set (declared_fields ws)"
  shows "(parse_declaration L zone rec vs = Inr d \<longleftrightarrow> parse_declaration L zone rec ws = Inr d) \<and>
    (parse_declaration L zone rec vs = Inr d \<longrightarrow> (\<forall>f \<in> set (declared_fields vs). field_ok f) \<and>
       functional (\<Union> (field_pairs ` set (declared_fields vs))))"
proof -
  have eq: "map_sum id fst (apply_fields (declared_fields vs) (d0, [])) = Inr d \<longleftrightarrow>
      map_sum id fst (apply_fields (declared_fields ws) (d0, [])) = Inr d"
    "map_sum id fst (apply_fields (declared_fields vs) (d0, [])) = Inr d \<Longrightarrow>
      (\<forall>f \<in> set (declared_fields vs). field_ok f) \<and> functional (\<Union> (field_pairs ` set (declared_fields vs)))"
    if "dl_wildcard d0 = False" for d0
    using fields_Inr [OF nothing_taken [OF that], of "declared_fields vs" d]
      fields_Inr [OF nothing_taken [OF that], of "declared_fields ws" d] unfolding assms by blast+
  show ?thesis unfolding parsed_fields using eq by (metis (no_types, lifting) dns_declaration.select_convs(2))
qed

theorem declaration_is_its_fields_witness:
  "\<exists>d. parse_declaration sample_lib ''z'' ''_wecert.a.example.com.'' [''v=wecert1;wildcard=1'', ''keytype=rsa2048''] = Inr d \<and>
    parse_declaration sample_lib ''z'' ''_wecert.a.example.com.'' [''KeyType=rsa2048, wildcard=1 v=wecert1''] = Inr d"
proof -
  let ?vs = "[''v=wecert1;wildcard=1'', ''keytype=rsa2048'']" and ?ws = "[''keytype=rsa2048, wildcard=1 v=wecert1'']"
  have "set (declared_fields ?vs) = set (declared_fields ?ws)" by code_simp
  from declaration_is_its_fields [OF this, of sample_lib "''z''" "''_wecert.a.example.com.''"]
  have "parse_declaration sample_lib ''z'' ''_wecert.a.example.com.'' ?vs = Inr d \<longleftrightarrow>
    parse_declaration sample_lib ''z'' ''_wecert.a.example.com.'' ?ws = Inr d" for d by blast
  moreover have "\<not> isl (parse_declaration sample_lib ''z'' ''_wecert.a.example.com.'' ?vs)" by code_simp
  moreover have "parse_declaration sample_lib ''z'' ''_wecert.a.example.com.'' [''KeyType=rsa2048, wildcard=1 v=wecert1'']
    = parse_declaration sample_lib ''z'' ''_wecert.a.example.com.'' ?ws" by code_simp
  ultimately show ?thesis by (metis sum.collapse(2))
qed

end
