(* ===== verification/Onboard.thy ===== *)
theory Onboard
  imports Declare Desired
begin

text \<open>
  The onboarding round (\<open>internal/onboarding\<close>): declarations and the load balancers' rules become
  the desired-state document, through the fuse on abrupt loss, the allowlist, the rule guard, the
  grace period of deletions and the budget of changes. A round is a function of the clock, the
  persisted state, the previous document and the answers of the two sources; what it decides is a
  record that \<open>commit\<close> writes. A reason is a value here, its wording left out.
\<close>

section \<open>State between rounds\<close>

record onboard_state =
  os_absent :: "string \<rightharpoonup> instant"
  os_revision :: string
  os_names :: "string list"
  os_declared :: "string list"
  os_changes :: "instant list"
  os_updated :: instant

definition first_state :: onboard_state where
  "first_state = \<lparr>os_absent = Map.empty, os_revision = [], os_names = [], os_declared = [], os_changes = [],
     os_updated = zero_time\<rparr>"

definition mark_present :: "string \<Rightarrow> onboard_state \<Rightarrow> onboard_state" where
  "mark_present n st = st\<lparr>os_absent := (os_absent st)(n := None)\<rparr>"

text \<open>The earliest instant the name was seen absent, and the state that remembers it.\<close>

definition mark_absent :: "string \<Rightarrow> instant \<Rightarrow> onboard_state \<Rightarrow> instant \<times> onboard_state" where
  "mark_absent n now st =
     (case os_absent st n of
        Some t \<Rightarrow> (t, st)
      | None \<Rightarrow> (now, st\<lparr>os_absent := (os_absent st)(n \<mapsto> now)\<rparr>))"

definition record_change :: "instant \<Rightarrow> onboard_state \<Rightarrow> onboard_state" where
  "record_change now st = st\<lparr>os_changes := os_changes st @ [now]\<rparr>"

definition changes_within :: "duration \<Rightarrow> instant \<Rightarrow> onboard_state \<Rightarrow> nat \<times> onboard_state" where
  "changes_within window now st =
     (let kept = filter (\<lambda>t. \<not> t < now - window) (os_changes st)
      in (length kept, st\<lparr>os_changes := kept\<rparr>))"

definition set_last_names :: "string list \<Rightarrow> onboard_state \<Rightarrow> onboard_state" where
  "set_last_names ns st = st\<lparr>os_names := sort ns\<rparr>"

definition set_last_declared :: "string list \<Rightarrow> onboard_state \<Rightarrow> onboard_state" where
  "set_last_declared ns st = st\<lparr>os_declared := sort ns\<rparr>"

definition last_declared_names :: "onboard_state \<Rightarrow> string set" where
  "last_declared_names st = set (if os_declared st = [] then os_names st else os_declared st)"

section \<open>Options\<close>

record onboard_options =
  oo_document_path :: string
  oo_state_path :: string
  oo_report_path :: string
  oo_generator :: string
  oo_profile :: string
  oo_key_type :: string
  oo_deploy :: bool
  oo_max_names :: int
  oo_require_rule :: bool
  oo_allowlist :: "string list"
  oo_threshold :: go_float
  oo_grace :: duration
  oo_window :: duration
  oo_budget :: int
  oo_blocked :: "string \<rightharpoonup> instant"
  oo_force :: bool

datatype option_error =
    NoSource | NoDocumentPath | SamePath string string | BadOptionProfile string | BadOptionKeyType string
  | NegativeOption string | BadThreshold

definition same_path :: "(string \<Rightarrow> string) \<Rightarrow> string \<Rightarrow> string \<Rightarrow> bool" where
  "same_path clean a b \<longleftrightarrow> a \<noteq> [] \<and> b \<noteq> [] \<and> clean a = clean b"

definition default_threshold :: rat where "default_threshold = 3 / 10"
definition default_grace :: duration where "default_grace = 24 * ns_hour"
definition default_window :: duration where "default_window = 7 * 24 * ns_hour"
definition default_budget :: int where "default_budget = 25"

text \<open>\<open>NaN\<close> and the infinities are \<open>NonFinite\<close> and refused with every fraction outside \<open>[0, 1)\<close>.\<close>

definition checked_threshold :: "go_float \<Rightarrow> rat option" where
  "checked_threshold x =
     (case x of
        NonFinite \<Rightarrow> None
      | Finite r \<Rightarrow> if r < 0 then None else if r = 0 then Some default_threshold else if 1 \<le> r then None else Some r)"

text \<open>\<open>New\<close>, on whether a declaration source is given; \<open>clean\<close> is \<open>filepath.Clean\<close>.\<close>

definition new_onboarder ::
  "golib \<Rightarrow> (string \<Rightarrow> string) \<Rightarrow> bool \<Rightarrow> onboard_options \<Rightarrow> option_error + onboard_options" where
  "new_onboarder L clean source opt =
     (let profile = (if oo_profile opt = [] then ''classic'' else oo_profile opt);
          key = (if oo_key_type opt = [] then ''ecdsa-p256'' else oo_key_type opt)
      in if \<not> source then Inl NoSource
         else if oo_document_path opt = [] then Inl NoDocumentPath
         else if same_path clean (oo_state_path opt) (oo_document_path opt) then Inl (SamePath ''StatePath'' ''DocumentPath'')
         else if same_path clean (oo_report_path opt) (oo_document_path opt) then Inl (SamePath ''ReportPath'' ''DocumentPath'')
         else if same_path clean (oo_report_path opt) (oo_state_path opt) then Inl (SamePath ''ReportPath'' ''StatePath'')
         else if \<not> valid_profile profile then Inl (BadOptionProfile profile)
         else if \<not> valid_key_type key then Inl (BadOptionKeyType key)
         else if oo_max_names opt < 0 then Inl (NegativeOption ''MaxNames'')
         else case checked_threshold (oo_threshold opt) of
           None \<Rightarrow> Inl BadThreshold
         | Some th \<Rightarrow>
             if oo_grace opt < 0 then Inl (NegativeOption ''GracePeriod'')
             else if oo_window opt < 0 then Inl (NegativeOption ''BudgetWindow'')
             else if oo_budget opt < 0 then Inl (NegativeOption ''Budget'')
             else Inr (opt\<lparr>oo_profile := profile, oo_key_type := key,
               oo_max_names := (if oo_max_names opt = 0 then 25 else oo_max_names opt),
               oo_threshold := Finite th,
               oo_grace := (if oo_grace opt = 0 then default_grace else oo_grace opt),
               oo_window := (if oo_window opt = 0 then default_window else oo_window opt),
               oo_budget := (if oo_budget opt = 0 then default_budget else oo_budget opt),
               oo_allowlist := sort (map (\<lambda>a. registered_domain L (to_lower (trim_space a))) (oo_allowlist opt))\<rparr>))"

section \<open>One round\<close>

datatype round_mode = WrittenRound | UnchangedRound | FrozenRound

datatype group_cause = OverLimit group_error | SettingsConflict string string string

datatype freeze_reason =
    SourceFailed string
  | NoRuleSourceConfigured
  | Shrunk nat nat
  | Ungroupable group_error
  | CannotCover string group_error
  | CannotKeep string group_cause nat
  | CameOutEmpty
  | CaBlocked string instant
  | BudgetExhausted nat

datatype reason =
    NotAllowed string
  | NotServed
  | Unparseable declaration_error
  | ConflictingRecords string string string string
  | RemovedByForce
  | KeptByGuard duration
  | KeptByGrace duration
  | KeptWithoutRules duration
  | KeptByReference duration
  | RemovedAfter duration
  | StillDeclared "reason option"
  | Inexpressible group_cause
  | KeptAtPrevious group_cause
  | CoveredBy string "reason option"
  | DeclaredAs bool

record verdict =
  vd_host :: string
  vd_included :: bool
  vd_reason :: reason
  vd_cert :: string

datatype rule_answer = RuleList "string list" | RulesIncomplete | RulesFailed

record raw_declaration =
  rw_zone :: string
  rw_record :: string
  rw_values :: "string list"

text \<open>\<open>oi_rules\<close>: \<open>None\<close> when no rule source is configured.\<close>

record onboard_input =
  oi_now :: instant
  oi_declarations :: "string + raw_declaration list"
  oi_rules :: "rule_answer option"

record evaluation =
  ro_state :: onboard_state
  ro_prev :: "desired_document option"
  ro_mode :: round_mode
  ro_freezes :: "freeze_reason list"
  ro_guard_unavailable :: bool
  ro_guard_incomplete :: bool
  ro_rules :: "string set"
  ro_declarations :: "dns_declaration list"
  ro_verdicts :: "verdict list"
  ro_reasons :: "string \<rightharpoonup> reason"
  ro_eligible :: "string set"
  ro_accepted :: "string set"
  ro_removed :: "string set"
  ro_certs :: "certificate list"
  ro_revision :: string
  ro_document :: "desired_document option"
  ro_drop :: nat
  ro_carried :: nat

definition new_round :: "onboard_state \<Rightarrow> desired_document option \<Rightarrow> evaluation" where
  "new_round st prev = \<lparr>ro_state = st, ro_prev = prev, ro_mode = WrittenRound, ro_freezes = [],
     ro_guard_unavailable = False, ro_guard_incomplete = False, ro_rules = {}, ro_declarations = [],
     ro_verdicts = [], ro_reasons = Map.empty, ro_eligible = {}, ro_accepted = {}, ro_removed = {},
     ro_certs = [], ro_revision = [], ro_document = None, ro_drop = 0, ro_carried = 0\<rparr>"

abbreviation frozen :: "evaluation \<Rightarrow> bool" where "frozen r \<equiv> ro_mode r = FrozenRound"

definition freeze :: "freeze_reason \<Rightarrow> evaluation \<Rightarrow> evaluation" where
  "freeze why r =
     (let r' = r\<lparr>ro_mode := FrozenRound, ro_freezes := ro_freezes r @ [why]\<rparr>
      in case ro_prev r of None \<Rightarrow> r' | Some d \<Rightarrow> r'\<lparr>ro_document := Some d, ro_revision := dd_revision d\<rparr>)"

text \<open>One verdict per name: an exclusion keeps its first reason, and an inclusion replaces it.\<close>

definition excluded :: "string \<Rightarrow> evaluation \<Rightarrow> verdict option" where
  "excluded n r = find (\<lambda>v. vd_host v = n \<and> \<not> vd_included v) (ro_verdicts r)"

definition reject :: "string \<Rightarrow> reason \<Rightarrow> evaluation \<Rightarrow> evaluation" where
  "reject n why r =
     (if excluded n r \<noteq> None then r
      else r\<lparr>ro_verdicts := ro_verdicts r @ [\<lparr>vd_host = n, vd_included = False, vd_reason = why, vd_cert = []\<rparr>]\<rparr>)"

definition unreject :: "string \<Rightarrow> evaluation \<Rightarrow> evaluation" where
  "unreject n r = r\<lparr>ro_verdicts := filter (\<lambda>v. \<not> (vd_host v = n \<and> \<not> vd_included v)) (ro_verdicts r)\<rparr>"

definition include_name :: "verdict \<Rightarrow> evaluation \<Rightarrow> evaluation" where
  "include_name v r = (let r' = unreject (vd_host v) r in r'\<lparr>ro_verdicts := ro_verdicts r' @ [v]\<rparr>)"

definition carry :: "string \<Rightarrow> reason \<Rightarrow> evaluation \<Rightarrow> evaluation" where
  "carry n why r = r\<lparr>ro_eligible := insert n (ro_eligible r), ro_reasons := (ro_reasons r)(n \<mapsto> why),
     ro_carried := ro_carried r + 1\<rparr>"

section \<open>Gathering\<close>

definition document_names :: "desired_document \<Rightarrow> string list" where
  "document_names d = concat (map ct_domains (dd_certs d))"

definition recover_baseline :: "evaluation \<Rightarrow> evaluation" where
  "recover_baseline r =
     (case ro_prev r of
        None \<Rightarrow> r
      | Some d \<Rightarrow>
          if os_names (ro_state r) \<noteq> [] then r
          else (let names = dedup (document_names d)
            in if names = [] then r
               else (let st = set_last_names names (ro_state r)
                 in r\<lparr>ro_state := (if os_declared st = [] then set_last_declared names st else st)\<rparr>)))"

definition host_of_record :: "golib \<Rightarrow> string \<Rightarrow> string" where
  "host_of_record L rec =
     (let full = full_record rec
      in if \<not> prefix declaration_prefix full then full
         else case normalize_name L (trim_prefix declaration_prefix full) of
             Inl e \<Rightarrow> trim_prefix declaration_prefix full
           | Inr host \<Rightarrow> host)"

definition same_settings :: "dns_declaration \<Rightarrow> dns_declaration \<Rightarrow> bool" where
  "same_settings a b \<longleftrightarrow> dl_wildcard a = dl_wildcard b \<and> dl_profile a = dl_profile b \<and>
     dl_key_type a = dl_key_type b \<and> dl_deploy a = dl_deploy b"

text \<open>The declarations by host, the hosts a conflict has poisoned, and the round.\<close>

type_synonym parse_state = "(string \<times> dns_declaration) list \<times> string set \<times> evaluation"

definition parse_record :: "golib \<Rightarrow> raw_declaration \<Rightarrow> parse_state \<Rightarrow> parse_state" where
  "parse_record L rw s =
     (case s of (by_host, poisoned, r) \<Rightarrow>
        case parse_declaration L (rw_zone rw) (rw_record rw) (rw_values rw) of
          Inl e \<Rightarrow>
            (let host = host_of_record L (rw_record rw)
             in if map_of by_host host \<noteq> None then s else (by_host, poisoned, reject host (Unparseable e) r))
        | Inr d \<Rightarrow>
            if dl_hostname d \<in> poisoned then s
            else case map_of by_host (dl_hostname d) of
                Some p \<Rightarrow>
                  if same_settings p d then s
                  else (filter (\<lambda>x. fst x \<noteq> dl_hostname d) by_host, insert (dl_hostname d) poisoned,
                    reject (dl_hostname d) (ConflictingRecords (dl_record p) (dl_zone p) (dl_record d) (dl_zone d)) r)
              | None \<Rightarrow> ((dl_hostname d, d) # by_host, poisoned, unreject (dl_hostname d) r))"

definition parse_records :: "golib \<Rightarrow> raw_declaration list \<Rightarrow> evaluation \<Rightarrow> evaluation" where
  "parse_records L raws r =
     (case fold (parse_record L) raws ([], {}, r) of (by_host, poisoned, r') \<Rightarrow>
        r'\<lparr>ro_declarations := sort_key dl_hostname (map snd by_host)\<rparr>)"

definition load_rules :: "onboard_options \<Rightarrow> rule_answer option \<Rightarrow> evaluation \<Rightarrow> evaluation" where
  "load_rules opt src r =
     (case src of
        None \<Rightarrow> if oo_require_rule opt then freeze NoRuleSourceConfigured r else r
      | Some RulesIncomplete \<Rightarrow> r\<lparr>ro_guard_unavailable := True, ro_guard_incomplete := True\<rparr>
      | Some RulesFailed \<Rightarrow> r\<lparr>ro_guard_unavailable := True\<rparr>
      | Some (RuleList ds) \<Rightarrow>
          r\<lparr>ro_rules := set (filter (\<lambda>n. n \<noteq> []) (map (\<lambda>d. to_lower (trim_suffix ''.'' (trim_space d))) ds))\<rparr>)"

definition gather :: "golib \<Rightarrow> onboard_options \<Rightarrow> onboard_input \<Rightarrow> evaluation \<Rightarrow> evaluation" where
  "gather L opt i r =
     (case oi_declarations i of
        Inl e \<Rightarrow> freeze (SourceFailed e) r
      | Inr raws \<Rightarrow> load_rules opt (oi_rules i) (parse_records L raws r))"

section \<open>The fuse\<close>

definition declared_names :: "evaluation \<Rightarrow> string list" where
  "declared_names r = concat (map dl_names (ro_declarations r))"

definition document_reflects :: "desired_document \<Rightarrow> string set \<Rightarrow> bool" where
  "document_reflects d now \<longleftrightarrow> set (document_names d) \<subseteq> now"

definition threshold_of :: "onboard_options \<Rightarrow> rat" where
  "threshold_of opt = (case oo_threshold opt of Finite r \<Rightarrow> r | NonFinite \<Rightarrow> 0)"

definition fuse :: "(rat \<Rightarrow> rat) \<Rightarrow> onboard_options \<Rightarrow> evaluation \<Rightarrow> evaluation" where
  "fuse fl opt r =
     (let prev = last_declared_names (ro_state r); now = set (declared_names r); lost = card (prev - now)
      in if oo_force opt \<or> prev = {} \<or> lost = 0 then r
         else (let r' = r\<lparr>ro_drop := lost\<rparr>
           in if fl (of_nat lost / of_nat (card prev)) \<le> threshold_of opt then r'
              else (case ro_prev r of
                  Some d \<Rightarrow> if document_reflects d now then r'\<lparr>ro_state := set_last_declared (declared_names r) (ro_state r)\<rparr>
                    else freeze (Shrunk (card prev) (card now)) r'
                | None \<Rightarrow> freeze (Shrunk (card prev) (card now)) r')))"

section \<open>The allowlist and the rule guard\<close>

definition allowed :: "golib \<Rightarrow> onboard_options \<Rightarrow> string \<Rightarrow> bool" where
  "allowed L opt host \<longleftrightarrow> oo_allowlist opt = [] \<or>
     (let reg = registered_domain L host; i = search_strings (oo_allowlist opt) reg
      in i < length (oo_allowlist opt) \<and> oo_allowlist opt ! i = reg)"

definition served_by_rule :: "string set \<Rightarrow> string \<Rightarrow> bool" where
  "served_by_rule rules n \<longleftrightarrow> n \<in> rules \<or>
     (if is_wildcard n then \<exists>rd \<in> rules. wildcard_covers n rd
      else \<exists>rd \<in> rules. is_wildcard rd \<and> wildcard_covers rd n)"

definition any_name_served :: "string set \<Rightarrow> dns_declaration \<Rightarrow> bool" where
  "any_name_served rules d \<longleftrightarrow> (\<exists>n \<in> set (dl_names d). served_by_rule rules n)"

definition resolve_one :: "golib \<Rightarrow> onboard_options \<Rightarrow> dns_declaration \<Rightarrow> evaluation \<Rightarrow> evaluation" where
  "resolve_one L opt d r =
     (if \<not> allowed L opt (dl_hostname d) then
        fold (\<lambda>n. reject n (NotAllowed (registered_domain L (dl_hostname d)))) (dl_names d) r
      else if oo_require_rule opt \<and> \<not> ro_guard_unavailable r \<and> \<not> any_name_served (ro_rules r) d then
        fold (\<lambda>n. reject n NotServed) (dl_names d) r
      else r\<lparr>ro_accepted := insert (dl_hostname d) (ro_accepted r),
             ro_eligible := ro_eligible r \<union> set (dl_names d)\<rparr>)"

section \<open>The grace period\<close>

definition keep_declared :: "string \<Rightarrow> evaluation \<Rightarrow> evaluation" where
  "keep_declared n r =
     (let why = StillDeclared (map_option vd_reason (excluded n r))
      in carry n why (unreject n (r\<lparr>ro_state := mark_present n (ro_state r)\<rparr>)))"

definition referenced :: "onboard_input \<Rightarrow> evaluation \<Rightarrow> string \<Rightarrow> bool" where
  "referenced i r n \<longleftrightarrow> ro_guard_unavailable r \<or> oi_rules i = None \<or> served_by_rule (ro_rules r) n"

definition judge_absent :: "onboard_options \<Rightarrow> onboard_input \<Rightarrow> string \<Rightarrow> evaluation \<Rightarrow> evaluation" where
  "judge_absent opt i n r =
     (case mark_absent n (oi_now i) (ro_state r) of (since, st) \<Rightarrow>
        let age = time_sub (oi_now i) since; r' = r\<lparr>ro_state := st\<rparr>
        in if oo_force opt then (reject n RemovedByForce r')\<lparr>ro_removed := insert n (ro_removed r)\<rparr>
           else if ro_guard_unavailable r then carry n (KeptByGuard age) r'
           else if age < oo_grace opt then carry n (KeptByGrace age) r'
           else if oi_rules i = None then carry n (KeptWithoutRules age) r'
           else if referenced i r n then carry n (KeptByReference age) r'
           else (reject n (RemovedAfter age) r')\<lparr>ro_removed := insert n (ro_removed r)\<rparr>)"

definition apply_grace :: "onboard_options \<Rightarrow> onboard_input \<Rightarrow> evaluation \<Rightarrow> evaluation" where
  "apply_grace opt i r =
     (let present = ro_eligible r;
          absent = sort (filter (\<lambda>n. n \<notin> present) (dedup (os_names (ro_state r))));
          still = filter (\<lambda>n. n \<in> set (declared_names r)) absent;
          gone = filter (\<lambda>n. n \<notin> set (declared_names r)) absent;
          r' = fold (judge_absent opt i) gone (fold keep_declared still r);
          st = ro_state r'
      in r'\<lparr>ro_state := st\<lparr>os_absent := (os_absent st |` (- present)) |` set gone\<rparr>\<rparr>)"

definition resolve :: "golib \<Rightarrow> onboard_options \<Rightarrow> onboard_input \<Rightarrow> evaluation \<Rightarrow> evaluation" where
  "resolve L opt i r = apply_grace opt i (fold (resolve_one L opt) (ro_declarations r) r)"

section \<open>Building the certificates\<close>

definition group_name_cap :: "int \<Rightarrow> string \<Rightarrow> int" where
  "group_name_cap configured profile =
     (let pm = int (max_names profile) in if 0 < pm \<and> (configured \<le> 0 \<or> pm < configured) then pm else configured)"

definition settings_still_apply :: "evaluation \<Rightarrow> dns_declaration \<Rightarrow> bool" where
  "settings_still_apply r d \<longleftrightarrow> (\<exists>n \<in> set (dl_names d). n \<in> ro_eligible r)"

text \<open>Profile, key type and deploy flag; \<open>None\<close> while no declaration of the group has set one.\<close>

type_synonym settings = "string option \<times> string option \<times> bool option"

definition add_settings :: "dns_declaration \<Rightarrow> settings \<Rightarrow> group_cause + settings" where
  "add_settings d s =
     (case s of (p, k, dep) \<Rightarrow>
        if dl_profile d \<noteq> [] \<and> p \<noteq> None \<and> p \<noteq> Some (dl_profile d) then
          Inl (SettingsConflict ''profile'' (the p) (dl_profile d))
        else if dl_key_type d \<noteq> [] \<and> k \<noteq> None \<and> k \<noteq> Some (dl_key_type d) then
          Inl (SettingsConflict ''keyType'' (the k) (dl_key_type d))
        else if dl_deploy d \<noteq> None \<and> dep \<noteq> None \<and> dep \<noteq> dl_deploy d then
          Inl (SettingsConflict ''deploy'' (show_bool (the dep)) (show_bool (the (dl_deploy d))))
        else Inr (if dl_profile d = [] then p else Some (dl_profile d),
          if dl_key_type d = [] then k else Some (dl_key_type d),
          if dl_deploy d = None then dep else dl_deploy d))"

fun all_settings :: "dns_declaration list \<Rightarrow> settings \<Rightarrow> group_cause + settings" where
  "all_settings [] s = Inr s"
| "all_settings (d # ds) s = (case add_settings d s of Inl e \<Rightarrow> Inl e | Inr s' \<Rightarrow> all_settings ds s')"

definition group_settings ::
  "golib \<Rightarrow> onboard_options \<Rightarrow> evaluation \<Rightarrow> group \<Rightarrow> group_cause + string \<times> string \<times> bool" where
  "group_settings L opt r g =
     (let ds = filter (\<lambda>d. (dl_hostname d \<in> ro_accepted r \<or> settings_still_apply r d) \<and>
            registered_domain L (dl_hostname d) = g_registered g) (ro_declarations r)
      in map_sum id (\<lambda>(p, k, dep).
           (case p of None \<Rightarrow> oo_profile opt | Some x \<Rightarrow> x, case k of None \<Rightarrow> oo_key_type opt | Some x \<Rightarrow> x,
            case dep of None \<Rightarrow> oo_deploy opt | Some x \<Rightarrow> x)) (all_settings ds (None, None, None)))"

definition group_members :: "group \<Rightarrow> string list" where
  "group_members g = g_names g @ g_wildcards g"

definition previous_cert :: "evaluation \<Rightarrow> string \<Rightarrow> certificate option" where
  "previous_cert r name = (case ro_prev r of None \<Rightarrow> None | Some d \<Rightarrow> find_cert name (dd_certs d))"

text \<open>\<open>None\<close>: the previous revision has nothing to keep.\<close>

definition keep_previous :: "onboard_options \<Rightarrow> group \<Rightarrow> group_cause \<Rightarrow> evaluation \<Rightarrow> evaluation option" where
  "keep_previous opt g cause r =
     (case previous_cert r (g_name g) of
        None \<Rightarrow> None
      | Some prev \<Rightarrow>
          (let domains = filter (\<lambda>n. n \<notin> ro_removed r) (ct_domains prev)
           in if domains = [] then None
              else if int (length domains) > group_name_cap (oo_max_names opt) (ct_profile prev) then
                Some (freeze (CannotKeep (g_name g) cause (length domains)) r)
              else (let r' = fold (\<lambda>n. include_name \<lparr>vd_host = n, vd_included = True,
                       vd_reason = KeptAtPrevious cause, vd_cert = g_name g\<rparr>)
                     (group_members g) (r\<lparr>ro_certs := ro_certs r @ [prev\<lparr>ct_domains := domains\<rparr>]\<rparr>)
                   in Some (r'\<lparr>ro_carried := ro_carried r' + length (group_members g)\<rparr>))))"

definition over_limit :: "onboard_options \<Rightarrow> group \<Rightarrow> group_cause \<Rightarrow> evaluation \<Rightarrow> evaluation" where
  "over_limit opt g cause r =
     (case keep_previous opt g cause r of
        Some r' \<Rightarrow> r'
      | None \<Rightarrow> fold (\<lambda>n. reject n (Inexpressible cause)) (group_members g) r)"

definition new_certificate :: "string \<Rightarrow> string list \<Rightarrow> string \<Rightarrow> string \<Rightarrow> bool \<Rightarrow> certificate" where
  "new_certificate name domains profile key deploy =
     \<lparr>ct_name = name, ct_domains = domains, ct_profile = profile, ct_key_type = key, ct_renew_before = [],
      ct_deploy = \<lparr>do_enabled = deploy, do_target = [], do_nginx_dir = None\<rparr>, ct_fallback = None,
      ct_export = None, ct_uin = [], ct_renew_before_dur = 0\<rparr>"

definition member_reason :: "onboard_options \<Rightarrow> coverage \<Rightarrow> evaluation \<Rightarrow> string \<Rightarrow> reason" where
  "member_reason opt cov r n =
     (case cov_covered cov n of
        Some w \<Rightarrow> CoveredBy w (ro_reasons r n)
      | None \<Rightarrow>
          (case ro_reasons r n of
             Some why \<Rightarrow> why
           | None \<Rightarrow> DeclaredAs (oo_require_rule opt \<and> \<not> is_wildcard n)))"

definition add_group ::
  "onboard_options \<Rightarrow> group \<Rightarrow> coverage \<Rightarrow> string \<times> string \<times> bool \<Rightarrow> evaluation \<Rightarrow> evaluation" where
  "add_group opt g cov s r =
     (case s of (profile, key, deploy) \<Rightarrow>
        fold (\<lambda>n. include_name \<lparr>vd_host = n, vd_included = True, vd_reason = member_reason opt cov r n,
            vd_cert = g_name g\<rparr>) (group_members g)
          (r\<lparr>ro_certs := ro_certs r @ [new_certificate (g_name g) (cov_domains cov) profile key deploy]\<rparr>))"

fun build_groups :: "golib \<Rightarrow> onboard_options \<Rightarrow> group list \<Rightarrow> evaluation \<Rightarrow> evaluation" where
  "build_groups L opt [] r = r"
| "build_groups L opt (g # gs) r =
     (case group_settings L opt r g of
        Inl cause \<Rightarrow>
          (let r' = over_limit opt g cause r in if frozen r' then r' else build_groups L opt gs r')
      | Inr s \<Rightarrow>
          (case cover (group_name_cap (oo_max_names opt) (fst s)) g of
             Inl e \<Rightarrow>
               (case e of
                  TooManyNames _ _ _ \<Rightarrow>
                    (let r' = over_limit opt g (OverLimit e) r in if frozen r' then r' else build_groups L opt gs r')
                | _ \<Rightarrow> freeze (CannotCover (g_name g) e) r)
           | Inr cov \<Rightarrow> build_groups L opt gs (add_group opt g cov s r)))"

definition build :: "golib \<Rightarrow> onboard_options \<Rightarrow> evaluation \<Rightarrow> evaluation" where
  "build L opt r =
     (case group_by L (sorted_list_of_set (ro_eligible r)) of
        Inl e \<Rightarrow> freeze (Ungroupable e) r
      | Inr gs \<Rightarrow> build_groups L opt gs r)"

section \<open>The budget\<close>

definition blocked_domain :: "golib \<Rightarrow> onboard_options \<Rightarrow> instant \<Rightarrow> certificate list \<Rightarrow> (string \<times> instant) option" where
  "blocked_domain L opt now cs =
     (case find (\<lambda>n. case oo_blocked opt (registered_domain L n) of Some until \<Rightarrow> now < until | None \<Rightarrow> False)
            (concat (map ct_domains cs)) of
        None \<Rightarrow> None
      | Some n \<Rightarrow> Some (registered_domain L n, the (oo_blocked opt (registered_domain L n))))"

definition budget ::
  "golib \<Rightarrow> (rat \<Rightarrow> rat) \<Rightarrow> (string \<Rightarrow> nat list) \<Rightarrow> onboard_options \<Rightarrow> instant \<Rightarrow> evaluation \<Rightarrow> evaluation" where
  "budget L fl sha opt now r0 =
     (let rev = revision fl sha (ro_certs r0);
          r = r0\<lparr>ro_revision := rev\<rparr>;
          st = ro_state r;
          prev_rev = (case ro_prev r of None \<Rightarrow> [] | Some d \<Rightarrow> dd_revision d);
          changed = (rev \<noteq> os_revision st \<and> rev \<noteq> prev_rev) \<or> (prev_rev \<noteq> [] \<and> rev \<noteq> prev_rev)
      in if \<not> changed then
           (if rev \<noteq> os_revision st then r\<lparr>ro_state := set_last_declared (declared_names r) st\<rparr> else r)
             \<lparr>ro_mode := UnchangedRound\<rparr>
         else if oo_force opt then r\<lparr>ro_state := record_change now st\<rparr>
         else case blocked_domain L opt now (ro_certs r) of
             Some (reg, until) \<Rightarrow> freeze (CaBlocked reg until) r
           | None \<Rightarrow>
               (case changes_within (oo_window opt) now st of (used, st') \<Rightarrow>
                  if oo_budget opt \<le> int used then freeze (BudgetExhausted used) (r\<lparr>ro_state := st'\<rparr>)
                  else r\<lparr>ro_state := record_change now st'\<rparr>))"

definition assemble :: "onboard_options \<Rightarrow> instant \<Rightarrow> evaluation \<Rightarrow> evaluation" where
  "assemble opt now r =
     (let st = snd (changes_within (oo_window opt) now (ro_state r));
          st' = set_last_declared (declared_names r)
            ((set_last_names (sorted_list_of_set (ro_eligible r)) st)\<lparr>os_revision := ro_revision r, os_updated := now\<rparr>)
      in r\<lparr>ro_state := st', ro_document := Some \<lparr>dd_api_version = ''wecert/v1'', dd_kind = ''DesiredState'',
        dd_generated_at = now, dd_generator = oo_generator opt, dd_revision = ro_revision r, dd_certs = ro_certs r\<rparr>\<rparr>)"

section \<open>The whole round and what it writes\<close>

definition unless_frozen :: "(evaluation \<Rightarrow> evaluation) \<Rightarrow> evaluation \<Rightarrow> evaluation" where
  "unless_frozen f r = (if frozen r then r else f r)"

definition refuse_empty :: "evaluation \<Rightarrow> evaluation" where
  "refuse_empty r = (if ro_certs r = [] then freeze CameOutEmpty r else r)"

definition sort_verdicts :: "verdict list \<Rightarrow> verdict list" where
  "sort_verdicts vs = sort_key vd_host (sort_key vd_cert vs)"

definition evaluate ::
  "golib \<Rightarrow> (rat \<Rightarrow> rat) \<Rightarrow> (string \<Rightarrow> nat list) \<Rightarrow> onboard_options \<Rightarrow> onboard_input \<Rightarrow>
   onboard_state \<Rightarrow> desired_document option \<Rightarrow> evaluation" where
  "evaluate L fl sha opt i st prev =
     (let r = gather L opt i (recover_baseline (new_round st prev));
          r = unless_frozen (fuse fl opt) r;
          r = unless_frozen (resolve L opt i) r;
          r = unless_frozen (build L opt) r;
          r = unless_frozen refuse_empty r;
          r = unless_frozen (budget L fl sha opt (oi_now i)) r;
          r = unless_frozen (assemble opt (oi_now i)) r
      in r\<lparr>ro_verdicts := sort_verdicts (ro_verdicts r)\<rparr>)"

text \<open>
  What is on disk: the document, the state, and whether the last round's report was written. The
  state file may be missing (the first state then). \<open>Run\<close> refuses to start when either cannot be read.
\<close>

record disk =
  dk_document :: "desired_document option"
  dk_state :: onboard_state

datatype run_refused = StateUnreadable string | DocumentUnreadable string

definition start_round ::
  "golib \<Rightarrow> (rat \<Rightarrow> rat) \<Rightarrow> (string \<Rightarrow> nat list) \<Rightarrow> onboard_options \<Rightarrow> onboard_input \<Rightarrow>
   string + onboard_state \<Rightarrow> string + desired_document option \<Rightarrow> run_refused + evaluation" where
  "start_round L fl sha opt i state doc =
     (case state of
        Inl e \<Rightarrow> Inl (StateUnreadable e)
      | Inr st \<Rightarrow>
          (case doc of Inl e \<Rightarrow> Inl (DocumentUnreadable e) | Inr prev \<Rightarrow> Inr (evaluate L fl sha opt i st prev)))"

text \<open>
  \<open>Commit\<close>: the document first and validated, then the state; \<open>saves\<close> says whether the document and
  the state could be written. The answer is whether the report follows.
\<close>

definition commit ::
  "golib \<Rightarrow> (rat \<Rightarrow> rat) \<Rightarrow> (string \<Rightarrow> nat list) \<Rightarrow> onboard_options \<Rightarrow> instant \<Rightarrow> bool \<times> bool \<Rightarrow>
   evaluation \<Rightarrow> disk \<Rightarrow> bool \<times> disk" where
  "commit L fl sha opt now saves r d =
     (if frozen r then (True, d)
      else case ro_document r of
          None \<Rightarrow> (False, d)
        | Some doc \<Rightarrow>
            (case validate_document L fl sha now doc of
               Inl e \<Rightarrow> (False, d)
             | Inr doc' \<Rightarrow>
                 if \<not> fst saves then (False, d)
                 else (let d' = d\<lparr>dk_document := Some doc'\<rparr>
                   in if oo_state_path opt = [] then (True, d')
                      else if \<not> snd saves then (False, d')
                      else (True, d'\<lparr>dk_state := ro_state r\<rparr>))))"

end
