(* ===== verification/OnboardProps.thy ===== *)
theory OnboardProps
  imports Onboard
begin

text \<open>
  What an onboarding round guarantees: nothing is written without a full answer and past the fuse, a
  covered name only goes after its grace period and the reference check, every covered name was
  authorised, changes stay within the budget, and every name has one verdict.
\<close>

section \<open>What the steps leave alone\<close>

named_theorems frame \<open>fields a step of the round does not touch\<close>

lemma reject_frame [frame]:
  "ro_state (reject n why r) = ro_state r" "ro_prev (reject n why r) = ro_prev r"
  "ro_mode (reject n why r) = ro_mode r" "ro_declarations (reject n why r) = ro_declarations r"
  "ro_eligible (reject n why r) = ro_eligible r" "ro_accepted (reject n why r) = ro_accepted r"
  "ro_removed (reject n why r) = ro_removed r" "ro_certs (reject n why r) = ro_certs r"
  "ro_rules (reject n why r) = ro_rules r" "ro_guard_unavailable (reject n why r) = ro_guard_unavailable r"
  "ro_revision (reject n why r) = ro_revision r"
  by (simp_all add: reject_def)

lemma unreject_frame [frame]:
  "ro_state (unreject n r) = ro_state r" "ro_prev (unreject n r) = ro_prev r"
  "ro_mode (unreject n r) = ro_mode r" "ro_declarations (unreject n r) = ro_declarations r"
  "ro_eligible (unreject n r) = ro_eligible r" "ro_accepted (unreject n r) = ro_accepted r"
  "ro_removed (unreject n r) = ro_removed r" "ro_certs (unreject n r) = ro_certs r"
  "ro_rules (unreject n r) = ro_rules r" "ro_guard_unavailable (unreject n r) = ro_guard_unavailable r"
  "ro_revision (unreject n r) = ro_revision r"
  by (simp_all add: unreject_def)

lemma include_frame [frame]:
  "ro_state (include_name v r) = ro_state r" "ro_prev (include_name v r) = ro_prev r"
  "ro_mode (include_name v r) = ro_mode r" "ro_declarations (include_name v r) = ro_declarations r"
  "ro_eligible (include_name v r) = ro_eligible r" "ro_accepted (include_name v r) = ro_accepted r"
  "ro_removed (include_name v r) = ro_removed r" "ro_certs (include_name v r) = ro_certs r"
  "ro_rules (include_name v r) = ro_rules r" "ro_guard_unavailable (include_name v r) = ro_guard_unavailable r"
  "ro_revision (include_name v r) = ro_revision r"
  by (simp_all add: include_name_def Let_def frame)

lemma carry_frame [frame]:
  "ro_state (carry n why r) = ro_state r" "ro_prev (carry n why r) = ro_prev r"
  "ro_mode (carry n why r) = ro_mode r" "ro_declarations (carry n why r) = ro_declarations r"
  "ro_eligible (carry n why r) = insert n (ro_eligible r)" "ro_accepted (carry n why r) = ro_accepted r"
  "ro_removed (carry n why r) = ro_removed r" "ro_certs (carry n why r) = ro_certs r"
  "ro_rules (carry n why r) = ro_rules r" "ro_guard_unavailable (carry n why r) = ro_guard_unavailable r"
  "ro_verdicts (carry n why r) = ro_verdicts r" "ro_revision (carry n why r) = ro_revision r"
  by (simp_all add: carry_def)

lemma freeze_frame [frame]:
  "ro_state (freeze why r) = ro_state r" "ro_mode (freeze why r) = FrozenRound"
  "ro_verdicts (freeze why r) = ro_verdicts r" "ro_certs (freeze why r) = ro_certs r"
  "ro_declarations (freeze why r) = ro_declarations r" "ro_prev (freeze why r) = ro_prev r"
  "ro_eligible (freeze why r) = ro_eligible r"
  by (simp_all add: freeze_def Let_def split: option.split)

lemma fold_frame:
  assumes "\<And>x r. f (g x r) = f r"
  shows "f (fold g xs r) = f r"
  by (induction xs arbitrary: r) (simp_all add: assms)

lemma fold_keeps:
  assumes "\<And>x r. x \<in> set xs \<Longrightarrow> P r \<Longrightarrow> P (g x r)" and "P r"
  shows "P (fold g xs r)"
  using assms by (induction xs arbitrary: r) simp_all

text \<open>What the steps after gathering see of it.\<close>

definition seen :: "evaluation \<Rightarrow> dns_declaration list \<times> desired_document option \<times> string set \<times> bool" where
  "seen r = (ro_declarations r, ro_prev r, ro_rules r, ro_guard_unavailable r)"

lemma seen_frame [frame]:
  "seen (reject n why r) = seen r" "seen (unreject n r) = seen r" "seen (include_name v r) = seen r"
  "seen (carry n why r) = seen r"
  by (simp_all add: seen_def frame)

lemma seen_resolve_one [frame]: "seen (resolve_one L opt d r) = seen r"
proof -
  have "seen (fold (\<lambda>n. reject n why) ns r) = seen r" for ns why by (rule fold_frame) (simp add: frame)
  then show ?thesis by (simp add: resolve_one_def) (simp add: seen_def)
qed

lemma seen_keep [frame]: "seen (keep_declared n r) = seen r"
  by (simp add: keep_declared_def Let_def frame) (simp add: seen_def)

lemma seen_judge [frame]: "seen (judge_absent opt i n r) = seen r"
  by (cases "mark_absent n (oi_now i) (ro_state r)") (simp add: judge_absent_def Let_def frame seen_def)

lemma seen_resolve: "seen (resolve L opt i r) = seen r"
proof -
  have "seen (apply_grace opt i x) = seen x" for x
  proof -
    have "seen (fold (judge_absent opt i) gone (fold keep_declared still x)) = seen x" for gone still
      by (simp add: fold_frame frame)
    then show ?thesis by (simp add: apply_grace_def Let_def) (simp add: seen_def)
  qed
  moreover have "seen (fold (resolve_one L opt) ds r) = seen r" for ds by (rule fold_frame) (simp add: frame)
  ultimately show ?thesis by (simp add: resolve_def)
qed

section \<open>Through the stages\<close>

text \<open>A round that did not freeze went through every stage unfrozen.\<close>

definition gathered :: "golib \<Rightarrow> onboard_options \<Rightarrow> onboard_input \<Rightarrow> onboard_state \<Rightarrow> desired_document option \<Rightarrow> evaluation" where
  "gathered L opt i st prev = gather L opt i (recover_baseline (new_round st prev))"

lemma unless_frozen_thaw: "\<not> frozen (unless_frozen f r) \<Longrightarrow> \<not> frozen r \<and> unless_frozen f r = f r"
  by (auto simp: unless_frozen_def split: if_splits)

lemma stages:
  assumes "\<not> frozen (evaluate L fl sha opt i st prev)"
  obtains r1 r2 r3 r4 where
    "\<not> frozen (gathered L opt i st prev)"
    "r1 = fuse fl opt (gathered L opt i st prev)" "\<not> frozen r1"
    "r2 = resolve L opt i r1" "\<not> frozen r2"
    "r3 = build L opt r2" "\<not> frozen r3" "ro_certs r3 \<noteq> []"
    "r4 = budget L fl sha opt (oi_now i) r3" "\<not> frozen r4"
    "evaluate L fl sha opt i st prev =
       (assemble opt (oi_now i) r4)\<lparr>ro_verdicts := sort_verdicts (ro_verdicts (assemble opt (oi_now i) r4))\<rparr>"
proof -
  let ?r0 = "gathered L opt i st prev"
  let ?r1 = "unless_frozen (fuse fl opt) ?r0"
  let ?r2 = "unless_frozen (resolve L opt i) ?r1"
  let ?r3 = "unless_frozen (build L opt) ?r2"
  let ?r4 = "unless_frozen refuse_empty ?r3"
  let ?r5 = "unless_frozen (budget L fl sha opt (oi_now i)) ?r4"
  let ?r6 = "unless_frozen (assemble opt (oi_now i)) ?r5"
  have e: "evaluate L fl sha opt i st prev = ?r6\<lparr>ro_verdicts := sort_verdicts (ro_verdicts ?r6)\<rparr>"
    by (simp add: evaluate_def gathered_def Let_def)
  then have "\<not> frozen ?r6" using assms by simp
  note 6 = unless_frozen_thaw [OF this]
  note 5 = unless_frozen_thaw [OF 6 [THEN conjunct1]]
  note 4 = unless_frozen_thaw [OF 5 [THEN conjunct1]]
  note 3 = unless_frozen_thaw [OF 4 [THEN conjunct1]]
  note 2 = unless_frozen_thaw [OF 3 [THEN conjunct1]]
  note 1 = unless_frozen_thaw [OF 2 [THEN conjunct1]]
  have ne: "ro_certs ?r3 \<noteq> [] \<and> ?r4 = ?r3"
    using 4 5 by (auto simp: refuse_empty_def frame split: if_splits)
  show thesis
  proof (rule that)
    show "\<not> frozen ?r0" using 1 by blast
    show "?r1 = fuse fl opt ?r0" "\<not> frozen ?r1" using 1 2 by blast+
    show "?r2 = resolve L opt i ?r1" "\<not> frozen ?r2" using 2 3 by blast+
    show "?r3 = build L opt ?r2" "\<not> frozen ?r3" using 3 4 by blast+
    show "ro_certs ?r3 \<noteq> []" using ne by blast
    show "?r5 = budget L fl sha opt (oi_now i) ?r3" "\<not> frozen ?r5" using ne 5 6 by auto
    show "evaluate L fl sha opt i st prev =
       (assemble opt (oi_now i) ?r5)\<lparr>ro_verdicts := sort_verdicts (ro_verdicts (assemble opt (oi_now i) ?r5))\<rparr>"
      using e 6 by simp
  qed
qed

section \<open>Nothing is written without grounds\<close>

definition recovered :: "onboard_state \<Rightarrow> desired_document option \<Rightarrow> onboard_state" where
  "recovered st prev = ro_state (recover_baseline (new_round st prev))"

lemma recover_frame: "ro_prev (recover_baseline r) = ro_prev r" "ro_mode (recover_baseline r) = ro_mode r"
  "ro_verdicts (recover_baseline r) = ro_verdicts r" "ro_eligible (recover_baseline r) = ro_eligible r"
  "os_absent (ro_state (recover_baseline r)) = os_absent (ro_state r)"
  "os_changes (ro_state (recover_baseline r)) = os_changes (ro_state r)"
  "ro_guard_unavailable (recover_baseline r) = ro_guard_unavailable r" "ro_certs (recover_baseline r) = ro_certs r"
  by (simp_all add: recover_baseline_def Let_def set_last_names_def set_last_declared_def split: option.split)

text \<open>What a run over the records sees of the round: all that \<open>reject\<close> and \<open>unreject\<close> leave alone.\<close>

lemma parse_fold:
  assumes "\<And>n why r. f (reject n why r) = f r" and "\<And>n r. f (unreject n r) = f r"
    and "\<And>r ds. f (r\<lparr>ro_declarations := ds\<rparr>) = f r"
  shows "f (parse_records L raws r) = f r"
proof -
  have one: "f (snd (snd (parse_record L rw s))) = f (snd (snd s))" for rw s
    by (cases s) (simp add: parse_record_def assms(1,2) Let_def split: sum.split option.split)
  obtain b q r' where s: "fold (parse_record L) raws ([], {}, r) = (b, q, r')" by (metis surj_pair)
  have "f (snd (snd (fold (parse_record L) raws s))) = f (snd (snd s))" for s
    by (induction raws arbitrary: s) (simp_all add: one)
  from this [of "([], {}, r)"] have "f r' = f r" by (simp add: s)
  then show ?thesis by (simp add: parse_records_def s assms(3))
qed

lemma parse_frame: "ro_state (parse_records L raws r) = ro_state r" "ro_prev (parse_records L raws r) = ro_prev r"
  "ro_eligible (parse_records L raws r) = ro_eligible r" "ro_certs (parse_records L raws r) = ro_certs r"
  "ro_guard_unavailable (parse_records L raws r) = ro_guard_unavailable r"
  by (rule parse_fold; simp add: frame)+

lemma load_rules_frame: "ro_state (load_rules opt src r) = ro_state r" "ro_prev (load_rules opt src r) = ro_prev r"
  "ro_eligible (load_rules opt src r) = ro_eligible r" "ro_certs (load_rules opt src r) = ro_certs r"
  "ro_verdicts (load_rules opt src r) = ro_verdicts r" "ro_declarations (load_rules opt src r) = ro_declarations r"
  by (auto simp: load_rules_def frame split: option.split rule_answer.split)

lemma gathered_frame: "ro_state (gathered L opt i st prev) = recovered st prev" "ro_prev (gathered L opt i st prev) = prev"
  "ro_eligible (gathered L opt i st prev) = {}" "ro_certs (gathered L opt i st prev) = []"
  by (auto simp: gathered_def gather_def recovered_def recover_frame parse_frame load_rules_frame frame new_round_def
    split: sum.split)

lemma gathered_answer: "\<not> frozen (gathered L opt i st prev) \<Longrightarrow> \<exists>raws. oi_declarations i = Inr raws"
  by (auto simp: gathered_def gather_def frame split: sum.splits)

lemma fuse_frame: "ro_declarations (fuse fl opt r) = ro_declarations r" "ro_prev (fuse fl opt r) = ro_prev r"
  "ro_eligible (fuse fl opt r) = ro_eligible r" "ro_certs (fuse fl opt r) = ro_certs r"
  "os_absent (ro_state (fuse fl opt r)) = os_absent (ro_state r)"
  "os_names (ro_state (fuse fl opt r)) = os_names (ro_state r)"
  "os_changes (ro_state (fuse fl opt r)) = os_changes (ro_state r)"
  "ro_verdicts (fuse fl opt r) = ro_verdicts r"
  by (auto simp: fuse_def Let_def frame set_last_declared_def split: option.split)

lemma seen_parts: "seen r = seen s \<Longrightarrow> ro_declarations r = ro_declarations s \<and> ro_prev r = ro_prev s \<and>
  ro_rules r = ro_rules s \<and> ro_guard_unavailable r = ro_guard_unavailable s"
  by (simp add: seen_def)

lemmas seen_resolved = seen_parts [OF seen_resolve]

lemma over_frame: "ro_state (over_limit opt g c r) = ro_state r" "ro_eligible (over_limit opt g c r) = ro_eligible r"
  "ro_declarations (over_limit opt g c r) = ro_declarations r" "ro_prev (over_limit opt g c r) = ro_prev r"
  by (auto simp: over_limit_def keep_previous_def Let_def frame fold_frame split: option.splits)

lemma add_group_frame: "ro_state (add_group opt g cov s r) = ro_state r" "ro_eligible (add_group opt g cov s r) = ro_eligible r"
  "ro_declarations (add_group opt g cov s r) = ro_declarations r" "ro_prev (add_group opt g cov s r) = ro_prev r"
  "ro_mode (add_group opt g cov s r) = ro_mode r"
  by (auto simp: add_group_def frame fold_frame split: prod.splits)

lemma build_frame: "ro_state (build L opt r) = ro_state r" "ro_eligible (build L opt r) = ro_eligible r"
  "ro_declarations (build L opt r) = ro_declarations r" "ro_prev (build L opt r) = ro_prev r"
proof -
  have "ro_state (build_groups L opt gs r) = ro_state r \<and> ro_eligible (build_groups L opt gs r) = ro_eligible r \<and>
      ro_declarations (build_groups L opt gs r) = ro_declarations r \<and> ro_prev (build_groups L opt gs r) = ro_prev r" for gs
    by (induction gs arbitrary: r)
      (simp_all add: Let_def frame over_frame add_group_frame split: sum.split group_error.split)
  then show "ro_state (build L opt r) = ro_state r" "ro_eligible (build L opt r) = ro_eligible r"
    "ro_declarations (build L opt r) = ro_declarations r" "ro_prev (build L opt r) = ro_prev r"
    by (simp_all add: build_def frame split: sum.split)
qed

lemma budget_frame: "ro_eligible (budget L fl sha opt now r) = ro_eligible r"
  "ro_declarations (budget L fl sha opt now r) = ro_declarations r"
  "ro_certs (budget L fl sha opt now r) = ro_certs r" "ro_prev (budget L fl sha opt now r) = ro_prev r"
  "os_absent (ro_state (budget L fl sha opt now r)) = os_absent (ro_state r)"
  by (auto simp: budget_def Let_def frame changes_within_def record_change_def set_last_declared_def split: option.splits)

text \<open>
  C20. A round is only written on grounds: its declaration source answered in full, it has
  certificates, and unless it was forced the declarations lost at most the threshold's share of what
  was declared before, or the document on disk already names nothing else. Any other round leaves the
  document and the state as they are.
\<close>

theorem written_round_is_grounded:
  assumes "commit L fl sha opt now saves (evaluate L fl sha opt i st prev) dk = (ok, dk')" and "dk' \<noteq> dk"
  shows "(\<exists>raws. oi_declarations i = Inr raws) \<and> ro_certs (evaluate L fl sha opt i st prev) \<noteq> [] \<and>
    (oo_force opt \<or>
     (let before = last_declared_names (recovered st prev);
          declared = set (declared_names (evaluate L fl sha opt i st prev))
      in before \<subseteq> declared \<or> fl (of_nat (card (before - declared)) / of_nat (card before)) \<le> threshold_of opt \<or>
        (\<exists>d. prev = Some d \<and> set (document_names d) \<subseteq> declared)))"
proof -
  have nf: "\<not> frozen (evaluate L fl sha opt i st prev)" using assms by (auto simp: commit_def)
  from stages [OF nf] obtain r1 r2 r3 r4 where s:
    "\<not> frozen (gathered L opt i st prev)"
    "r1 = fuse fl opt (gathered L opt i st prev)" "\<not> frozen r1"
    "r2 = resolve L opt i r1" "\<not> frozen r2"
    "r3 = build L opt r2" "\<not> frozen r3" "ro_certs r3 \<noteq> []"
    "r4 = budget L fl sha opt (oi_now i) r3" "\<not> frozen r4"
    "evaluate L fl sha opt i st prev =
       (assemble opt (oi_now i) r4)\<lparr>ro_verdicts := sort_verdicts (ro_verdicts (assemble opt (oi_now i) r4))\<rparr>" .
  let ?D = "set (declared_names (gathered L opt i st prev))" and ?B = "last_declared_names (recovered st prev)"
  have decl: "declared_names (evaluate L fl sha opt i st prev) = declared_names (gathered L opt i st prev)"
    unfolding s(11) by (simp add: declared_names_def assemble_def Let_def s(2,4,6,9) budget_frame build_frame seen_resolved fuse_frame)
  have certs: "ro_certs (evaluate L fl sha opt i st prev) \<noteq> []"
    unfolding s(11) using s(8) by (simp add: assemble_def Let_def s(9) budget_frame)
  have fin: "finite ?B" by (simp add: last_declared_names_def)
  have "oo_force opt \<or> ?B = {} \<or> card (?B - ?D) = 0 \<or> fl (of_nat (card (?B - ?D)) / of_nat (card ?B)) \<le> threshold_of opt \<or>
      (\<exists>d. prev = Some d \<and> set (document_names d) \<subseteq> ?D)"
    using s(3) unfolding s(2) fuse_def Let_def gathered_frame document_reflects_def
    by (auto simp: frame split: if_splits option.splits)
  moreover have "card (?B - ?D) = 0 \<longleftrightarrow> ?B \<subseteq> ?D" using fin by auto
  ultimately show ?thesis using gathered_answer [OF s(1)] certs by (auto simp: decl Let_def)
qed

section \<open>Deletions\<close>

text \<open>What the code asks before it lets an undeclared name go.\<close>

definition may_go :: "onboard_options \<Rightarrow> onboard_input \<Rightarrow> evaluation \<Rightarrow> string \<Rightarrow> bool" where
  "may_go opt i r n \<longleftrightarrow> oo_force opt \<or>
     (\<not> ro_guard_unavailable r \<and> oi_rules i \<noteq> None \<and> \<not> served_by_rule (ro_rules r) n \<and>
      \<not> time_sub (oi_now i) (fst (mark_absent n (oi_now i) (ro_state r))) < oo_grace opt)"

lemma mark_absent_marks: "os_absent (snd (mark_absent m now st)) n = Some t \<Longrightarrow> os_absent st n = Some t \<or> t = now"
  by (auto simp: mark_absent_def split: option.splits if_splits)

lemma mark_absent_other: "m \<noteq> n \<Longrightarrow> os_absent (snd (mark_absent m now st)) n = os_absent st n"
  by (simp add: mark_absent_def split: option.split)

lemma judge_state: "ro_state (judge_absent opt i n r) = snd (mark_absent n (oi_now i) (ro_state r))"
  by (cases "mark_absent n (oi_now i) (ro_state r)") (simp add: judge_absent_def Let_def frame)

lemma judge_eligible:
  "ro_eligible (judge_absent opt i n r) = (if may_go opt i r n then ro_eligible r else insert n (ro_eligible r))"
  by (cases "mark_absent n (oi_now i) (ro_state r)")
    (simp add: judge_absent_def Let_def frame may_go_def referenced_def)

lemma may_go_cong:
  assumes "seen r = seen r'" and "os_absent (ro_state r) n = os_absent (ro_state r') n"
  shows "may_go opt i r n = may_go opt i r' n"
  using assms seen_parts [OF assms(1)] by (simp add: may_go_def mark_absent_def split: option.split)

lemma may_go_judged: "m \<noteq> n \<Longrightarrow> may_go opt i (judge_absent opt i m r) n = may_go opt i r n"
  by (rule may_go_cong) (simp_all add: seen_judge judge_state mark_absent_other)

lemma fold_eligible_mono: "ro_eligible r \<subseteq> ro_eligible (fold (judge_absent opt i) ns r)"
  by (rule fold_keeps [where P = "\<lambda>x. ro_eligible r \<subseteq> ro_eligible x"]) (auto simp: judge_eligible)

lemma fold_judge_lets_go:
  "n \<in> set ns \<Longrightarrow> n \<notin> ro_eligible (fold (judge_absent opt i) ns r) \<Longrightarrow> may_go opt i r n"
proof (induction ns arbitrary: r)
  case (Cons m ns)
  show ?case
  proof (cases "m = n")
    case True
    then have "n \<notin> ro_eligible (judge_absent opt i n r)"
      using Cons.prems(2) fold_eligible_mono [of "judge_absent opt i n r" opt i ns] by auto
    then show ?thesis by (simp add: judge_eligible split: if_splits)
  next
    case False
    then show ?thesis using Cons.IH [of "judge_absent opt i m r"] Cons.prems by (simp add: may_go_judged)
  qed
qed simp

lemma fold_judge_marks:
  "os_absent (ro_state (fold (judge_absent opt i) ns r)) n = Some t \<Longrightarrow>
     os_absent (ro_state r) n = Some t \<or> t = oi_now i"
proof (induction ns arbitrary: r)
  case (Cons m ns)
  then show ?case
    using Cons.IH [of "judge_absent opt i m r"] mark_absent_marks [of m "oi_now i" "ro_state r" n t] by (auto simp: judge_state)
qed simp

lemma keep_marks: "os_absent (ro_state (fold keep_declared ns r)) n = (if n \<in> set ns then None else os_absent (ro_state r) n)"
  by (induction ns arbitrary: r) (auto simp: keep_declared_def Let_def frame mark_present_def)

lemma keep_eligible: "ro_eligible (fold keep_declared ns r) = ro_eligible r \<union> set ns"
  by (induction ns arbitrary: r) (auto simp: keep_declared_def Let_def frame)

lemma keep_seen: "seen (fold keep_declared ns r) = seen r"
  by (rule fold_frame) (simp add: frame)

lemma grace_marks:
  assumes "os_absent (ro_state (apply_grace opt i r)) n = Some t"
  shows "n \<notin> set (declared_names r) \<and> (os_absent (ro_state r) n = Some t \<or> t = oi_now i)"
  using assms
  by (auto simp: apply_grace_def Let_def restrict_map_def keep_marks dest!: fold_judge_marks split: if_splits)

lemma grace_lets_go:
  assumes "n \<in> set (os_names (ro_state r))" and "n \<notin> ro_eligible (apply_grace opt i r)"
  shows "n \<notin> set (declared_names r) \<and> may_go opt i r n"
proof -
  let ?absent = "sort (filter (\<lambda>n. n \<notin> ro_eligible r) (dedup (os_names (ro_state r))))"
  let ?still = "filter (\<lambda>n. n \<in> set (declared_names r)) ?absent"
  let ?gone = "filter (\<lambda>n. n \<notin> set (declared_names r)) ?absent"
  have e: "n \<notin> ro_eligible (fold (judge_absent opt i) ?gone (fold keep_declared ?still r))"
    using assms(2) by (simp add: apply_grace_def Let_def)
  then have "n \<notin> ro_eligible (fold keep_declared ?still r)"
    using fold_eligible_mono [of "fold keep_declared ?still r" opt i ?gone] by blast
  then have not: "n \<notin> ro_eligible r" "n \<notin> set ?still" by (auto simp: keep_eligible)
  with assms(1) have "n \<in> set ?gone" by auto
  from fold_judge_lets_go [OF this e] have "may_go opt i (fold keep_declared ?still r) n" .
  moreover have "n \<notin> set (declared_names r)" using \<open>n \<in> set ?gone\<close> by simp
  ultimately show ?thesis
    using may_go_cong [of "fold keep_declared ?still r" r n opt i] not by (simp add: keep_seen keep_marks)
qed

lemma resolved_state: "ro_state (fold (resolve_one L opt) ds r) = ro_state r"
proof -
  have "ro_state (fold (\<lambda>n. reject n why) ns r) = ro_state r" for ns why r by (rule fold_frame) (simp add: frame)
  then have "ro_state (resolve_one L opt d r) = ro_state r" for d r by (simp add: resolve_one_def)
  then show ?thesis by (rule fold_frame)
qed

lemma resolved_seen: "seen (fold (resolve_one L opt) ds r) = seen r"
  by (rule fold_frame) (simp add: frame)

lemma declared_seen: "seen r = seen s \<Longrightarrow> declared_names r = declared_names s"
  by (simp add: seen_def declared_names_def)

lemma resolve_marks:
  "os_absent (ro_state (resolve L opt i r)) n = Some t \<Longrightarrow>
     n \<notin> set (declared_names r) \<and> (os_absent (ro_state r) n = Some t \<or> t = oi_now i)"
  unfolding resolve_def by (drule grace_marks) (simp add: resolved_state declared_seen [OF resolved_seen])

lemma resolve_lets_go:
  "n \<in> set (os_names (ro_state r)) \<Longrightarrow> n \<notin> ro_eligible (resolve L opt i r) \<Longrightarrow>
     n \<notin> set (declared_names r) \<and> may_go opt i r n"
  unfolding resolve_def
  using grace_lets_go [of n "fold (resolve_one L opt) (ro_declarations r) r" opt i]
    may_go_cong [of "fold (resolve_one L opt) (ro_declarations r) r" r n opt i]
  by (simp add: resolved_state declared_seen [OF resolved_seen] resolved_seen)

text \<open>The rest of the round looks at the same answers.\<close>

lemma seen_later: "seen (fuse fl opt r) = seen r" "seen (build L opt r) = seen r"
  "seen (budget L fl sha opt now r) = seen r" "seen (assemble opt now r) = seen r"
proof -
  show "seen (fuse fl opt r) = seen r" by (auto simp: fuse_def Let_def freeze_def seen_def split: option.split)
  show "seen (budget L fl sha opt now r) = seen r"
    by (auto simp: budget_def Let_def freeze_def seen_def split: option.split prod.split)
  show "seen (assemble opt now r) = seen r" by (simp add: assemble_def Let_def seen_def)
  have f: "seen (freeze why x) = seen x" for why x by (simp add: freeze_def Let_def seen_def split: option.split)
  have "seen (over_limit opt g c x) = seen x" for g c x
  proof -
    have "seen (fold (\<lambda>n. reject n why) ns x) = seen x" for ns why x by (rule fold_frame) (simp add: frame)
    moreover have "seen (fold (\<lambda>n. include_name (v n)) ns x) = seen x" for ns x and v :: "string \<Rightarrow> verdict"
      by (rule fold_frame) (simp add: frame)
    ultimately show ?thesis
      by (auto simp: over_limit_def keep_previous_def Let_def f split: option.splits) (auto simp: seen_def)
  qed
  moreover have "seen (add_group opt g cov s x) = seen x" for g cov s x
  proof -
    have "seen (fold (\<lambda>n. include_name (v n)) ns x) = seen x" for ns x and v :: "string \<Rightarrow> verdict"
      by (rule fold_frame) (simp add: frame)
    then show ?thesis by (simp add: add_group_def split: prod.split) (simp add: seen_def)
  qed
  ultimately have "seen (build_groups L opt gs x) = seen x" for gs x
    by (induction gs arbitrary: x) (simp_all add: Let_def f split: sum.split group_error.split)
  then show "seen (build L opt r) = seen r" by (simp add: build_def f split: sum.split)
qed

text \<open>A round that was not frozen, from its gathered facts to its result.\<close>

lemma written:
  assumes "\<not> frozen (evaluate L fl sha opt i st prev)"
  obtains r1 where
    "seen (evaluate L fl sha opt i st prev) = seen r1" "ro_prev r1 = prev"
    "os_absent (ro_state r1) = os_absent st" "os_names (ro_state r1) = os_names (recovered st prev)"
    "ro_eligible r1 = {}" "r1 = fuse fl opt (gathered L opt i st prev)"
    "ro_eligible (evaluate L fl sha opt i st prev) = ro_eligible (resolve L opt i r1)"
    "os_absent (ro_state (evaluate L fl sha opt i st prev)) = os_absent (ro_state (resolve L opt i r1))"
    "ro_certs (evaluate L fl sha opt i st prev) = ro_certs (build L opt (resolve L opt i r1))"
    "\<not> frozen (build L opt (resolve L opt i r1))"
proof -
  from stages [OF assms] obtain r1 r2 r3 r4 where s:
    "\<not> frozen (gathered L opt i st prev)"
    "r1 = fuse fl opt (gathered L opt i st prev)" "\<not> frozen r1"
    "r2 = resolve L opt i r1" "\<not> frozen r2"
    "r3 = build L opt r2" "\<not> frozen r3" "ro_certs r3 \<noteq> []"
    "r4 = budget L fl sha opt (oi_now i) r3" "\<not> frozen r4"
    "evaluate L fl sha opt i st prev =
       (assemble opt (oi_now i) r4)\<lparr>ro_verdicts := sort_verdicts (ro_verdicts (assemble opt (oi_now i) r4))\<rparr>" .
  have v: "seen (x\<lparr>ro_verdicts := vs\<rparr>) = seen x" for x vs by (simp add: seen_def)
  show thesis
  proof (rule that [OF _ _ _ _ _ s(2)])
    show "seen (evaluate L fl sha opt i st prev) = seen r1"
      unfolding s(11) v by (simp add: seen_later s(4,6,9) seen_resolve)
    show "ro_prev r1 = prev" "ro_eligible r1 = {}" by (simp_all add: s(2) fuse_frame gathered_frame)
    show "os_absent (ro_state r1) = os_absent st"
      by (simp add: s(2) fuse_frame gathered_frame recovered_def recover_frame) (simp add: new_round_def)
    show "os_names (ro_state r1) = os_names (recovered st prev)" by (simp add: s(2) fuse_frame gathered_frame)
    show "ro_eligible (evaluate L fl sha opt i st prev) = ro_eligible (resolve L opt i r1)"
      unfolding s(11) by (simp add: assemble_def Let_def s(4,6,9) budget_frame build_frame)
    show "os_absent (ro_state (evaluate L fl sha opt i st prev)) = os_absent (ro_state (resolve L opt i r1))"
      unfolding s(11) by (simp add: assemble_def Let_def set_last_declared_def set_last_names_def changes_within_def
        s(4,6,9) budget_frame build_frame)
    show "ro_certs (evaluate L fl sha opt i st prev) = ro_certs (build L opt (resolve L opt i r1))"
      unfolding s(11) by (simp add: assemble_def Let_def s(4,6,9) budget_frame)
    show "\<not> frozen (build L opt (resolve L opt i r1))" using s(4,6,7) by simp
  qed
qed

section \<open>A history of rounds\<close>

text \<open>A round that was written in full: document and state. Options, clock and answers are free.\<close>

record written_round =
  wr_now :: instant
  wr_options :: onboard_options
  wr_declared :: "string set"
  wr_mode :: round_mode
  wr_before :: string
  wr_after :: string

definition round_entry :: "onboard_options \<Rightarrow> onboard_input \<Rightarrow> evaluation \<Rightarrow> written_round" where
  "round_entry opt i r = \<lparr>wr_now = oi_now i, wr_options = opt, wr_declared = set (declared_names r),
     wr_mode = ro_mode r, wr_before = (case ro_prev r of None \<Rightarrow> [] | Some d \<Rightarrow> dd_revision d),
     wr_after = ro_revision r\<rparr>"

text \<open>The rounds written so far, the last first, from a missing state file on.\<close>

inductive onboarding ::
  "golib \<Rightarrow> (rat \<Rightarrow> rat) \<Rightarrow> (string \<Rightarrow> nat list) \<Rightarrow> written_round list \<Rightarrow> disk \<Rightarrow> bool"
  for L fl sha where
  first_run: "onboarding L fl sha [] \<lparr>dk_document = doc, dk_state = first_state\<rparr>"
| next_run: "onboarding L fl sha H dk \<Longrightarrow> r = evaluate L fl sha opt i (dk_state dk) (dk_document dk) \<Longrightarrow>
    commit L fl sha opt now saves r dk = (ok, dk') \<Longrightarrow>
    onboarding L fl sha (if ok \<and> \<not> frozen r \<and> oo_state_path opt \<noteq> [] then round_entry opt i r # H else H) dk'"

lemma commit_state:
  assumes "commit L fl sha opt now saves r dk = (ok, dk')"
  shows "dk_state dk' = (if ok \<and> \<not> frozen r \<and> oo_state_path opt \<noteq> [] then ro_state r else dk_state dk)"
  using assms by (auto simp: commit_def Let_def split: if_splits option.splits sum.splits)

lemma round_marks:
  assumes "\<not> frozen (evaluate L fl sha opt i st prev)"
    and "os_absent (ro_state (evaluate L fl sha opt i st prev)) n = Some t"
  shows "n \<notin> set (declared_names (evaluate L fl sha opt i st prev)) \<and> (os_absent st n = Some t \<or> t = oi_now i)"
proof -
  from written [OF assms(1)] obtain r1 where r1: "seen (evaluate L fl sha opt i st prev) = seen r1"
    "os_absent (ro_state r1) = os_absent st"
    "os_absent (ro_state (evaluate L fl sha opt i st prev)) = os_absent (ro_state (resolve L opt i r1))" by metis
  from resolve_marks [of L opt i r1 n t] show ?thesis using assms(2) r1(2,3) declared_seen [OF r1(1)] by simp
qed

text \<open>A marker stands for an unbroken run of written rounds that did not declare the name.\<close>

lemma marker_history:
  assumes "onboarding L fl sha H dk" and "os_absent (dk_state dk) n = Some t"
  shows "\<exists>newer e older. H = newer @ e # older \<and> wr_now e = t \<and> (\<forall>x \<in> set (newer @ [e]). n \<notin> wr_declared x)"
  using assms
proof (induction arbitrary: t)
  case (next_run H dk r opt i now saves ok dk')
  let ?saved = "ok \<and> \<not> frozen r \<and> oo_state_path opt \<noteq> []"
  show ?case
  proof (cases ?saved)
    case True
    then have "os_absent (ro_state r) n = Some t" using next_run.prems commit_state [OF next_run.hyps(3)] by simp
    then have m: "n \<notin> set (declared_names r)" "os_absent (dk_state dk) n = Some t \<or> t = oi_now i"
      using round_marks [of L fl sha opt i "dk_state dk" "dk_document dk" n t] True by (simp_all add: next_run.hyps(2))
    from m(2) show ?thesis
    proof
      assume "t = oi_now i"
      then have "round_entry opt i r # H = [] @ round_entry opt i r # H \<and> wr_now (round_entry opt i r) = t \<and>
          (\<forall>x \<in> set ([] @ [round_entry opt i r]). n \<notin> wr_declared x)" using m(1) by (simp add: round_entry_def)
      then show ?thesis unfolding if_P [OF True] by (intro exI)
    next
      assume "os_absent (dk_state dk) n = Some t"
      from next_run.IH [OF this] obtain newer e older where h: "H = newer @ e # older" "wr_now e = t"
        "\<forall>x \<in> set (newer @ [e]). n \<notin> wr_declared x" by auto
      then have "round_entry opt i r # H = (round_entry opt i r # newer) @ e # older \<and> wr_now e = t \<and>
          (\<forall>x \<in> set ((round_entry opt i r # newer) @ [e]). n \<notin> wr_declared x)"
        using m(1) by (simp add: round_entry_def)
      then show ?thesis unfolding if_P [OF True] by (intro exI)
    qed
  next
    case False
    then have "os_absent (dk_state dk) n = Some t" using next_run.prems commit_state [OF next_run.hyps(3)] by auto
    from next_run.IH [OF this] show ?thesis unfolding if_not_P [OF False] .
  qed
qed (simp add: first_state_def)

lemma deletions_need_history:
  assumes "onboarding L fl sha H dk" and "r = evaluate L fl sha opt i (dk_state dk) (dk_document dk)"
    and "\<not> frozen r" and "\<not> oo_force opt" and "0 < oo_grace opt"
    and "n \<in> set (os_names (recovered (dk_state dk) (dk_document dk)))" and "n \<notin> ro_eligible r"
  shows "n \<notin> set (declared_names r) \<and> \<not> ro_guard_unavailable r \<and> oi_rules i \<noteq> None \<and>
    \<not> served_by_rule (ro_rules r) n \<and>
    (\<exists>newer e older. H = newer @ e # older \<and> (\<forall>x \<in> set (newer @ [e]). n \<notin> wr_declared x) \<and>
       oo_grace opt \<le> time_sub (oi_now i) (wr_now e))"
proof -
  from written [OF assms(3) [unfolded assms(2)]] obtain r1 where r1: "seen r = seen r1"
    "os_absent (ro_state r1) = os_absent (dk_state dk)"
    "os_names (ro_state r1) = os_names (recovered (dk_state dk) (dk_document dk))"
    "ro_eligible r = ro_eligible (resolve L opt i r1)" by (metis assms(2))
  from resolve_lets_go [of n r1 L opt i] have go: "n \<notin> set (declared_names r1)" "may_go opt i r1 n"
    using assms(6,7) by (simp_all add: r1(3,4))
  then have age: "\<not> time_sub (oi_now i) (fst (mark_absent n (oi_now i) (ro_state r1))) < oo_grace opt"
    and rest: "\<not> ro_guard_unavailable r1" "oi_rules i \<noteq> None" "\<not> served_by_rule (ro_rules r1) n"
    using assms(4) by (simp_all add: may_go_def)
  have "time_sub (oi_now i) (oi_now i) = 0" by (simp add: time_sub_def)
  with age assms(5) obtain t where t: "os_absent (dk_state dk) n = Some t" "oo_grace opt \<le> time_sub (oi_now i) t"
    by (auto simp: mark_absent_def r1(2) split: option.splits)
  from marker_history [OF assms(1) t(1)] t(2) go(1) rest show ?thesis
    using seen_parts [OF r1(1)] declared_seen [OF r1(1)] by metis
qed


section \<open>The budget of changes\<close>

lemma resolve_changes:
  "os_changes (ro_state (resolve L opt i r)) = os_changes (ro_state r)"
  "os_revision (ro_state (resolve L opt i r)) = os_revision (ro_state r)"
proof -
  have j: "os_changes (ro_state (fold (judge_absent opt i) ns x)) = os_changes (ro_state x) \<and>
      os_revision (ro_state (fold (judge_absent opt i) ns x)) = os_revision (ro_state x)" for ns x
    by (induction ns arbitrary: x) (simp_all add: judge_state mark_absent_def split: option.split)
  have k: "os_changes (ro_state (fold keep_declared ns x)) = os_changes (ro_state x) \<and>
      os_revision (ro_state (fold keep_declared ns x)) = os_revision (ro_state x)" for ns x
    by (induction ns arbitrary: x) (simp_all add: keep_declared_def Let_def frame mark_present_def)
  show "os_changes (ro_state (resolve L opt i r)) = os_changes (ro_state r)"
    "os_revision (ro_state (resolve L opt i r)) = os_revision (ro_state r)"
    by (simp_all add: resolve_def apply_grace_def Let_def j k resolved_state)
qed

text \<open>Before the budget is looked at a round is either frozen or to be written.\<close>

lemma modes_before_budget:
  "ro_mode (gathered L opt i st prev) \<noteq> UnchangedRound"
  "ro_mode r \<noteq> UnchangedRound \<Longrightarrow> ro_mode (fuse fl opt r) \<noteq> UnchangedRound"
  "ro_mode (resolve L opt i r) = ro_mode r"
  "ro_mode r \<noteq> UnchangedRound \<Longrightarrow> ro_mode (build L opt r) \<noteq> UnchangedRound"
proof -
  have p: "ro_mode (parse_records L raws x) = ro_mode x" for raws x by (rule parse_fold) (simp_all add: frame)
  show "ro_mode (gathered L opt i st prev) \<noteq> UnchangedRound"
    by (auto simp: gathered_def gather_def load_rules_def p frame recover_frame new_round_def
      split: sum.split option.split rule_answer.split)
  show "ro_mode r \<noteq> UnchangedRound \<Longrightarrow> ro_mode (fuse fl opt r) \<noteq> UnchangedRound"
    by (auto simp: fuse_def Let_def frame split: option.split)
  have rej: "ro_mode (fold (\<lambda>n. reject n why) ns x) = ro_mode x" for why ns x by (rule fold_frame) (simp add: frame)
  have "ro_mode (fold (resolve_one L opt) ds x) = ro_mode x" for ds x
    by (rule fold_frame) (simp add: resolve_one_def rej)
  moreover have "ro_mode (fold (judge_absent opt i) ns x) = ro_mode x" for ns x
  proof (rule fold_frame)
    fix n x show "ro_mode (judge_absent opt i n x) = ro_mode x"
      by (cases "mark_absent n (oi_now i) (ro_state x)") (simp add: judge_absent_def Let_def frame)
  qed
  moreover have "ro_mode (fold keep_declared ns x) = ro_mode x" for ns x
    by (rule fold_frame) (simp add: keep_declared_def Let_def frame)
  ultimately show "ro_mode (resolve L opt i r) = ro_mode r" by (simp add: resolve_def apply_grace_def Let_def)
  have inc: "ro_mode (fold (\<lambda>n. include_name (v n)) ns x) = ro_mode x" for ns x and v :: "string \<Rightarrow> verdict"
    by (rule fold_frame) (simp add: frame)
  have "ro_mode x \<noteq> UnchangedRound \<Longrightarrow> ro_mode (over_limit opt g c x) \<noteq> UnchangedRound" for g c x
    by (auto simp: over_limit_def keep_previous_def Let_def frame rej inc split: option.splits)
  then have "ro_mode x \<noteq> UnchangedRound \<Longrightarrow> ro_mode (build_groups L opt gs x) \<noteq> UnchangedRound" for gs x
    by (induction gs arbitrary: x) (simp_all add: Let_def frame add_group_frame split: sum.split group_error.split)
  then show "ro_mode r \<noteq> UnchangedRound \<Longrightarrow> ro_mode (build L opt r) \<noteq> UnchangedRound"
    by (simp add: build_def frame split: sum.split)
qed

lemma budget_outcome:
  assumes "\<not> frozen (budget L fl sha opt now r)" and "\<not> oo_force opt" and "ro_mode r = WrittenRound"
  defines "r' \<equiv> budget L fl sha opt now r"
  defines "kept \<equiv> filter (\<lambda>t. \<not> t < now - oo_window opt) (os_changes (ro_state r))"
  shows "ro_mode r' = UnchangedRound \<and> os_changes (ro_state r') = os_changes (ro_state r) \<and>
       (\<forall>d. ro_prev r = Some d \<longrightarrow> dd_revision d \<in> {[], ro_revision r'}) \<or>
     ro_mode r' = WrittenRound \<and> int (length kept) < oo_budget opt \<and> os_changes (ro_state r') = kept @ [now]"
proof -
  let ?rev = "revision fl sha (ro_certs r)" and ?st = "ro_state r"
  let ?pr = "case ro_prev r of None \<Rightarrow> [] | Some d \<Rightarrow> dd_revision d"
  let ?changed = "(?rev \<noteq> os_revision ?st \<and> ?rev \<noteq> ?pr) \<or> (?pr \<noteq> [] \<and> ?rev \<noteq> ?pr)"
  show ?thesis
  proof (cases ?changed)
    case False
    then have "r' = (if ?rev \<noteq> os_revision ?st
        then (r\<lparr>ro_revision := ?rev\<rparr>)\<lparr>ro_state := set_last_declared (declared_names (r\<lparr>ro_revision := ?rev\<rparr>)) ?st\<rparr>
        else r\<lparr>ro_revision := ?rev\<rparr>)\<lparr>ro_mode := UnchangedRound\<rparr>"
      unfolding r'_def budget_def Let_def by simp
    then show ?thesis using False by (cases "ro_prev r") (simp_all add: set_last_declared_def, metis)
  next
    case True
    then have e: "r' = (case blocked_domain L opt now (ro_certs r) of
          Some (reg, until) \<Rightarrow> freeze (CaBlocked reg until) (r\<lparr>ro_revision := ?rev\<rparr>)
        | None \<Rightarrow> (case changes_within (oo_window opt) now ?st of (used, st') \<Rightarrow>
            if oo_budget opt \<le> int used then freeze (BudgetExhausted used) (r\<lparr>ro_revision := ?rev, ro_state := st'\<rparr>)
            else r\<lparr>ro_revision := ?rev, ro_state := record_change now st'\<rparr>))"
      unfolding r'_def budget_def Let_def using assms(2) by (simp cong: option.case_cong prod.case_cong)
    have "\<not> frozen r'" using assms(1) by (simp add: r'_def)
    then have n: "blocked_domain L opt now (ro_certs r) = None"
      by (auto simp: e frame split: option.splits)
    have "changes_within (oo_window opt) now ?st = (length kept, ?st\<lparr>os_changes := kept\<rparr>)"
      by (simp add: changes_within_def kept_def Let_def)
    with e n have e': "r' = (if oo_budget opt \<le> int (length kept)
        then freeze (BudgetExhausted (length kept)) (r\<lparr>ro_revision := ?rev, ro_state := ?st\<lparr>os_changes := kept\<rparr>\<rparr>)
        else r\<lparr>ro_revision := ?rev, ro_state := record_change now (?st\<lparr>os_changes := kept\<rparr>)\<rparr>)" by simp
    then have "\<not> oo_budget opt \<le> int (length kept)" using \<open>\<not> frozen r'\<close> by (auto simp: frame)
    with e' show ?thesis using assms(3) by (simp add: record_change_def)
  qed
qed

text \<open>What a round that was not frozen leaves in the ledger of changes.\<close>

lemma budget_ledger:
  assumes "\<not> frozen (evaluate L fl sha opt i st prev)" and "\<not> oo_force opt"
  defines "r \<equiv> evaluate L fl sha opt i st prev"
  defines "kept \<equiv> filter (\<lambda>t. \<not> t < oi_now i - oo_window opt) (os_changes st)"
  shows "(ro_mode r = UnchangedRound \<and> os_changes (ro_state r) = kept \<or>
      ro_mode r = WrittenRound \<and> int (length kept) < oo_budget opt \<and>
        os_changes (ro_state r) = kept @ filter (\<lambda>t. \<not> t < oi_now i - oo_window opt) [oi_now i]) \<and>
    (\<forall>d. prev = Some d \<and> dd_revision d \<notin> {[], ro_revision r} \<longrightarrow> ro_mode r = WrittenRound)"
proof -
  from stages [OF assms(1)] obtain r1 r2 r3 r4 where s:
    "\<not> frozen (gathered L opt i st prev)"
    "r1 = fuse fl opt (gathered L opt i st prev)" "\<not> frozen r1"
    "r2 = resolve L opt i r1" "\<not> frozen r2"
    "r3 = build L opt r2" "\<not> frozen r3" "ro_certs r3 \<noteq> []"
    "r4 = budget L fl sha opt (oi_now i) r3" "\<not> frozen r4"
    "evaluate L fl sha opt i st prev =
       (assemble opt (oi_now i) r4)\<lparr>ro_verdicts := sort_verdicts (ro_verdicts (assemble opt (oi_now i) r4))\<rparr>" .
  have c3: "os_changes (ro_state r3) = os_changes st"
    by (simp add: s(2,4,6) build_frame resolve_changes fuse_frame gathered_frame recovered_def recover_frame)
      (simp add: new_round_def)
  have p3: "ro_prev r3 = prev" by (simp add: s(2,4,6) build_frame seen_resolved fuse_frame gathered_frame)
  have r: "ro_mode r = ro_mode r4" "ro_revision r = ro_revision r4"
    "os_changes (ro_state r) = filter (\<lambda>t. \<not> t < oi_now i - oo_window opt) (os_changes (ro_state r4))"
    unfolding r_def s(11)
    by (simp_all add: assemble_def Let_def set_last_declared_def set_last_names_def changes_within_def)
  have "ro_mode r3 \<noteq> UnchangedRound" by (simp add: s(2,4,6) modes_before_budget)
  with s(7) have m3: "ro_mode r3 = WrittenRound" by (cases "ro_mode r3") simp_all
  have "ro_mode r4 = UnchangedRound \<and> os_changes (ro_state r4) = os_changes st \<and>
       (\<forall>d. prev = Some d \<longrightarrow> dd_revision d \<in> {[], ro_revision r4}) \<or>
     ro_mode r4 = WrittenRound \<and> int (length kept) < oo_budget opt \<and> os_changes (ro_state r4) = kept @ [oi_now i]"
    using budget_outcome [OF s(10) [unfolded s(9)] assms(2) m3] by (simp add: s(9) [symmetric] c3 p3 kept_def)
  then show ?thesis by (auto simp: r kept_def)
qed

text \<open>
  With one window and a clock that does not go back, the ledger is the history: the changes still in
  the window, in order.
\<close>

definition changes_since :: "instant \<Rightarrow> written_round list \<Rightarrow> instant list" where
  "changes_since t H = map wr_now (filter (\<lambda>x. wr_mode x = WrittenRound \<and> t \<le> wr_now x) (rev H))"

definition steady :: "duration \<Rightarrow> int \<Rightarrow> written_round list \<Rightarrow> bool" where
  "steady w b H \<longleftrightarrow> sorted (map wr_now (rev H)) \<and>
     (\<forall>x \<in> set H. \<not> oo_force (wr_options x) \<and> oo_window (wr_options x) = w \<and> oo_budget (wr_options x) = b)"

lemma steady_tail: "steady w b (e # H) \<Longrightarrow> steady w b H \<and> (\<forall>x \<in> set H. wr_now x \<le> wr_now e)"
  by (auto simp: steady_def sorted_append)

lemma changes_narrow: "t \<le> t' \<Longrightarrow> filter (\<lambda>u. \<not> u < t') (changes_since t H) = changes_since t' H"
  by (auto simp: changes_since_def filter_map intro!: arg_cong [where f = "map wr_now"] filter_cong)

lemma ledger_is_history:
  assumes "onboarding L fl sha H dk" and "steady w b H"
  shows "(os_changes (dk_state dk) = (case H of [] \<Rightarrow> [] | e # _ \<Rightarrow> changes_since (wr_now e - w) H)) \<and>
    (\<forall>newer e older. H = newer @ e # older \<longrightarrow>
       int (length (changes_since (wr_now e - w) (e # older))) \<le> max 0 b) \<and>
    (\<forall>x \<in> set H. wr_before x \<notin> {[], wr_after x} \<longrightarrow> wr_mode x = WrittenRound)"
  using assms
proof induction
  case (next_run H dk r opt i now saves ok dk')
  show ?case
  proof (cases "ok \<and> \<not> frozen r \<and> oo_state_path opt \<noteq> []")
    case False
    then show ?thesis using next_run.IH next_run.prems commit_state [OF next_run.hyps(3)] by auto
  next
    case True
    let ?e = "round_entry opt i r" and ?t = "oi_now i - w"
    have pre: "steady w b (?e # H)" using next_run.prems True by simp
    then have o: "\<not> oo_force opt" "oo_window opt = w" "oo_budget opt = b"
      by (simp_all add: steady_def round_entry_def)
    have H: "steady w b H" "\<And>x. x \<in> set H \<Longrightarrow> wr_now x \<le> oi_now i"
      using steady_tail [OF pre] by (auto simp: round_entry_def)
    note ih = next_run.IH [OF H(1)]
    have kept: "filter (\<lambda>t. \<not> t < ?t) (os_changes (dk_state dk)) = changes_since ?t H"
    proof (cases H)
      case (Cons h H')
      then have "wr_now h - w \<le> ?t" using H(2) [of h] by simp
      then show ?thesis using ih changes_narrow [of "wr_now h - w" ?t H] Cons by simp
    qed (use ih in \<open>simp add: changes_since_def\<close>)
    have "\<not> frozen (evaluate L fl sha opt i (dk_state dk) (dk_document dk))" using True next_run.hyps(2) by simp
    note led = budget_ledger [OF this o(1), folded next_run.hyps(2), unfolded o kept]
    have small: "int (length (changes_since ?t H)) \<le> max 0 b"
    proof (cases H)
      case (Cons h H')
      then have "wr_now h - w \<le> ?t" using H(2) [of h] by simp
      then have "length (changes_since ?t H) \<le> length (changes_since (wr_now h - w) H)"
        by (metis changes_narrow length_filter_le)
      then show ?thesis using conjunct1 [OF conjunct2 [OF ih]] Cons by fastforce
    qed (simp add: changes_since_def)
    have new: "changes_since ?t (?e # H) =
        changes_since ?t H @ (if ro_mode r = WrittenRound then filter (\<lambda>t. \<not> t < ?t) [oi_now i] else [])"
      by (auto simp: changes_since_def round_entry_def)
    have now: "wr_now ?e = oi_now i" by (simp add: round_entry_def)
    have st: "dk_state dk' = ro_state r" using commit_state [OF next_run.hyps(3)] True by simp
    have a: "os_changes (dk_state dk') = changes_since ?t (?e # H)" using led by (auto simp: st new)
    have b: "int (length (changes_since ?t (?e # H))) \<le> max 0 b" using led small by (auto simp: new)
    have c: "wr_before ?e \<notin> {[], wr_after ?e} \<longrightarrow> wr_mode ?e = WrittenRound"
    proof -
      have "ro_prev r = dk_document dk"
        using written [of L fl sha opt i "dk_state dk" "dk_document dk"] True next_run.hyps(2)
        by (metis seen_parts)
      then show ?thesis using led by (auto simp: round_entry_def split: option.splits)
    qed
    show ?thesis unfolding if_P [OF True]
    proof (intro conjI allI impI ballI)
      show "os_changes (dk_state dk') = (case ?e # H of [] \<Rightarrow> [] | e # _ \<Rightarrow> changes_since (wr_now e - w) (?e # H))"
        using a by (simp add: now)
      fix newer e older assume "?e # H = newer @ e # older"
      then show "int (length (changes_since (wr_now e - w) (e # older))) \<le> max 0 b"
        using b ih by (cases newer) (auto simp: now)
    next
      fix x assume "x \<in> set (?e # H)" and "wr_before x \<notin> {[], wr_after x}"
      then show "wr_mode x = WrittenRound" using c ih by auto
    qed
  qed
qed (simp add: first_state_def)


section \<open>Concrete rounds\<close>

definition onboard_sample :: onboard_options where
  "onboard_sample = \<lparr>oo_document_path = ''desired.yaml'', oo_state_path = ''onboard.json'', oo_report_path = [],
     oo_generator = ''wecert-onboard'', oo_profile = ''classic'', oo_key_type = ''ecdsa-p256'', oo_deploy = True,
     oo_max_names = 25, oo_require_rule = False, oo_allowlist = [], oo_threshold = Finite (1 / 2),
     oo_grace = 24 * ns_hour, oo_window = 7 * 24 * ns_hour, oo_budget = 25, oo_blocked = Map.empty,
     oo_force = False\<rparr>"

definition asked :: "instant \<Rightarrow> (string \<times> string) list \<Rightarrow> onboard_input" where
  "asked now hs = \<lparr>oi_now = now,
     oi_declarations = Inr (map (\<lambda>(h, v). \<lparr>rw_zone = ''example.com'',
       rw_record = ''_wecert.'' @ h @ ''.example.com'', rw_values = [v]\<rparr>) hs),
     oi_rules = Some (RuleList [])\<rparr>"

definition only_a :: "instant \<Rightarrow> onboard_input" where
  "only_a now = asked now [(''a'', ''v=wecert1'')]"

definition document_of :: "string list \<Rightarrow> desired_document" where
  "document_of names = \<lparr>dd_api_version = ''wecert/v1'', dd_kind = ''DesiredState'', dd_generated_at = ns_hour,
     dd_generator = ''wecert-onboard'', dd_revision = ''sha256:00'',
     dd_certs = [new_certificate ''example-com'' names ''classic'' ''ecdsa-p256'' True]\<rparr>"

definition sample_round :: "onboard_input \<Rightarrow> disk \<Rightarrow> evaluation" where
  "sample_round i dk = evaluate sample_lib (\<lambda>x. x) sample_sha onboard_sample i (dk_state dk) (dk_document dk)"

definition sample_commit :: "bool \<Rightarrow> onboard_input \<Rightarrow> disk \<Rightarrow> bool \<times> disk" where
  "sample_commit saved i dk =
     commit sample_lib (\<lambda>x. x) sample_sha onboard_sample (oi_now i) (True, saved) (sample_round i dk) dk"

definition first_disk :: disk where
  "first_disk = \<lparr>dk_document = Some (document_of [''a.example.com'', ''b.example.com'']), dk_state = first_state\<rparr>"

definition first_input :: onboard_input where "first_input = only_a (100 * ns_hour)"
definition second_disk :: disk where "second_disk = snd (sample_commit True first_input first_disk)"
definition first_entry :: written_round where
  "first_entry = round_entry onboard_sample first_input (sample_round first_input first_disk)"

lemma first_round:
  "fst (sample_commit True first_input first_disk) \<and> \<not> frozen (sample_round first_input first_disk) \<and>
   list_ex (\<lambda>c. ''b.example.com'' \<in> set (ct_domains c)) (ro_certs (sample_round first_input first_disk)) \<and>
   map_option dd_generated_at (dk_document second_disk) \<noteq> map_option dd_generated_at (dk_document first_disk)"
  by code_simp

lemma second_round:
  "\<not> frozen (sample_round (only_a (126 * ns_hour)) second_disk) \<and>
   ''b.example.com'' \<in> set (os_names (recovered (dk_state second_disk) (dk_document second_disk))) \<and>
   ''b.example.com'' \<notin> ro_eligible (sample_round (only_a (126 * ns_hour)) second_disk)"
  by code_simp

lemma first_commit:
  "commit sample_lib (\<lambda>x. x) sample_sha onboard_sample (oi_now first_input) (True, True)
     (sample_round first_input first_disk) first_disk = (True, second_disk)"
  using first_round unfolding second_disk_def sample_commit_def by (metis prod.collapse)

lemma first_history: "onboarding sample_lib (\<lambda>x. x) sample_sha [first_entry] second_disk"
proof -
  have "onboarding sample_lib (\<lambda>x. x) sample_sha [] first_disk"
    unfolding first_disk_def by (rule first_run)
  from next_run [OF this sample_round_def first_commit] show ?thesis
    using first_round by (simp add: first_entry_def) (simp add: onboard_sample_def)
qed

theorem written_round_is_grounded_witness: "ro_certs (sample_round first_input first_disk) \<noteq> []"
proof -
  have "second_disk \<noteq> first_disk" using first_round by auto
  from written_round_is_grounded [OF first_commit [unfolded sample_round_def] this]
  show ?thesis unfolding sample_round_def by (elim conjE)
qed



text \<open>
  A commit that wrote the document and not the state does not heal by itself: a name the lost round
  added is in the document and not in the state, and the next round drops it without a grace period
  when it is undeclared by then.
\<close>

definition behind :: disk where
  "behind = snd (sample_commit False (asked (100 * ns_hour) [(''a'', ''v=wecert1''), (''b'', ''v=wecert1'')])
     \<lparr>dk_document = Some (document_of [''a.example.com'']),
      dk_state = set_last_names [''a.example.com''] (set_last_declared [''a.example.com''] first_state)\<rparr>)"

lemma lost_state_skips_grace:
  "''b.example.com'' \<in> set (document_names (the (dk_document behind))) \<and>
   \<not> frozen (sample_round (only_a (101 * ns_hour)) behind) \<and>
   ''b.example.com'' \<notin> ro_eligible (sample_round (only_a (101 * ns_hour)) behind)"
  by code_simp

text \<open>
  Without persisted state nothing is ever deleted, short of force: every round sets the markers anew,
  and no name of the document on disk gets past the grace period.
\<close>

lemma stateless_rounds_never_delete:
  assumes "\<not> frozen (evaluate L fl sha opt i first_state prev)" and "\<not> oo_force opt" and "0 < oo_grace opt"
    and "prev = Some d" and "n \<in> set (document_names d)"
  shows "n \<in> ro_eligible (evaluate L fl sha opt i first_state prev)"
proof (rule ccontr)
  assume not: "n \<notin> ro_eligible (evaluate L fl sha opt i first_state prev)"
  have ne: "dedup (document_names d) \<noteq> []" using assms(5) by (metis set_dedup empty_iff empty_set)
  have "n \<in> set (os_names (recovered first_state prev))"
    using assms(4,5) ne by (auto simp: recovered_def recover_baseline_def new_round_def first_state_def Let_def
      set_last_names_def set_last_declared_def)
  moreover have r: "evaluate L fl sha opt i first_state prev =
      evaluate L fl sha opt i (dk_state \<lparr>dk_document = prev, dk_state = first_state\<rparr>)
        (dk_document \<lparr>dk_document = prev, dk_state = first_state\<rparr>)" by simp
  ultimately have "\<exists>newer e older. ([] :: written_round list) = newer @ e # older"
    using deletions_need_history [OF first_run [of L fl sha prev] r assms(1-3) _ not] by simp
  then show False by simp
qed


end
