(* ===== verification/OnboardNames.thy ===== *)
theory OnboardNames
  imports OnboardProps
begin

text \<open>
  What the written certificates and the report say about each name: every name in a certificate was
  authorised or already covered, and every declared name has one verdict.
\<close>

section \<open>An induction along the groups\<close>

lemma freeze_frozen: "frozen (freeze why r)"
  by (simp add: frame)

text \<open>The shapes of a group that could not be rebuilt and did not freeze the round.\<close>

lemma over_cases:
  assumes "\<not> frozen (over_limit opt g c r)"
  obtains (kept) prev domains k where "previous_cert r (g_name g) = Some prev"
      "domains = filter (\<lambda>n. n \<notin> ro_removed r) (ct_domains prev)"
      "over_limit opt g c r =
        (fold (\<lambda>n. include_name \<lparr>vd_host = n, vd_included = True, vd_reason = KeptAtPrevious c, vd_cert = g_name g\<rparr>)
          (group_members g) (r\<lparr>ro_certs := ro_certs r @ [prev\<lparr>ct_domains := domains\<rparr>]\<rparr>))\<lparr>ro_carried := k\<rparr>"
  | (rejected) "over_limit opt g c r = fold (\<lambda>n. reject n (Inexpressible c)) (group_members g) r"
  using assms freeze_frozen [of _ r]
  by (auto simp: over_limit_def keep_previous_def Let_def split: option.splits if_splits)

lemma build_groups_rule:
  assumes over: "\<And>D g c r. g \<in> G \<Longrightarrow> D \<inter> set (group_members g) = {} \<Longrightarrow> distinct (group_members g) \<Longrightarrow>
      P D r \<Longrightarrow> \<not> frozen (over_limit opt g c r) \<Longrightarrow> P (D \<union> set (group_members g)) (over_limit opt g c r)"
    and add: "\<And>D g cov s k r. g \<in> G \<Longrightarrow> D \<inter> set (group_members g) = {} \<Longrightarrow> distinct (group_members g) \<Longrightarrow>
      P D r \<Longrightarrow> cover k g = Inr cov \<Longrightarrow> P (D \<union> set (group_members g)) (add_group opt g cov s r)"
    and start: "set gs \<subseteq> G" "\<not> frozen (build_groups L opt gs r)" "distinct (concat (map group_members gs))"
      "D \<inter> set (concat (map group_members gs)) = {}" "P D r"
  shows "P (D \<union> set (concat (map group_members gs))) (build_groups L opt gs r)"
  using start
proof (induction gs arbitrary: D r)
  case (Cons g gs)
  have G: "set gs \<subseteq> G" "g \<in> G" using Cons.prems(1) by auto
  have dis: "D \<inter> set (group_members g) = {}" "distinct (group_members g)"
    "(D \<union> set (group_members g)) \<inter> set (concat (map group_members gs)) = {}"
    "distinct (concat (map group_members gs))" using Cons.prems(3,4) by auto
  have IH: "P (D \<union> set (concat (map group_members (g # gs)))) (build_groups L opt gs r')"
    if "\<not> frozen (build_groups L opt gs r')" "P (D \<union> set (group_members g)) r'" for r'
    using Cons.IH [OF G(1) that(1) dis(4,3) that(2)] by (simp add: Un_assoc)
  have more: ?case if h: "build_groups L opt (g # gs) r =
      (let r' = over_limit opt g c r in if frozen r' then r' else build_groups L opt gs r')" for c
  proof -
    have n: "\<not> frozen (over_limit opt g c r)"
      using Cons.prems(2) unfolding h Let_def by (metis (full_types))
    then have e: "build_groups L opt (g # gs) r = build_groups L opt gs (over_limit opt g c r)"
      unfolding h Let_def by (rule if_not_P)
    show ?thesis unfolding e
      by (rule IH) (rule Cons.prems(2) [unfolded e], rule over [OF G(2) dis(1,2) Cons.prems(5) n])
  qed
  show ?case
  proof (cases "group_settings L opt r g")
    case (Inl c)
    then show ?thesis using more [of c] by simp
  next
    case s: (Inr s)
    show ?thesis
    proof (cases "cover (group_name_cap (oo_max_names opt) (fst s)) g")
      case (Inl e)
      have "\<exists>c. build_groups L opt (g # gs) r =
        (let r' = over_limit opt g c r in if frozen r' then r' else build_groups L opt gs r')"
        using Cons.prems(2) s Inl freeze_frozen [of "CannotCover (g_name g) e" r] by (cases e) auto
      then show ?thesis using more by blast
    next
      case (Inr cov)
      then have e: "build_groups L opt (g # gs) r = build_groups L opt gs (add_group opt g cov s r)"
        using s by simp
      show ?thesis unfolding e
        by (rule IH) (rule Cons.prems(2) [unfolded e], rule add [OF G(2) dis(1,2) Cons.prems(5) Inr])
    qed
  qed
qed simp

text \<open>The groups' members are the normalised names, each once.\<close>

lemma members_group_of:
  assumes "finite N"
  shows "set (group_members (group_of L N r)) = {n \<in> N. registered_domain L n = r}"
    "distinct (group_members (group_of L N r))"
  using assms by (auto simp: group_members_def group_of_def)

lemma group_members_declared: "set (group_members g) = declared g"
  by (auto simp: group_members_def declared_def)

lemma normals_finite: "finite (normals L ds)"
proof -
  have "normals L ds \<subseteq> (\<lambda>x. projr (normalize_name L x)) ` set ds" by (force simp: normals_def)
  then show ?thesis using finite_surj by blast
qed

lemma group_members_spec:
  assumes "psl_ok L" and "group_by L ds = Inr gs"
  shows "set (concat (map group_members gs)) = normals L ds" and "distinct (concat (map group_members gs))"
proof -
  note G = group_by_spec [OF assms]
  note M = members_group_of [OF normals_finite, of L L ds]
  show "set (concat (map group_members gs)) = normals L ds" using G(1) M(1) by auto
  have d: "distinct gs" using G(3) by (simp add: distinct_map)
  have in_form: "\<exists>r. g = group_of L (normals L ds) r" if "g \<in> set gs" for g using that G(1) by auto
  have apart: "set (group_members g) \<inter> set (group_members h) = {}" if "g \<in> set gs" "h \<in> set gs" "g \<noteq> h" for g h
    using in_form [OF that(1)] in_form [OF that(2)] that(3) M(1) by auto
  have "distinct (concat (map group_members hs))" if "set hs \<subseteq> set gs" "distinct hs" for hs
    using that
  proof (induction hs)
    case (Cons h hs)
    then have "set (group_members h) \<inter> set (group_members g) = {}" if "g \<in> set hs" for g
      using apart [of h g] that by auto
    moreover have "distinct (group_members h)" using in_form Cons.prems(1) M(2) by force
    ultimately show ?case using Cons by auto
  qed simp
  from this [OF _ d] show "distinct (concat (map group_members gs))" by simp
qed

section \<open>Only authorised names get into certificates\<close>

definition authorised :: "golib \<Rightarrow> onboard_options \<Rightarrow> evaluation \<Rightarrow> dns_declaration \<Rightarrow> bool" where
  "authorised L opt r d \<longleftrightarrow> allowed L opt (dl_hostname d) \<and>
     (oo_require_rule opt \<longrightarrow> ro_guard_unavailable r \<or> any_name_served (ro_rules r) d)"

lemma authorised_seen: "seen r = seen s \<Longrightarrow> authorised L opt r = authorised L opt s"
  by (rule ext) (simp add: authorised_def seen_def)

lemma rejects_eligible: "ro_eligible (fold (\<lambda>n. reject n why) ns r) = ro_eligible r"
  by (rule fold_frame) (simp add: frame)

lemma resolve_one_eligible:
  "ro_eligible (resolve_one L opt d r) = (if authorised L opt r d then ro_eligible r \<union> set (dl_names d) else ro_eligible r)"
  by (simp add: resolve_one_def authorised_def rejects_eligible)

lemma resolve_fold_eligible:
  "ro_eligible (fold (resolve_one L opt) ds r) =
     ro_eligible r \<union> (\<Union>d \<in> {d \<in> set ds. authorised L opt r d}. set (dl_names d))"
proof (induction ds arbitrary: r)
  case (Cons d ds)
  have "authorised L opt (resolve_one L opt d r) = authorised L opt r" by (rule authorised_seen [OF seen_resolve_one])
  then show ?case by (auto simp: Cons resolve_one_eligible split: if_splits)
qed simp

lemma judge_only_covered: "ro_eligible (fold (judge_absent opt i) ns r) \<subseteq> ro_eligible r \<union> set ns"
proof (induction ns arbitrary: r)
  case (Cons n ns)
  have "ro_eligible (judge_absent opt i n r) \<subseteq> insert n (ro_eligible r)" by (auto simp: judge_eligible)
  then show ?case using Cons [of "judge_absent opt i n r"] by auto
qed simp

lemma resolve_eligible:
  assumes "m \<in> ro_eligible (resolve L opt i r)" and "ro_eligible r = {}"
  shows "m \<in> set (os_names (ro_state r)) \<or> (\<exists>d \<in> set (ro_declarations r). m \<in> set (dl_names d) \<and> authorised L opt r d)"
proof -
  let ?r = "fold (resolve_one L opt) (ro_declarations r) r"
  let ?absent = "sort (filter (\<lambda>n. n \<notin> ro_eligible ?r) (dedup (os_names (ro_state ?r))))"
  have "m \<in> ro_eligible (fold (judge_absent opt i) (filter (\<lambda>n. n \<notin> set (declared_names ?r)) ?absent)
      (fold keep_declared (filter (\<lambda>n. n \<in> set (declared_names ?r)) ?absent) ?r))"
    using assms(1) by (simp add: resolve_def apply_grace_def Let_def)
  then have "m \<in> ro_eligible ?r \<or> m \<in> set ?absent"
    using judge_only_covered [of opt i] keep_eligible by fastforce
  then show ?thesis using assms(2) by (auto simp: resolve_fold_eligible resolved_state)
qed

text \<open>A certificate that a group put into the document, and what was kept of the previous one.\<close>

definition cert_grounds :: "desired_document option \<Rightarrow> string set \<Rightarrow> certificate list \<Rightarrow> bool" where
  "cert_grounds prev D cs \<longleftrightarrow> (\<forall>c \<in> set cs. \<forall>n \<in> set (ct_domains c). n \<in> D \<or>
     (\<exists>doc p. prev = Some doc \<and> p \<in> set (dd_certs doc) \<and> ct_name p = ct_name c \<and> n \<in> set (ct_domains p)))"

lemma previous_cert_Some: "previous_cert r n = Some p \<Longrightarrow>
    \<exists>doc. ro_prev r = Some doc \<and> p \<in> set (dd_certs doc) \<and> ct_name p = n"
  by (auto simp: previous_cert_def find_cert_def find_Some_iff split: option.splits)

lemma include_certs: "ro_certs (fold (\<lambda>n. include_name (v n)) ns r) = ro_certs r"
  by (rule fold_frame) (simp add: frame)

lemma reject_certs: "ro_certs (fold (\<lambda>n. reject n why) ns r) = ro_certs r"
  by (rule fold_frame) (simp add: frame)

lemma cover_domains: "cover k g = Inr cov \<Longrightarrow> set (cov_domains cov) \<subseteq> set (group_members g)"
  by (drule cover_Inr(1)) (auto simp: group_members_def uncovered_names_def)

lemma build_grounds:
  assumes "psl_ok L" and "\<not> frozen (build L opt r)" and "ro_certs r = []"
  shows "cert_grounds (ro_prev r) {n. \<exists>m \<in> ro_eligible r. normalize_name L m = Inr n} (ro_certs (build L opt r))"
proof -
  obtain gs where gs: "group_by L (sorted_list_of_set (ro_eligible r)) = Inr gs"
    using assms(2) freeze_frozen [of _ r] by (auto simp: build_def split: sum.splits)
  note M = group_members_spec [OF assms(1) gs]
  let ?P = "\<lambda>D x. ro_prev x = ro_prev r \<and> cert_grounds (ro_prev r) D (ro_certs x)"
  have "?P ({} \<union> set (concat (map group_members gs))) (build_groups L opt gs r)"
  proof (rule build_groups_rule [where P = ?P and G = "set gs"])
    fix D g c and x :: evaluation
    assume px: "?P D x" and nf: "\<not> frozen (over_limit opt g c x)"
    from nf show "?P (D \<union> set (group_members g)) (over_limit opt g c x)"
    proof (cases rule: over_cases)
      case (kept prev domains k)
      from previous_cert_Some [OF kept(1)] px have p: "\<exists>doc. ro_prev r = Some doc \<and> prev \<in> set (dd_certs doc)" by auto
      have "ro_certs (over_limit opt g c x) = ro_certs x @ [prev\<lparr>ct_domains := domains\<rparr>]"
        unfolding kept(3) by (simp add: include_certs)
      then have "cert_grounds (ro_prev r) (D \<union> set (group_members g)) (ro_certs (over_limit opt g c x))"
        using px p unfolding cert_grounds_def kept(2) by fastforce
      then show ?thesis using px by (simp add: over_frame)
    next
      case rejected
      then have "ro_certs (over_limit opt g c x) = ro_certs x" by (simp add: reject_certs)
      then show ?thesis using px unfolding cert_grounds_def by (simp add: over_frame) blast
    qed
  next
    fix D g cov k and x :: evaluation and s :: "string \<times> string \<times> bool"
    assume px: "?P D x" and cv: "cover k g = Inr cov"
    obtain a b d where s: "s = (a, b, d)" by (cases s) auto
    have "ro_certs (add_group opt g cov s x) = ro_certs x @ [new_certificate (g_name g) (cov_domains cov) a b d]"
      by (simp add: add_group_def s include_certs)
    then show "?P (D \<union> set (group_members g)) (add_group opt g cov s x)"
      using px cover_domains [OF cv] unfolding cert_grounds_def
      by (simp add: add_group_frame new_certificate_def) blast
  next
    show "\<not> frozen (build_groups L opt gs r)" using assms(2) gs by (simp add: build_def)
    show "distinct (concat (map group_members gs))" by (rule M)
    show "?P {} r" using assms(3) by (simp add: cert_grounds_def)
  qed simp_all
  moreover have "set (concat (map group_members gs)) \<subseteq> {n. \<exists>m \<in> ro_eligible r. normalize_name L m = Inr n}"
    unfolding M normals_def by (cases "finite (ro_eligible r)") auto
  ultimately have "cert_grounds (ro_prev r) {n. \<exists>m \<in> ro_eligible r. normalize_name L m = Inr n}
      (ro_certs (build_groups L opt gs r))" unfolding cert_grounds_def by blast
  then show ?thesis using gs by (simp add: build_def)
qed

lemma resolve_certs: "ro_certs (resolve L opt i r) = ro_certs r"
proof -
  have "ro_certs (fold (resolve_one L opt) ds x) = ro_certs x" for ds x
    by (rule fold_frame) (simp add: resolve_one_def reject_certs)
  moreover have "ro_certs (fold (judge_absent opt i) ns x) = ro_certs x" for ns x
  proof (rule fold_frame)
    fix n x show "ro_certs (judge_absent opt i n x) = ro_certs x"
      by (cases "mark_absent n (oi_now i) (ro_state x)") (simp add: judge_absent_def Let_def frame)
  qed
  moreover have "ro_certs (fold keep_declared ns x) = ro_certs x" for ns x
    by (rule fold_frame) (simp add: keep_declared_def Let_def frame)
  ultimately show ?thesis by (simp add: resolve_def apply_grace_def Let_def)
qed

text \<open>
  C19. No name gets into a certificate on its own: in a round that was not frozen every name of every
  certificate is the normal form of a name that is declared, inside the allowlist and, where rules are
  required and were read, served; or of a name the last round already covered; or it is in the
  certificate of the same name in the document being replaced.
\<close>

theorem certified_names_are_authorised:
  assumes "psl_ok L" and "r = evaluate L fl sha opt i st prev" and "\<not> frozen r"
    and "c \<in> set (ro_certs r)" and "n \<in> set (ct_domains c)"
  shows "(\<exists>m. normalize_name L m = Inr n \<and>
       (m \<in> set (os_names (recovered st prev)) \<or>
        (\<exists>d \<in> set (ro_declarations r). m \<in> set (dl_names d) \<and> allowed L opt (dl_hostname d) \<and>
           (oo_require_rule opt \<longrightarrow> ro_guard_unavailable r \<or> any_name_served (ro_rules r) d)))) \<or>
     (\<exists>doc p. prev = Some doc \<and> p \<in> set (dd_certs doc) \<and> ct_name p = ct_name c \<and> n \<in> set (ct_domains p))"
proof -
  from written [OF assms(3) [unfolded assms(2)]] obtain r1 where r1: "seen r = seen r1" "ro_prev r1 = prev"
    "os_names (ro_state r1) = os_names (recovered st prev)" "ro_eligible r1 = {}"
    "r1 = fuse fl opt (gathered L opt i st prev)"
    "ro_certs r = ro_certs (build L opt (resolve L opt i r1))" "\<not> frozen (build L opt (resolve L opt i r1))"
    by (metis assms(2))
  have "ro_certs (resolve L opt i r1) = []" by (simp add: resolve_certs r1(5) fuse_frame gathered_frame)
  from build_grounds [OF assms(1) r1(7) this] assms(4,5)
  have "(\<exists>m \<in> ro_eligible (resolve L opt i r1). normalize_name L m = Inr n) \<or>
     (\<exists>doc p. prev = Some doc \<and> p \<in> set (dd_certs doc) \<and> ct_name p = ct_name c \<and> n \<in> set (ct_domains p))"
    unfolding cert_grounds_def r1(6) by (simp add: seen_resolved r1(2))
  then show ?thesis
    using resolve_eligible [OF _ r1(4), of _ L opt i] authorised_seen [OF r1(1), of L opt] seen_parts [OF r1(1)]
    unfolding r1(3) authorised_def by metis
qed

section \<open>One verdict per name\<close>

definition one_verdict :: "string set \<Rightarrow> verdict list \<Rightarrow> bool" where
  "one_verdict D vs \<longleftrightarrow> distinct (map vd_host vs) \<and> (\<forall>v \<in> set vs. vd_included v \<longrightarrow> vd_host v \<in> D)"

definition hosts :: "evaluation \<Rightarrow> string set" where
  "hosts r = vd_host ` set (ro_verdicts r)"

lemma distinct_hosts_filter: "distinct (map vd_host vs) \<Longrightarrow> distinct (map vd_host (filter P vs))"
  by (induction vs) auto

lemma one_verdict_reject:
  assumes "one_verdict D (ro_verdicts r)" and "n \<notin> D"
  shows "one_verdict D (ro_verdicts (reject n why r))"
  using assms by (auto simp: reject_def one_verdict_def excluded_def find_None_iff)

lemma one_verdict_unreject: "one_verdict D (ro_verdicts r) \<Longrightarrow> one_verdict D (ro_verdicts (unreject n r))"
  by (auto simp: unreject_def one_verdict_def distinct_hosts_filter)

lemma one_verdict_include:
  assumes "one_verdict D (ro_verdicts r)" and "vd_host v \<notin> D"
  shows "one_verdict (insert (vd_host v) D) (ro_verdicts (include_name v r))"
  using assms by (auto simp: include_name_def Let_def unreject_def one_verdict_def distinct_hosts_filter)

lemma hosts_frame: "hosts (reject n why r) = insert n (hosts r)" "hosts r - {n} \<subseteq> hosts (unreject n r)"
  "insert (vd_host v) (hosts r) \<subseteq> hosts (include_name v r)" "hosts (carry n why r) = hosts r"
  "hosts (r\<lparr>ro_state := st\<rparr>) = hosts r" "hosts (r\<lparr>ro_removed := ns\<rparr>) = hosts r"
  by (auto simp: hosts_def reject_def unreject_def include_name_def carry_def Let_def excluded_def find_None_iff)

text \<open>Before the groups are built nothing is included yet, and a name is judged or eligible.\<close>

definition accounted :: "evaluation \<Rightarrow> string set" where
  "accounted r = hosts r \<union> ro_eligible r"

lemma accounted_rejects: "accounted (fold (\<lambda>n. reject n why) ns r) = accounted r \<union> set ns"
  by (induction ns arbitrary: r) (auto simp: accounted_def hosts_frame frame)

lemma accounted_one: "accounted r \<union> set (dl_names d) \<subseteq> accounted (resolve_one L opt d r)"
  by (auto simp: resolve_one_def accounted_rejects) (auto simp: accounted_def hosts_def)

lemma accounted_keep: "accounted r \<subseteq> accounted (keep_declared n r)"
  using hosts_frame(2) [of "r\<lparr>ro_state := mark_present n (ro_state r)\<rparr>" n]
  by (auto simp: keep_declared_def Let_def accounted_def hosts_frame frame)

lemma accounted_judge: "accounted r \<subseteq> accounted (judge_absent opt i n r)"
  by (cases "mark_absent n (oi_now i) (ro_state r)")
    (auto simp: judge_absent_def Let_def accounted_def hosts_frame frame)

lemma accounted_resolve: "accounted r \<union> set (declared_names r) \<subseteq> accounted (resolve L opt i r)"
proof -
  have one: "accounted x \<union> set (concat (map dl_names ds)) \<subseteq> accounted (fold (resolve_one L opt) ds x)" for ds x
  proof (induction ds arbitrary: x)
    case (Cons d ds)
    show ?case using Cons [of "resolve_one L opt d x"] accounted_one [of x d L opt] by auto
  qed simp
  have keep: "accounted x \<subseteq> accounted (fold keep_declared ns x)" for ns x
    by (rule fold_keeps [where P = "\<lambda>y. accounted x \<subseteq> accounted y"]) (use accounted_keep in blast)+
  have judge: "accounted x \<subseteq> accounted (fold (judge_absent opt i) ns x)" for ns x
    by (rule fold_keeps [where P = "\<lambda>y. accounted x \<subseteq> accounted y"]) (use accounted_judge in blast)+
  have "accounted x \<subseteq> accounted (apply_grace opt i x)" for x
  proof -
    have "accounted (y\<lparr>ro_state := st\<rparr>) = accounted y" for y st by (simp add: accounted_def hosts_frame)
    then show ?thesis unfolding apply_grace_def Let_def using keep judge by (metis subset_trans)
  qed
  then show ?thesis using one [of r "ro_declarations r"] unfolding resolve_def declared_names_def by blast
qed

lemma resolve_one_verdict:
  assumes "one_verdict {} (ro_verdicts r)"
  shows "one_verdict {} (ro_verdicts (resolve L opt i r))"
proof -
  have rej: "one_verdict {} (ro_verdicts (fold (\<lambda>n. reject n why) ns x))" if "one_verdict {} (ro_verdicts x)" for why ns x
    by (rule fold_keeps [where P = "\<lambda>x. one_verdict {} (ro_verdicts x)"]) (simp_all add: one_verdict_reject that)
  have one: "one_verdict {} (ro_verdicts (fold (resolve_one L opt) ds x))" if "one_verdict {} (ro_verdicts x)" for ds x
    by (rule fold_keeps [where P = "\<lambda>x. one_verdict {} (ro_verdicts x)"]) (simp_all add: resolve_one_def rej that)
  have keep: "one_verdict {} (ro_verdicts (fold keep_declared ns x))" if "one_verdict {} (ro_verdicts x)" for ns x
  proof (rule fold_keeps [where P = "\<lambda>x. one_verdict {} (ro_verdicts x)", OF _ that])
    fix n and y :: evaluation assume "one_verdict {} (ro_verdicts y)"
    then show "one_verdict {} (ro_verdicts (keep_declared n y))"
      using one_verdict_unreject [of "{}" "y\<lparr>ro_state := mark_present n (ro_state y)\<rparr>" n]
      by (simp add: keep_declared_def Let_def frame)
  qed
  have judge: "one_verdict {} (ro_verdicts (fold (judge_absent opt i) ns x))" if "one_verdict {} (ro_verdicts x)" for ns x
  proof (rule fold_keeps [where P = "\<lambda>x. one_verdict {} (ro_verdicts x)", OF _ that])
    fix n and y :: evaluation assume "one_verdict {} (ro_verdicts y)"
    then show "one_verdict {} (ro_verdicts (judge_absent opt i n y))"
      by (cases "mark_absent n (oi_now i) (ro_state y)")
        (simp add: judge_absent_def Let_def frame one_verdict_reject)
  qed
  show ?thesis unfolding resolve_def apply_grace_def Let_def by (simp add: one keep judge assms)
qed

text \<open>While the groups are built: the members done have a verdict, and an inclusion names its certificate.\<close>

definition backed :: "certificate list \<Rightarrow> verdict list \<Rightarrow> bool" where
  "backed cs vs \<longleftrightarrow> (\<forall>v \<in> set vs. vd_included v \<longrightarrow> (\<exists>c \<in> set cs. ct_name c = vd_cert v \<and>
     (covers_all (set (ct_domains c)) {vd_host v} \<or> (\<exists>cause. vd_reason v = KeptAtPrevious cause))))"

lemma backed_more: "backed cs vs \<Longrightarrow> backed (cs @ ds) vs"
  unfolding backed_def by fastforce

lemma include_all:
  assumes "\<And>n. vd_host (v n) = n" and "one_verdict D (ro_verdicts r)" and "distinct ns" and "D \<inter> set ns = {}"
    and "backed cs (ro_verdicts r)" and "\<And>n. n \<in> set ns \<Longrightarrow> backed cs [v n]"
  shows "one_verdict (D \<union> set ns) (ro_verdicts (fold (\<lambda>n. include_name (v n)) ns r)) \<and>
    hosts r \<union> set ns \<subseteq> hosts (fold (\<lambda>n. include_name (v n)) ns r) \<and>
    backed cs (ro_verdicts (fold (\<lambda>n. include_name (v n)) ns r))"
  using assms(2-)
proof (induction ns arbitrary: D r)
  case (Cons n ns)
  let ?r = "include_name (v n) r"
  have o: "one_verdict (insert n D) (ro_verdicts ?r)"
    using one_verdict_include [OF Cons.prems(1), of "v n"] Cons.prems(3) assms(1) by simp
  have b: "backed cs (ro_verdicts ?r)"
    using Cons.prems(4) Cons.prems(5) [of n] by (auto simp: include_name_def unreject_def Let_def backed_def)
  have h: "insert n (hosts r) \<subseteq> hosts ?r" using hosts_frame(3) [of "v n" r] by (simp add: assms(1))
  have "distinct ns" "insert n D \<inter> set ns = {}" using Cons.prems(2,3) by auto
  note ih = Cons.IH [OF o this b Cons.prems(5)]
  have "insert n D \<union> set ns = D \<union> set (n # ns)" by auto
  with ih h show ?case by auto
qed auto

lemma reject_all:
  assumes "one_verdict D (ro_verdicts r)" and "D \<inter> set ns = {}" and "backed cs (ro_verdicts r)"
  shows "one_verdict D (ro_verdicts (fold (\<lambda>n. reject n why) ns r)) \<and>
    hosts (fold (\<lambda>n. reject n why) ns r) = hosts r \<union> set ns \<and>
    backed cs (ro_verdicts (fold (\<lambda>n. reject n why) ns r))"
  using assms
proof (induction ns arbitrary: r)
  case (Cons n ns)
  have b: "backed cs (ro_verdicts (reject n why r))" using Cons.prems(3) by (auto simp: reject_def backed_def)
  show ?case
    using Cons.IH [OF one_verdict_reject [OF Cons.prems(1)] _ b] Cons.prems(2) by (auto simp: hosts_frame)
qed simp

lemma one_verdict_mono: "one_verdict D vs \<Longrightarrow> D \<subseteq> E \<Longrightarrow> one_verdict E vs"
  unfolding one_verdict_def by blast

lemma build_verdicts:
  assumes "psl_ok L" and "\<not> frozen (build L opt r)" and "one_verdict {} (ro_verdicts r)" and "ro_certs r = []"
    and "finite (ro_eligible r)"
  shows "one_verdict UNIV (ro_verdicts (build L opt r)) \<and> backed (ro_certs (build L opt r)) (ro_verdicts (build L opt r)) \<and>
    hosts r \<union> {n. \<exists>m \<in> ro_eligible r. normalize_name L m = Inr n} \<subseteq> hosts (build L opt r) \<and>
    (\<forall>m \<in> ro_eligible r. \<exists>n. normalize_name L m = Inr n)"
proof -
  obtain gs where gs: "group_by L (sorted_list_of_set (ro_eligible r)) = Inr gs"
    using assms(2) freeze_frozen [of _ r] by (auto simp: build_def split: sum.splits)
  note M = group_members_spec [OF assms(1) gs]
  let ?P = "\<lambda>D x. one_verdict D (ro_verdicts x) \<and> D \<union> hosts r \<subseteq> hosts x \<and> backed (ro_certs x) (ro_verdicts x)"
  have "?P ({} \<union> set (concat (map group_members gs))) (build_groups L opt gs r)"
  proof (rule build_groups_rule [where P = ?P and G = "set gs"])
    fix D g c and x :: evaluation
    assume px: "?P D x" and nf: "\<not> frozen (over_limit opt g c x)"
      and d: "D \<inter> set (group_members g) = {}" "distinct (group_members g)"
    from nf show "?P (D \<union> set (group_members g)) (over_limit opt g c x)"
    proof (cases rule: over_cases)
      case (kept prev domains k)
      let ?v = "\<lambda>n. \<lparr>vd_host = n, vd_included = True, vd_reason = KeptAtPrevious c, vd_cert = g_name g\<rparr>"
      let ?x = "x\<lparr>ro_certs := ro_certs x @ [prev\<lparr>ct_domains := domains\<rparr>]\<rparr>"
      have nm: "ct_name prev = g_name g" using previous_cert_Some [OF kept(1)] by auto
      have e: "ro_certs (over_limit opt g c x) = ro_certs ?x"
        "hosts (over_limit opt g c x) = hosts (fold (\<lambda>n. include_name (?v n)) (group_members g) ?x)"
        "ro_verdicts (over_limit opt g c x) = ro_verdicts (fold (\<lambda>n. include_name (?v n)) (group_members g) ?x)"
        unfolding kept(3) by (simp_all add: include_certs hosts_def)
      have "one_verdict (D \<union> set (group_members g)) (ro_verdicts (fold (\<lambda>n. include_name (?v n)) (group_members g) ?x)) \<and>
          hosts ?x \<union> set (group_members g) \<subseteq> hosts (fold (\<lambda>n. include_name (?v n)) (group_members g) ?x) \<and>
          backed (ro_certs ?x) (ro_verdicts (fold (\<lambda>n. include_name (?v n)) (group_members g) ?x))"
        by (rule include_all) (use px d nm backed_more in \<open>auto simp: backed_def\<close>)
      moreover have "hosts ?x = hosts x" by (simp add: hosts_def)
      ultimately show ?thesis using px unfolding e by auto
    next
      case rejected
      have "one_verdict D (ro_verdicts (over_limit opt g c x)) \<and>
          hosts (over_limit opt g c x) = hosts x \<union> set (group_members g) \<and>
          backed (ro_certs x) (ro_verdicts (over_limit opt g c x))"
        unfolding rejected by (rule reject_all) (use px d in auto)
      then show ?thesis using px one_verdict_mono [of D _ "D \<union> set (group_members g)"]
        unfolding rejected reject_certs by auto
    qed
  next
    fix D g cov k and x :: evaluation and s :: "string \<times> string \<times> bool"
    assume px: "?P D x" and cv: "cover k g = Inr cov"
      and d: "D \<inter> set (group_members g) = {}" "distinct (group_members g)"
    obtain a b e where s: "s = (a, b, e)" by (cases s) auto
    let ?x = "x\<lparr>ro_certs := ro_certs x @ [new_certificate (g_name g) (cov_domains cov) a b e]\<rparr>"
    let ?v = "\<lambda>n. \<lparr>vd_host = n, vd_included = True, vd_reason = member_reason opt cov x n, vd_cert = g_name g\<rparr>"
    have r: "add_group opt g cov s x = fold (\<lambda>n. include_name (?v n)) (group_members g) ?x"
      by (simp add: add_group_def s)
    have c: "backed (ro_certs ?x) [?v n]" if "n \<in> set (group_members g)" for n
    proof -
      have "covers_all (set (cov_domains cov)) {n}"
        using cover_covers [OF cv] that unfolding group_members_declared covers_all_def by blast
      then show ?thesis by (simp add: backed_def new_certificate_def)
    qed
    have "one_verdict (D \<union> set (group_members g)) (ro_verdicts (fold (\<lambda>n. include_name (?v n)) (group_members g) ?x)) \<and>
        hosts ?x \<union> set (group_members g) \<subseteq> hosts (fold (\<lambda>n. include_name (?v n)) (group_members g) ?x) \<and>
        backed (ro_certs ?x) (ro_verdicts (fold (\<lambda>n. include_name (?v n)) (group_members g) ?x))"
      by (rule include_all) (use px d c backed_more in auto)
    moreover have "hosts ?x = hosts x" by (simp add: hosts_def)
    ultimately show "?P (D \<union> set (group_members g)) (add_group opt g cov s x)"
      using px unfolding r include_certs by auto
  next
    show "\<not> frozen (build_groups L opt gs r)" using assms(2) gs by (simp add: build_def)
    show "distinct (concat (map group_members gs))" by (rule M)
    show "?P {} r" using assms(3) by (auto simp: backed_def one_verdict_def)
  qed simp_all
  moreover have "set (concat (map group_members gs)) = {n. \<exists>m \<in> ro_eligible r. normalize_name L m = Inr n}"
    unfolding M normals_def using assms(5) by simp
  moreover have "\<forall>m \<in> ro_eligible r. \<exists>n. normalize_name L m = Inr n"
    using group_by_spec(4) [OF assms(1) gs] assms(5) by simp
  ultimately show ?thesis using gs one_verdict_mono [of _ _ UNIV] unfolding build_def by auto
qed

section \<open>What was declared\<close>

lemma map_sum_Inr_iff: "map_sum f g x = Inr y \<longleftrightarrow> (\<exists>z. x = Inr z \<and> y = g z)"
  by (cases x) auto

lemma parsed_host: "parse_declaration L zone rec values = Inr d \<Longrightarrow> host_name (dl_hostname d)"
proof -
  assume p: "parse_declaration L zone rec values = Inr d"
  have k: "set_key key val x = Inr y \<Longrightarrow> dl_hostname y = dl_hostname x" for key val x y
    by (auto simp: set_key_def split: if_splits option.splits)
  have f: "apply_field f s = Inr s' \<Longrightarrow> dl_hostname (fst s') = dl_hostname (fst s)" for f s s'
    by (cases s; cases "cut_field f")
      (auto simp: apply_field_def map_sum_Inr_iff dest: k split: if_splits option.splits)
  have fs: "apply_fields fs s = Inr s' \<Longrightarrow> dl_hostname (fst s') = dl_hostname (fst s)" for fs s s'
    by (induction fs arbitrary: s) (auto dest: f split: sum.splits)
  from p obtain raw host where h: "normalize_name L raw = Inr host" "\<not> is_wildcard host" "dl_hostname d = host"
    by (auto simp: parse_declaration_def Let_def map_sum_Inr_iff dest!: fs split: if_splits sum.splits)
  then show ?thesis
    using validate_domain_host [OF normalize_name_valid [OF h(1)]] by (simp add: base_name_def trim_prefix_def is_wildcard_def)
qed

lemma gathered_hosts: "d \<in> set (ro_declarations (gathered L opt i st prev)) \<Longrightarrow> host_name (dl_hostname d)"
proof -
  have one: "\<forall>x \<in> set (map snd (fst (parse_record L rw s))). host_name (dl_hostname x)"
    if "\<forall>x \<in> set (map snd (fst s)). host_name (dl_hostname x)" for rw s
    using that by (cases s) (auto simp: parse_record_def Let_def dest: parsed_host split: sum.split option.split)
  have "\<forall>x \<in> set (map snd (fst (fold (parse_record L) raws s))). host_name (dl_hostname x)"
    if "\<forall>x \<in> set (map snd (fst s)). host_name (dl_hostname x)" for raws s
    using that
  proof (induction raws arbitrary: s)
    case (Cons rw raws)
    show ?case using Cons.IH [OF one [OF Cons.prems, of rw]] by simp
  qed simp
  from this [of "([], {}, r)" for r] have p: "d \<in> set (ro_declarations (parse_records L raws r)) \<Longrightarrow> host_name (dl_hostname d)"
    for raws r d by (auto simp: parse_records_def split: prod.splits) (metis empty_iff fst_conv image_eqI list.set(1) list.simps(8) set_map snd_conv)
  have "ro_declarations (recover_baseline (new_round st prev)) = []"
    by (simp add: recover_baseline_def Let_def new_round_def split: option.split)
  then show "d \<in> set (ro_declarations (gathered L opt i st prev)) \<Longrightarrow> host_name (dl_hostname d)"
    using p by (auto simp: gathered_def gather_def load_rules_frame frame split: sum.splits)
qed

section \<open>The report\<close>

lemma gathered_one_verdict: "one_verdict {} (ro_verdicts (gathered L opt i st prev))"
proof -
  have one: "one_verdict {} (ro_verdicts (snd (snd (parse_record L rw s))))"
    if "one_verdict {} (ro_verdicts (snd (snd s)))" for rw s
    using that by (cases s)
      (auto simp: parse_record_def Let_def one_verdict_reject one_verdict_unreject split: sum.split option.split)
  have all: "one_verdict {} (ro_verdicts (snd (snd (fold (parse_record L) raws s))))"
    if "one_verdict {} (ro_verdicts (snd (snd s)))" for raws s
    by (rule fold_keeps [where P = "\<lambda>s. one_verdict {} (ro_verdicts (snd (snd s)))"]) (use one that in auto)
  have p: "one_verdict {} (ro_verdicts (parse_records L raws r))" if "one_verdict {} (ro_verdicts r)" for raws r
  proof -
    obtain b q r' where "fold (parse_record L) raws ([], {}, r) = (b, q, r')" by (metis surj_pair)
    then show ?thesis using all [of "([], {}, r)" raws] that by (simp add: parse_records_def)
  qed
  have "one_verdict {} (ro_verdicts (recover_baseline (new_round st prev)))"
    by (simp add: recover_frame new_round_def one_verdict_def)
  then show ?thesis using p by (auto simp: gathered_def gather_def load_rules_frame frame split: sum.split)
qed

lemma later_verdicts: "ro_verdicts (budget L fl sha opt now r) = ro_verdicts r"
  "ro_verdicts (assemble opt now r) = ro_verdicts r" "ro_verdicts (fuse fl opt r) = ro_verdicts r"
  "set (sort_verdicts vs) = set vs" "distinct (map vd_host (sort_verdicts vs)) = distinct (map vd_host vs)"
proof -
  show "ro_verdicts (budget L fl sha opt now r) = ro_verdicts r"
    by (auto simp: budget_def Let_def freeze_def split: option.split prod.split)
  show "ro_verdicts (assemble opt now r) = ro_verdicts r" by (simp add: assemble_def Let_def)
  show "ro_verdicts (fuse fl opt r) = ro_verdicts r" by (rule fuse_frame)
  show "set (sort_verdicts vs) = set vs" by (simp add: sort_verdicts_def)
  have "set (map vd_host (sort_verdicts vs)) = set (map vd_host vs)" by (simp add: sort_verdicts_def)
  moreover have "length (map vd_host (sort_verdicts vs)) = length (map vd_host vs)" by (simp add: sort_verdicts_def)
  ultimately show "distinct (map vd_host (sort_verdicts vs)) = distinct (map vd_host vs)"
    by (metis card_distinct distinct_card)
qed

lemma normal_declared:
  assumes "host_name (dl_hostname d)" and "m \<in> set (dl_names d)" and "normalize_name L m = Inr n"
  shows "n = m"
proof -
  have "m = dl_hostname d \<or> m = ''*.'' @ dl_hostname d" using assms(2) by (auto simp: dl_names_def split: if_splits)
  from host_name_clean [OF assms(1) this] assms(3) show ?thesis
    by (simp add: normalize_name_def Let_def split: if_splits option.splits)
qed


theorem certified_names_are_authorised_witness:
  "(\<exists>m. normalize_name sample_lib m = Inr ''b.example.com'' \<and>
     m \<in> set (os_names (recovered (dk_state first_disk) (dk_document first_disk)))) \<or>
   (\<exists>d \<in> set (ro_declarations (sample_round first_input first_disk)). \<exists>m \<in> set (dl_names d).
     normalize_name sample_lib m = Inr ''b.example.com'' \<and> allowed sample_lib onboard_sample (dl_hostname d)) \<or>
   (\<exists>doc p. dk_document first_disk = Some doc \<and> p \<in> set (dd_certs doc) \<and> ''b.example.com'' \<in> set (ct_domains p))"
proof -
  obtain c where "c \<in> set (ro_certs (sample_round first_input first_disk))" "''b.example.com'' \<in> set (ct_domains c)"
    using first_round by (auto simp: list_ex_iff)
  from certified_names_are_authorised [OF sample_lib_psl sample_round_def _ this] first_round show ?thesis by blast
qed


text \<open>
  The exception is real: when the declarations of a group contradict each other its certificate is
  kept, and a name declared for the first time is reported as included in it although no certificate
  of the document covers it.
\<close>

lemma kept_certificate_claims_new_name:
  "let r = sample_round (asked (100 * ns_hour) [(''a'', ''v=wecert1 profile=classic''), (''b'', ''v=wecert1 profile=tlsserver'')])
       \<lparr>dk_document = Some (document_of [''a.example.com'']), dk_state = first_state\<rparr>
   in \<not> frozen r \<and> list_ex (\<lambda>v. vd_host v = ''b.example.com'' \<and> vd_included v) (ro_verdicts r) \<and>
     list_all (\<lambda>c. ''b.example.com'' \<notin> set (ct_domains c) \<and>
       list_all (\<lambda>d. \<not> wildcard_covers d ''b.example.com'') (ct_domains c)) (ro_certs r)"
  by code_simp

end
