(* ===== verification/Spec2Isabelle.thy ===== *)
theory Spec2Isabelle
  imports Lifecycle Revoke DeployProps Desired Secrets Sched Loop OnboardNames
begin

text \<open>
  Verification of \<open>wecert\<close>, a controller that keeps TLS certificates issued over ACME and bound to
  Tencent Cloud load balancers. This theory imports the development; this block is its
  documentation.

  The program. A daemon reconciles each configured certificate (a name, a set of domains, a renewal
  margin). One pass (\<open>Manager.Reconcile\<close>) reads the certificate's row from a SQLite database, decides
  whether to order, carries an ACME order through DNS-01 challenges to a signed certificate, deploys
  it and promotes it in one transaction. Around it stand a token-bucket estimate of the CA's rate
  limits, a ledger of failing identifiers with a degradation that drops them near expiry, and the
  bookkeeping that finds TXT records and uploaded certificates again after a crash.

  The theories, bottom up, with the code they model (under \<open>src/\<close>):
  \<^item> \<open>Prelude\<close>: strings, keyed tables, instants and durations shared by all (the Go standard library
    functions the code uses).
  \<^item> \<open>Domain\<close>: names, their validation and fingerprints (\<open>internal/config/domain.go\<close>, \<open>config.go\<close>).
  \<^item> \<open>Group\<close>: grouping of domains into certificates and covers (\<open>internal/group/group.go\<close>).
  \<^item> \<open>RateLimit\<close>, \<open>RateTracker\<close>: limits, the token bucket, the readers of \<open>Retry-After\<close> and the tracker
    over an abstract bucket store (\<open>internal/ratelimit\<close>), with the quota report.
  \<^item> \<open>Store\<close>, \<open>StoreLaws\<close>: the tables of the state database and every operation on them
    (\<open>internal/state\<close>); a database is a record of lists of rows.
  \<^item> \<open>World\<close>, \<open>PassLogic\<close>: what a pass reads and changes, and how passes are reasoned about.
  \<^item> \<open>Fallback\<close>, \<open>Backoff\<close>, \<open>Refusal\<close>, \<open>Renewal\<close>, \<open>Txt\<close>, \<open>Order\<close>, \<open>Authz\<close>, \<open>Manager\<close>: package
    \<open>internal/acme\<close>: the degradation (\<open>fallback.go\<close>), what is remembered between passes and how a
    failure is recorded (\<open>manager.go\<close>, \<open>manager_done.go\<close>), the gates before an order
    (\<open>manager_renew.go\<close>), the renewal decision (\<open>ari.go\<close>, \<open>keys.go\<close>), the cleanup of TXT records
    (\<open>flow_cleanup.go\<close>, \<open>txt_reclaim_guard.go\<close>), the bookkeeping of an order, the solving of its
    challenges (\<open>flow_authz.go\<close>) and the pass itself (\<open>flow_advance.go\<close>, \<open>flow_order.go\<close>,
    \<open>download\<close>, \<open>issue\<close>, \<open>Reconcile\<close>).
  \<^item> \<open>CallLaws\<close>, \<open>CallProps\<close>: which calls a pass makes; \<open>DbLaws\<close>, \<open>PassProps\<close>, \<open>AuthzProps\<close>: what it
    does to the database; \<open>PassEnds\<close>: that it ends; \<open>Lifecycle\<close>: many passes as a step relation.
  \<^item> \<open>Triples\<close>: the state monad's operations and the rules by which invariants, postconditions and
    answers are proved of them, for every state type.
  \<^item> \<open>Revoke\<close>: revocation requests (\<open>internal/acme/revoke.go\<close>).
  \<^item> \<open>Cloud\<close>, \<open>Deploy\<close>, \<open>DeployProps\<close>: the classes of SDK errors (\<open>internal/tcerr\<close>), what the answers
    of the Tencent Cloud API mean, and the deployer: upload, one-click switch, enumeration of bindings,
    deletion and patrol (\<open>internal/deploy\<close>).
  \<^item> \<open>Certs\<close>, \<open>Settings\<close>, \<open>Secrets\<close>: the configuration, section by section, and its normalisation, the
    resolution of secrets and the warnings at load (\<open>internal/config\<close>).
  \<^item> \<open>Desired\<close>: the desired-state document, the sources of certificates and the comparison of two
    desired states (\<open>internal/spec\<close>).
  \<^item> \<open>Sched\<close>, \<open>Loop\<close>: the daemon around the passes (\<open>internal/reconcile\<close>). \<open>Sched\<close> is the step
    relation of triggers, background passes, timers and the drain over the claims, the slots and the
    counters of quota batches (\<open>start.go\<close>); \<open>Loop\<close> is the round over all certificates with its report,
    the probes, the teardown of certificates that left the desired state and the publication of quota
    scopes (\<open>report.go\<close>, \<open>orphan.go\<close>, \<open>pass.go\<close>, \<open>publish.go\<close>, \<open>probe_series.go\<close>).
  \<^item> \<open>Declare\<close>, \<open>Onboard\<close>, \<open>OnboardProps\<close>, \<open>OnboardNames\<close>: what writes the document
    (\<open>internal/onboarding\<close>). \<open>Declare\<close> parses TXT declarations; \<open>Onboard\<close> is one round, a function
    from the clock, the state kept between rounds, the document on disk and the answers of the two
    sources to an \<open>evaluation\<close> that \<open>commit\<close> writes; \<open>OnboardProps\<close> follows the fields a stage leaves
    alone and the history of written rounds (deletions, the budget); \<open>OnboardNames\<close> follows single
    names through the groups into certificates and verdicts.

  How a pass is modelled. It is a state monad over \<open>world\<close>: the database, the manager's in-memory maps
  and the list of calls made. The CA, the DNS provider, the cloud, the clock, a cancelled context and
  a failing disk are functions in \<open>env\<close> of the number of effects performed so far, so a theorem for
  every \<open>env\<close> is about every sequence of answers. lego, X.509, SHA-256, the Public Suffix List and
  time formatting are functions in \<open>env\<close> of their arguments. Failures are values: \<open>outcome\<close> for a
  pass, sums and options below it; an error text is the text the code builds.

  The contracts. A predicate of the state that does not depend on the numbering of effects
  (\<open>pass_inv\<close>), of the database (\<open>db_inv\<close>, \<open>txt_db\<close>, \<open>flow_db\<close>, \<open>pass_db\<close>, \<open>pass_db_all\<close>: a tower that
  follows which writes an operation makes) and of the calls (\<open>quiet\<close>, \<open>quiet_ca\<close>) are locales whose
  lemmas say once that every operation keeps them; the properties interpret them (the certificate a
  row holds, well-formedness, the failure ledger, the reclaim list, the number of orders and of
  accepted challenges). \<open>bucket_store\<close> is what the tracker needs of its store. The deployer runs over
  \<open>cloud\<close>, its log of calls with their answers; \<open>growing\<close> says that a predicate only becomes true as
  the log grows, \<open>polling\<close> that a loop ends by its deadline.

  Fuel. The polling loops of a pass and of the deployer take fuel, a round each; \<open>enough_fuel\<close> bounds it by their
  timeouts divided by the poll interval, plus two, and \<open>pass_ends\<close> and \<open>deployer_ends\<close> show that with it nothing is cut
  off. Everything else is structurally recursive.

  Not modelled: log lines, metrics and the clock readings made only for them; the interleaving of the
  effects of passes over different certificates (\<open>Sched\<close> interleaves claims, slots and counters, each
  critical section as one step, while what a pass does to the database is modelled for one pass alone);
  the sealing of secrets, SQL and the file system under the store; HTTP, the account's registration
  and key generation; the providers behind the DNS solver and its network probes; request bodies and
  credentials of the Tencent Cloud SDK, nginx; the listers of DNS and
  load-balancer rules and the state file of the onboarding; CA failover, the binding patrol, the console, the webhook
  server, probing, backup and the commands. An order's authorization URLs are taken to be distinct.
\<close>

end
